(* ===== verification/GoBase.thy ===== *)
theory GoBase
  imports Main "HOL-Library.Word" "HOL-Library.Sublist" "HOL-Library.State_Monad"
begin

text \<open>
  What the jobmaster sources use of the Go language and of its standard library, apart from
  paths (theory \<open>GoPath\<close>) and the operating system (theory \<open>Kernel\<close>).

  A Go \<open>string\<close> is a sequence of bytes: here a \<open>string\<close> of Isabelle, one \<open>char\<close> per byte.
  The case mappings and the quoting of non-ASCII text depend on the Unicode tables that the Go
  library carries as generated data; they are the parameter \<open>unicode\<close>, consulted only where the
  library consults them (a byte of at least 0x80 is present).

  Errors are values of \<open>goerr\<close>: one constructor per way the sources make an error, with the
  format string and the formatted arguments kept apart, so that every error site of the code is
  recognisable and \<open>error_text\<close> renders the text \<open>err.Error()\<close> gives.

  Effects are state passing in the library's state monad.  \<open>iferr\<close> and \<open>unless_err\<close> are the two
  shapes of \<open>if err != nil { return ... }\<close>.
\<close>

named_theorems go_run \<open>evaluation of monadic code at a state\<close>
named_theorems go_split \<open>case splits for the results of calls\<close>

section \<open>Strings\<close>

record unicode =
  u_lower :: "string \<Rightarrow> string"
  u_upper :: "string \<Rightarrow> string"
  u_quote :: "string \<Rightarrow> string"

definition byte_val :: "char \<Rightarrow> nat" where
  "byte_val c = of_char c"

definition is_ascii :: "string \<Rightarrow> bool" where
  "is_ascii s \<longleftrightarrow> (\<forall>c \<in> set s. byte_val c < 128)"

definition ascii_lower :: "char \<Rightarrow> char" where
  "ascii_lower c = (if 65 \<le> byte_val c \<and> byte_val c \<le> 90 then char_of (byte_val c + 32) else c)"

definition ascii_upper :: "char \<Rightarrow> char" where
  "ascii_upper c = (if 97 \<le> byte_val c \<and> byte_val c \<le> 122 then char_of (byte_val c - 32) else c)"

definition ToLower :: "unicode \<Rightarrow> string \<Rightarrow> string" where
  "ToLower u s = (if is_ascii s then map ascii_lower s else u_lower u s)"

definition ToUpper :: "unicode \<Rightarrow> string \<Rightarrow> string" where
  "ToUpper u s = (if is_ascii s then map ascii_upper s else u_upper u s)"

definition HasPrefix :: "string \<Rightarrow> string \<Rightarrow> bool" where
  "HasPrefix s p \<longleftrightarrow> take (length p) s = p"

definition TrimPrefix :: "string \<Rightarrow> string \<Rightarrow> string" where
  "TrimPrefix s p = (if HasPrefix s p then drop (length p) s else s)"

definition HasSuffix :: "string \<Rightarrow> string \<Rightarrow> bool" where
  "HasSuffix s p \<longleftrightarrow> HasPrefix (rev s) (rev p)"

text \<open>
  \<open>strings.TrimSpace\<close>: the UTF-8 encodings of the runes with the Unicode property White Space,
  cut off at both ends.
\<close>

definition space_runes :: "string list" where
  "space_runes =
     [[CHR 0x09], [CHR 0x0A], [CHR 0x0B], [CHR 0x0C], [CHR 0x0D], [CHR 0x20],
      [CHR 0xC2, CHR 0x85], [CHR 0xC2, CHR 0xA0], [CHR 0xE1, CHR 0x9A, CHR 0x80],
      [CHR 0xE2, CHR 0x80, CHR 0x80], [CHR 0xE2, CHR 0x80, CHR 0x81],
      [CHR 0xE2, CHR 0x80, CHR 0x82], [CHR 0xE2, CHR 0x80, CHR 0x83],
      [CHR 0xE2, CHR 0x80, CHR 0x84], [CHR 0xE2, CHR 0x80, CHR 0x85],
      [CHR 0xE2, CHR 0x80, CHR 0x86], [CHR 0xE2, CHR 0x80, CHR 0x87],
      [CHR 0xE2, CHR 0x80, CHR 0x88], [CHR 0xE2, CHR 0x80, CHR 0x89],
      [CHR 0xE2, CHR 0x80, CHR 0x8A], [CHR 0xE2, CHR 0x80, CHR 0xA8],
      [CHR 0xE2, CHR 0x80, CHR 0xA9], [CHR 0xE2, CHR 0x80, CHR 0xAF],
      [CHR 0xE2, CHR 0x81, CHR 0x9F], [CHR 0xE3, CHR 0x80, CHR 0x80]]"

fun starts_with_any :: "string list \<Rightarrow> string \<Rightarrow> nat" where
  "starts_with_any [] s = 0"
| "starts_with_any (p # ps) s = (if HasPrefix s p then length p else starts_with_any ps s)"

function trim_front :: "string list \<Rightarrow> string \<Rightarrow> string" where
  "trim_front ps s =
     (if starts_with_any ps s = 0 \<or> s = [] then s
      else trim_front ps (drop (starts_with_any ps s) s))"
  by pat_completeness auto
termination
  by (relation "measure (\<lambda>(ps, s). length s)") auto

declare trim_front.simps [simp del]

definition TrimSpace :: "string \<Rightarrow> string" where
  "TrimSpace s = rev (trim_front (map rev space_runes) (rev (trim_front space_runes s)))"

definition is_blank :: "string \<Rightarrow> bool" where
  "is_blank s \<longleftrightarrow> s = '''' \<or> TrimSpace s = ''''"

fun dec_digits :: "nat \<Rightarrow> string" where
  "dec_digits n =
     (if n < 10 then [char_of (48 + n)] else dec_digits (n div 10) @ [char_of (48 + n mod 10)])"

declare dec_digits.simps [simp del]

definition Itoa :: "int \<Rightarrow> string" where
  "Itoa i = (if i < 0 then ''-'' @ dec_digits (nat (- i)) else dec_digits (nat i))"

text \<open>\<open>strconv.Quote\<close>, used by the verb \<open>%q\<close>.\<close>

definition hex_digit :: "nat \<Rightarrow> char" where
  "hex_digit n = char_of (if n < 10 then 48 + n else 87 + n)"

definition quote_char :: "char \<Rightarrow> string" where
  "quote_char c =
     (let n = byte_val c in
      if n = 34 \<or> n = 92 then [CHR 0x5C, c]
      else if n = 7 then [CHR 0x5C, CHR ''a''] else if n = 8 then [CHR 0x5C, CHR ''b'']
      else if n = 12 then [CHR 0x5C, CHR ''f''] else if n = 10 then [CHR 0x5C, CHR ''n'']
      else if n = 13 then [CHR 0x5C, CHR ''r''] else if n = 9 then [CHR 0x5C, CHR ''t'']
      else if n = 11 then [CHR 0x5C, CHR ''v'']
      else if n < 32 \<or> n = 127 then [CHR 0x5C, CHR ''x'', hex_digit (n div 16), hex_digit (n mod 16)]
      else [c])"

definition Quote :: "unicode \<Rightarrow> string \<Rightarrow> string" where
  "Quote u s = (if is_ascii s then [CHR 0x22] @ concat (map quote_char s) @ [CHR 0x22]
                else u_quote u s)"

fun Sprintf :: "unicode \<Rightarrow> string \<Rightarrow> string list \<Rightarrow> string" where
  "Sprintf u (c # v # fs) (a # as) =
     (if c = CHR ''%'' then (if v = CHR ''q'' then Quote u a else a) @ Sprintf u fs as
      else c # Sprintf u (v # fs) (a # as))"
| "Sprintf u fs as = fs"

section \<open>Errors\<close>

datatype errno = ENOENT | EEXIST | ENOTDIR | ENOTEMPTY | EBUSY | EACCES | EPERM | ESRCH | EINVAL
  | EOTHER string

datatype ctx_err = Canceled | DeadlineExceeded

datatype code = OK | CodeCanceled | Unknown | NotFound | PermissionDenied | Aborted | Internal
  | Unimplemented | Unauthenticated

datatype goerr =
    New string                              \<comment> \<open>\<open>errors.New\<close>\<close>
  | Errorf string "string list" "goerr list" \<comment> \<open>\<open>fmt.Errorf\<close>: format, formatted values, \<open>%w\<close> errors\<close>
  | Join "goerr list"                       \<comment> \<open>\<open>errors.Join\<close>\<close>
  | PathError string string errno           \<comment> \<open>\<open>*fs.PathError\<close>: operation, path, cause\<close>
  | Errno errno                             \<comment> \<open>\<open>syscall.Errno\<close>\<close>
  | CtxErr ctx_err                          \<comment> \<open>\<open>ctx.Err()\<close>\<close>
  | StatusErr code string                   \<comment> \<open>\<open>status.Error(code, text)\<close>\<close>
  | EOF                                     \<comment> \<open>\<open>io.EOF\<close>\<close>
  | External string                         \<comment> \<open>an error of a package outside the sources\<close>

primrec errno_text :: "errno \<Rightarrow> string" where
  "errno_text ENOENT = ''no such file or directory''"
| "errno_text EEXIST = ''file exists''"
| "errno_text ENOTDIR = ''not a directory''"
| "errno_text ENOTEMPTY = ''directory not empty''"
| "errno_text EBUSY = ''device or resource busy''"
| "errno_text EACCES = ''permission denied''"
| "errno_text EPERM = ''operation not permitted''"
| "errno_text ESRCH = ''no such process''"
| "errno_text EINVAL = ''invalid argument''"
| "errno_text (EOTHER s) = s"

primrec ctx_text :: "ctx_err \<Rightarrow> string" where
  "ctx_text Canceled = ''context canceled''"
| "ctx_text DeadlineExceeded = ''context deadline exceeded''"

primrec code_text :: "code \<Rightarrow> string" where
  "code_text OK = ''OK''"
| "code_text CodeCanceled = ''Canceled''"
| "code_text Unknown = ''Unknown''"
| "code_text NotFound = ''NotFound''"
| "code_text PermissionDenied = ''PermissionDenied''"
| "code_text Aborted = ''Aborted''"
| "code_text Internal = ''Internal''"
| "code_text Unimplemented = ''Unimplemented''"
| "code_text Unauthenticated = ''Unauthenticated''"

fun join_lines :: "string list \<Rightarrow> string" where
  "join_lines [] = ''''"
| "join_lines [x] = x"
| "join_lines (x # xs) = x @ [CHR 0x0A] @ join_lines xs"

fun error_text :: "unicode \<Rightarrow> goerr \<Rightarrow> string" where
  "error_text u (New s) = s"
| "error_text u (Errorf f ss es) = Sprintf u f (ss @ map (error_text u) es)"
| "error_text u (Join es) = join_lines (map (error_text u) es)"
| "error_text u (PathError op p e) = op @ '' '' @ p @ '': '' @ errno_text e"
| "error_text u (Errno e) = errno_text e"
| "error_text u (CtxErr c) = ctx_text c"
| "error_text u (StatusErr c s) = ''rpc error: code = '' @ code_text c @ '' desc = '' @ s"
| "error_text u EOF = ''EOF''"
| "error_text u (External s) = s"

text \<open>
  \<open>os.IsNotExist\<close> looks at a \<open>*PathError\<close> or a bare errno, never through wrapped errors.
  \<open>errors.Is(err, os.ErrNotExist)\<close> does look through them, but the sources ask it of unwrapped
  errors of \<open>os.Stat\<close> only, where the two agree.
\<close>

fun IsNotExist :: "goerr \<Rightarrow> bool" where
  "IsNotExist (PathError op p e) = (e = ENOENT)"
| "IsNotExist (Errno e) = (e = ENOENT)"
| "IsNotExist _ = False"

section \<open>Code with effects\<close>

definition iferr :: "('w, 'e option) state \<Rightarrow> ('e \<Rightarrow> ('w, 'b) state) \<Rightarrow> ('w, 'b) state \<Rightarrow> ('w, 'b) state" where
  "iferr m bad k = do { r \<leftarrow> m; case r of Some e \<Rightarrow> bad e | None \<Rightarrow> k }"

definition unless_err :: "('w, 'e + 'a) state \<Rightarrow> ('e \<Rightarrow> ('w, 'b) state) \<Rightarrow> ('a \<Rightarrow> ('w, 'b) state) \<Rightarrow> ('w, 'b) state" where
  "unless_err m bad k = do { r \<leftarrow> m; case r of Inl e \<Rightarrow> bad e | Inr a \<Rightarrow> k a }"

lemma run_iferr [go_run]:
  "run_state (iferr m bad k) w =
     (case run_state m w of (Some e, w') \<Rightarrow> run_state (bad e) w' | (None, w') \<Rightarrow> run_state k w')"
  by (simp add: iferr_def split: prod.split option.split)

lemma run_unless_err [go_run]:
  "run_state (unless_err m bad k) w =
     (case run_state m w of (Inl e, w') \<Rightarrow> run_state (bad e) w' | (Inr a, w') \<Rightarrow> run_state (k a) w')"
  by (simp add: unless_err_def split: prod.split sum.split)

lemmas [go_run] = run_state_bind run_state_return
lemmas [go_split] = prod.splits sum.splits option.splits if_splits

text \<open>\<open>keeps P m\<close>: running \<open>m\<close> keeps the property \<open>P\<close> of the world.\<close>

definition keeps :: "('w \<Rightarrow> bool) \<Rightarrow> ('w, 'a) state \<Rightarrow> bool" where
  "keeps P m \<longleftrightarrow> (\<forall>w. P w \<longrightarrow> P (snd (run_state m w)))"

lemma keepsI: "(\<And>w. P w \<Longrightarrow> P (snd (run_state m w))) \<Longrightarrow> keeps P m"
  by (simp add: keeps_def)

lemma keepsD: "keeps P m \<Longrightarrow> P w \<Longrightarrow> run_state m w = (a, w') \<Longrightarrow> P w'"
  by (metis keeps_def snd_conv)

named_theorems keeps_intro \<open>introduction rules for \<open>keeps\<close>\<close>

lemma keeps_return [keeps_intro]: "keeps P (State_Monad.return x)"
  by (simp add: keeps_def)

lemma keeps_bind [keeps_intro]:
  "keeps P m \<Longrightarrow> (\<And>a. keeps P (f a)) \<Longrightarrow> keeps P (State_Monad.bind m f)"
  by (auto simp: keeps_def split: prod.split)

lemma keeps_iferr [keeps_intro]:
  "keeps P m \<Longrightarrow> (\<And>e. keeps P (bad e)) \<Longrightarrow> keeps P k \<Longrightarrow> keeps P (iferr m bad k)"
  unfolding iferr_def by (rule keeps_bind) (auto split: option.split)

lemma keeps_unless_err [keeps_intro]:
  "keeps P m \<Longrightarrow> (\<And>e. keeps P (bad e)) \<Longrightarrow> (\<And>a. keeps P (k a)) \<Longrightarrow> keeps P (unless_err m bad k)"
  unfolding unless_err_def by (rule keeps_bind) (auto split: sum.split)

lemma keeps_if [keeps_intro]:
  "(b \<Longrightarrow> keeps P m) \<Longrightarrow> (\<not> b \<Longrightarrow> keeps P n) \<Longrightarrow> keeps P (if b then m else n)"
  by simp

section \<open>Results of calls\<close>

text \<open>A call returns or panics; an unrecovered panic ends the process.\<close>

datatype 'a call = Returned 'a | Panicked

section \<open>Lemmas on strings\<close>

lemma HasPrefix_iff: "HasPrefix s p \<longleftrightarrow> (\<exists>t. s = p @ t)"
  unfolding HasPrefix_def by (metis append_eq_conv_conj append_take_drop_id)

lemma HasSuffix_append [simp]: "HasSuffix (s @ p) p"
  by (simp add: HasSuffix_def HasPrefix_def)

lemma TrimPrefix_append [simp]: "TrimPrefix (p @ t) p = t"
  by (simp add: TrimPrefix_def HasPrefix_def)

lemma TrimSpace_Nil [simp]: "TrimSpace [] = []"
  by (simp add: TrimSpace_def trim_front.simps)

lemma trim_front_suffix: "suffix (trim_front ps s) s"
proof (induction ps s rule: trim_front.induct)
  case (1 ps s)
  show ?case
  proof (cases "starts_with_any ps s = 0 \<or> s = []")
    case True
    then show ?thesis by (simp add: trim_front.simps [of ps s])
  next
    case False
    then show ?thesis
      by (simp add: trim_front.simps [of ps s])
        (metis "1" False suffix_drop suffix_order.trans)
  qed
qed

lemma TrimSpace_sublist: "sublist (TrimSpace s) s"
proof -
  have a: "suffix (trim_front space_runes s) s" by (rule trim_front_suffix)
  have "suffix (trim_front (map rev space_runes) (rev (trim_front space_runes s)))
          (rev (trim_front space_runes s))"
    by (rule trim_front_suffix)
  then have "prefix (TrimSpace s) (trim_front space_runes s)"
    by (simp add: TrimSpace_def suffix_to_prefix)
  with a show ?thesis
    by (meson prefix_imp_sublist suffix_imp_sublist sublist_order.order_trans)
qed

text \<open>Trimming never removes a character that is in no space rune.\<close>

lemma starts_with_any_take: "set (take (starts_with_any ps s) s) \<subseteq> \<Union> (set ` set ps)"
  by (induction ps) (auto simp: HasPrefix_def)

lemma trim_front_visible:
  "c \<in> set s \<Longrightarrow> c \<notin> \<Union> (set ` set ps) \<Longrightarrow> c \<in> set (trim_front ps s)"
proof (induction ps s rule: trim_front.induct)
  case (1 ps s)
  have "c \<notin> set (take (starts_with_any ps s) s)"
    using starts_with_any_take [of ps s] "1.prems"(2) by blast
  moreover have "set s = set (take (starts_with_any ps s) s) \<union> set (drop (starts_with_any ps s) s)"
    by (metis append_take_drop_id set_append)
  ultimately have "c \<in> set (drop (starts_with_any ps s) s)" using "1.prems"(1) by blast
  with 1 show ?case by (simp add: trim_front.simps [of ps s])
qed

lemma TrimSpace_visible:
  assumes "c \<in> set s" and "c \<notin> \<Union> (set ` set space_runes)"
  shows "TrimSpace s \<noteq> ''''"
proof -
  have "c \<in> set (rev (trim_front space_runes s))" using trim_front_visible [OF assms] by simp
  moreover have "c \<notin> \<Union> (set ` set (map rev space_runes))" using assms(2) by simp
  ultimately have "c \<in> set (trim_front (map rev space_runes) (rev (trim_front space_runes s)))"
    by (rule trim_front_visible)
  then show ?thesis unfolding TrimSpace_def by (metis list.set_cases rev_is_Nil_conv list.distinct(1))
qed

lemma visible_iff: "c \<notin> \<Union> (set ` set space_runes) \<longleftrightarrow> c \<notin> set (concat space_runes)"
  by auto

section \<open>Loops\<close>

text \<open>
  \<open>for { ... }\<close>: the body either goes on with a new state (\<open>Inl\<close>), leaves the loop with a
  result (\<open>Inr\<close>), or blocks forever (\<open>None\<close>).  A loop that never ends is \<open>None\<close>.
\<close>

partial_function (option) forever :: "('s \<Rightarrow> ('s + 'r) option) \<Rightarrow> 's \<Rightarrow> 'r option" where
  "forever body s =
     (case body s of
        None \<Rightarrow> None
      | Some (Inl s') \<Rightarrow> forever body s'
      | Some (Inr r) \<Rightarrow> Some r)"

declare forever.simps [code]

lemma forever_result:
  assumes "forever body s = Some r" and "P s"
    and step: "\<And>s s'. P s \<Longrightarrow> body s = Some (Inl s') \<Longrightarrow> P s'"
    and final: "\<And>s r. P s \<Longrightarrow> body s = Some (Inr r) \<Longrightarrow> Q r"
  shows "Q r"
proof -
  have "body = body \<longrightarrow> P s \<longrightarrow> Q r"
  proof (rule forever.raw_induct [where P = "\<lambda>b s r. b = body \<longrightarrow> P s \<longrightarrow> Q r", OF _ assms(1)], intro impI)
    fix f b s r
    assume IH: "\<And>b s r. f b s = Some r \<Longrightarrow> b = body \<longrightarrow> P s \<longrightarrow> Q r"
      and eq: "(case b s of None \<Rightarrow> None | Some (Inl s') \<Rightarrow> f b s' | Some (Inr r) \<Rightarrow> Some r) = Some r"
      and b: "b = body" and p: "P s"
    from eq b consider s' where "body s = Some (Inl s')" "f b s' = Some r" | "body s = Some (Inr r)"
      by (auto split: option.splits sum.splits)
    then show "Q r"
    proof cases
      case 1
      with step [OF p 1(1)] IH b show ?thesis by blast
    next
      case 2
      then show ?thesis using final [OF p] by blast
    qed
  qed
  with assms(2) show ?thesis by simp
qed

lemma forever_diverges:
  assumes "P s" and "\<And>s. P s \<Longrightarrow> body s = None \<or> (\<exists>s'. body s = Some (Inl s') \<and> P s')"
  shows "forever body s = None"
proof (rule ccontr)
  assume "forever body s \<noteq> None"
  then obtain r where "forever body s = Some r" by auto
  then have False
    by (rule forever_result [where P = P and Q = "\<lambda>r. False"]) (use assms in fastforce)+
  then show False .
qed

lemma forever_steps: "body s = Some (Inl s') \<Longrightarrow> forever body s = forever body s'"
  by (simp add: forever.simps [of body s])

lemma forever_stops: "body s = Some (Inr r) \<Longrightarrow> forever body s = Some r"
  by (simp add: forever.simps [of body s])

lemma forever_blocks: "body s = None \<Longrightarrow> forever body s = None"
  by (simp add: forever.simps [of body s])

end
