(* ===== verification/Job.thy ===== *)
theory Job
  imports GoBase
begin

text \<open>
  \<open>jobslib/job.go\<close>: the state of a job and the record the library keeps about it.  Times are the
  \<open>int64\<close> milliseconds of the code and are only stored and compared; the process identifier keeps
  its width of 32 bits.
\<close>

datatype JobState = Unspecified | Running | TerminatedByAPI | Completed

primrec JobState_num :: "JobState \<Rightarrow> nat" where
  "JobState_num Unspecified = 0"
| "JobState_num Running = 1"
| "JobState_num TerminatedByAPI = 2"
| "JobState_num Completed = 3"

definition JobState_String :: "JobState \<Rightarrow> string" where
  "JobState_String s = [''Unspecified'', ''Running'', ''TerminatedByAPI'', ''Completed''] ! JobState_num s"

record Job =
  ID :: string
  Mesg :: string
  ClientName :: string
  PID :: "32 word"
  JState :: JobState
  ExitCode :: int
  SignalStr :: string
  Command :: string
  CmdArgs :: "string list"
  StartedUnixMilli :: int
  EndedUnixMilli :: int
  OutputFilePath :: string

text \<open>The zero value \<open>Job{}\<close>.\<close>

definition zero_Job :: Job where
  "zero_Job = \<lparr>ID = '''', Mesg = '''', ClientName = '''', PID = 0, JState = Unspecified, ExitCode = 0,
     SignalStr = '''', Command = '''', CmdArgs = [], StartedUnixMilli = 0, EndedUnixMilli = 0,
     OutputFilePath = ''''\<rparr>"

text \<open>
  \<open>theJob.State == TerminatedByAPI || theJob.State == Completed\<close>, the test \<open>Stop\<close> makes; the
  stream handler makes the same test on the rendered names.
\<close>

definition job_ended :: "Job \<Rightarrow> bool" where
  "job_ended j \<longleftrightarrow> JState j = TerminatedByAPI \<or> JState j = Completed"

lemma JobState_String_simps [simp]:
  "JobState_String Unspecified = ''Unspecified''" "JobState_String Running = ''Running''"
  "JobState_String TerminatedByAPI = ''TerminatedByAPI''" "JobState_String Completed = ''Completed''"
  by (simp_all add: JobState_String_def)

lemma JobState_String_inject: "JobState_String s = JobState_String t \<longleftrightarrow> s = t"
  by (cases s; cases t) simp_all

lemma JobState_String_ended:
  "JobState_String (JState j) \<in> {''TerminatedByAPI'', ''Completed''} \<longleftrightarrow> job_ended j"
  by (cases "JState j") (simp_all add: job_ended_def)

instantiation JobState :: linorder
begin

definition less_eq_JobState :: "JobState \<Rightarrow> JobState \<Rightarrow> bool" where
  "s \<le> t \<longleftrightarrow> JobState_num s \<le> JobState_num t"

definition less_JobState :: "JobState \<Rightarrow> JobState \<Rightarrow> bool" where
  "s < t \<longleftrightarrow> JobState_num s < JobState_num t"

instance
proof
  fix s t u :: JobState
  show "s < t \<longleftrightarrow> s \<le> t \<and> \<not> t \<le> s"
    by (auto simp: less_eq_JobState_def less_JobState_def)
  show "s \<le> s" by (simp add: less_eq_JobState_def)
  show "s \<le> t \<Longrightarrow> t \<le> u \<Longrightarrow> s \<le> u" by (simp add: less_eq_JobState_def)
  show "s \<le> t \<Longrightarrow> t \<le> s \<Longrightarrow> s = t"
    by (cases s; cases t) (simp_all add: less_eq_JobState_def)
  show "s \<le> t \<or> t \<le> s" by (auto simp: less_eq_JobState_def)
qed

end

end
