(* ===== verification/GoPath.thy ===== *)
theory GoPath
  imports GoBase
begin

text \<open>
  The lexical path functions of Go's \<open>path/filepath\<close> on Unix, \<open>Clean\<close> and \<open>Join\<close>, and the facts
  about them that the cgroup paths rest on: joining plain names to an absolute path appends them
  (\<open>Join_abspath\<close>), and a path of plain names determines its names (\<open>abspath_inject\<close>).
\<close>

section \<open>Clean and Join\<close>

fun split_slash :: "string \<Rightarrow> string list" where
  "split_slash [] = [[]]"
| "split_slash (c # cs) =
     (if c = CHR ''/'' then [] # split_slash cs
      else (case split_slash cs of [] \<Rightarrow> [[c]] | d # ds \<Rightarrow> (c # d) # ds))"

fun join_slash :: "string list \<Rightarrow> string" where
  "join_slash [] = []"
| "join_slash [x] = x"
| "join_slash (x # y # ys) = x @ [CHR ''/''] @ join_slash (y # ys)"

text \<open>One path element: the accumulator holds the cleaned elements, the last one first.\<close>

definition clean_elem :: "bool \<Rightarrow> string \<Rightarrow> string list \<Rightarrow> string list" where
  "clean_elem rooted c acc =
     (if c = '''' \<or> c = ''.'' then acc
      else if c = ''..'' then
        (case acc of
           [] \<Rightarrow> (if rooted then [] else [''..''])
         | d # ds \<Rightarrow> (if d = ''..'' then ''..'' # acc else ds))
      else c # acc)"

definition Clean :: "string \<Rightarrow> string" where
  "Clean p =
     (if p = '''' then ''.''
      else
        let rooted = (hd p = CHR ''/'');
            out = join_slash (rev (fold (clean_elem rooted) (split_slash p) []))
        in if rooted then CHR ''/'' # out else if out = '''' then ''.'' else out)"

fun filepath_Join :: "string list \<Rightarrow> string" where
  "filepath_Join [] = ''''"
| "filepath_Join (e # es) = (if e \<noteq> '''' then Clean (join_slash (e # es)) else filepath_Join es)"

text \<open>\<open>filepath.Base\<close>: the last element of a path, trailing slashes removed.\<close>

definition filepath_Base :: "string \<Rightarrow> string" where
  "filepath_Base path =
     (if path = '''' then ''.''
      else
        let base = rev (takeWhile (\<lambda>c. c \<noteq> CHR ''/'') (dropWhile (\<lambda>c. c = CHR ''/'') (rev path)))
        in if base = '''' then ''/'' else base)"

section \<open>Absolute paths of plain names\<close>

definition plain_name :: "string \<Rightarrow> bool" where
  "plain_name c \<longleftrightarrow> c \<noteq> '''' \<and> CHR ''/'' \<notin> set c \<and> c \<noteq> ''.'' \<and> c \<noteq> ''..''"

definition abspath :: "string list \<Rightarrow> string" where
  "abspath cs = concat (map (\<lambda>c. CHR ''/'' # c) cs)"

lemma abspath_simps [simp]:
  "abspath [] = []" "abspath (c # cs) = CHR ''/'' # c @ abspath cs"
  "abspath (cs @ ds) = abspath cs @ abspath ds"
  by (simp_all add: abspath_def)

lemma abspath_eq_Nil [simp]: "abspath cs = [] \<longleftrightarrow> cs = []"
  by (cases cs) simp_all

lemma split_slash_nonempty [simp]: "split_slash s \<noteq> []"
  by (induction s) (auto split: list.split)

lemma split_slash_name: "CHR ''/'' \<notin> set c \<Longrightarrow> split_slash c = [c]"
  by (induction c) auto

lemma split_slash_append:
  "CHR ''/'' \<notin> set c \<Longrightarrow> split_slash (c @ CHR ''/'' # s) = c # split_slash s"
  by (induction c) auto

lemma split_slash_app_abspath:
  "CHR ''/'' \<notin> set c \<Longrightarrow> \<forall>d \<in> set cs. CHR ''/'' \<notin> set d \<Longrightarrow> split_slash (c @ abspath cs) = c # cs"
  by (induction cs arbitrary: c) (simp_all add: split_slash_name split_slash_append)

lemma split_slash_abspath:
  "\<forall>d \<in> set cs. CHR ''/'' \<notin> set d \<Longrightarrow> split_slash (abspath cs) = [] # cs"
  using split_slash_app_abspath [of "[]" cs] by simp

lemma Base_append:
  assumes "plain_name c"
  shows "filepath_Base (d @ CHR ''/'' # c) = c"
proof -
  have c: "c \<noteq> ''''" "\<forall>x \<in> set (rev c). x \<noteq> CHR ''/''" using assms by (auto simp: plain_name_def)
  then have "dropWhile (\<lambda>x. x = CHR ''/'') (rev c @ CHR ''/'' # rev d) = rev c @ CHR ''/'' # rev d"
    by (cases "rev c") simp_all
  moreover have "takeWhile (\<lambda>x. x \<noteq> CHR ''/'') (rev c @ CHR ''/'' # rev d) = rev c"
    using c(2) by (subst takeWhile_append2) auto
  ultimately show ?thesis using c by (simp add: filepath_Base_def)
qed

lemma abspath_inject:
  assumes "\<forall>d \<in> set cs. plain_name d" and "\<forall>d \<in> set ds. plain_name d"
  shows "abspath cs = abspath ds \<longleftrightarrow> cs = ds"
proof
  assume "abspath cs = abspath ds"
  then have "split_slash (abspath cs) = split_slash (abspath ds)" by simp
  with assms show "cs = ds" by (simp add: split_slash_abspath plain_name_def)
qed simp

lemma clean_elem_plain [simp]: "plain_name c \<Longrightarrow> clean_elem r c acc = c # acc"
  by (auto simp: clean_elem_def plain_name_def)

lemma clean_elem_empty [simp]: "clean_elem r [] acc = acc"
  by (simp add: clean_elem_def)

lemma fold_clean_plain:
  "\<forall>d \<in> set cs. plain_name d \<Longrightarrow> fold (clean_elem r) cs acc = rev cs @ acc"
  by (induction cs arbitrary: acc) simp_all

lemma join_slash_abspath: "cs \<noteq> [] \<Longrightarrow> CHR ''/'' # join_slash cs = abspath cs"
  by (induction cs rule: join_slash.induct) simp_all

lemma join_slash_abspath_Cons: "cs \<noteq> [] \<Longrightarrow> join_slash (abspath cs # ds) = abspath (cs @ ds)"
proof (induction ds arbitrary: cs)
  case Nil
  then show ?case by simp
next
  case (Cons d ds)
  have "join_slash (abspath cs # d # ds) = abspath cs @ CHR ''/'' # join_slash (d # ds)" by simp
  also have "CHR ''/'' # join_slash (d # ds) = abspath (d # ds)"
    by (rule join_slash_abspath) simp
  finally show ?case by (simp add: abspath_def)
qed

lemma Clean_abspath:
  assumes "cs \<noteq> []" and "\<forall>d \<in> set cs. plain_name d"
  shows "Clean (abspath cs) = abspath cs"
proof -
  have "hd (abspath cs) = CHR ''/''" using assms(1) by (cases cs) simp_all
  moreover have "fold (clean_elem True) (split_slash (abspath cs)) [] = rev cs"
    using assms by (simp add: split_slash_abspath fold_clean_plain plain_name_def)
  ultimately show ?thesis using assms(1) by (simp add: Clean_def join_slash_abspath)
qed

lemma Join_abspath:
  assumes "cs \<noteq> []" and "\<forall>d \<in> set (cs @ ds). plain_name d"
  shows "filepath_Join (abspath cs # ds) = abspath (cs @ ds)"
proof -
  have "filepath_Join (abspath cs # ds) = Clean (abspath (cs @ ds))"
    using assms(1) join_slash_abspath_Cons [of cs ds] by simp
  then show ?thesis using assms Clean_abspath [of "cs @ ds"] by simp
qed

declare filepath_Join.simps [simp del]

end
