(* ===== verification/Kernel.thy ===== *)
theory Kernel
  imports GoPath
begin

text \<open>
  The operating system as the job library sees it.  The kernel, the KSUID generator and the RPC
  contexts are not part of the sources: they are the parameter \<open>os\<close>, a record with one operation
  per call the library makes, over a type of worlds \<open>'w\<close> nothing is assumed about.  Every
  operation may fail in any world and may change the world, so the error branches of the code are
  all reachable, and the steps other processes take between two calls are part of the operations.

  Properties that need the kernel to behave name what they need: \<open>call_ok\<close> and \<open>gone_after\<close> below
  and the laws stated with the theorems.  Theory \<open>MemKernel\<close> has a concrete system at which witnesses
  are evaluated.
\<close>

section \<open>The interface\<close>

datatype wait_status = Exited int | Signaled int

datatype wait_result =
    WaitOk                    \<comment> \<open>\<open>cmd.Wait()\<close> returned nil: the process exited with status 0\<close>
  | WaitExit wait_status      \<comment> \<open>an \<open>*exec.ExitError\<close>\<close>
  | WaitFail goerr            \<comment> \<open>any other error\<close>

record 'w os =
  os_unicode :: unicode
  ctx_err_of :: "nat \<Rightarrow> ('w, ctx_err option) state"             \<comment> \<open>\<open>ctx.Err()\<close>\<close>
  os_Stat :: "string \<Rightarrow> ('w, goerr + bool) state"                \<comment> \<open>is it a directory?\<close>
  os_Mkdir :: "string \<Rightarrow> ('w, goerr option) state"
  os_MkdirAll :: "string \<Rightarrow> ('w, goerr option) state"
  os_WriteFile :: "string \<Rightarrow> string \<Rightarrow> ('w, goerr option) state"
  os_Remove :: "string \<Rightarrow> ('w, goerr option) state"
  sys_Rmdir :: "string \<Rightarrow> ('w, goerr option) state"
  os_ReadDir :: "string \<Rightarrow> ('w, goerr + (string \<times> bool) list) state"
  sys_OpenDir :: "string \<Rightarrow> ('w, goerr + int) state"
  sys_Close :: "int \<Rightarrow> ('w, unit) state"
  os_Create :: "string \<Rightarrow> ('w, goerr + int) state"
  file_Close :: "int \<Rightarrow> ('w, unit) state"
  cmd_Start :: "string \<Rightarrow> string list \<Rightarrow> int \<Rightarrow> int \<Rightarrow> ('w, goerr + int) state"
  cmd_Wait :: "int \<Rightarrow> ('w, wait_result) state"
  sig_probe :: "int \<Rightarrow> ('w, goerr option) state"                  \<comment> \<open>\<open>p.Signal(syscall.Signal(0))\<close>\<close>
  sleep_ms :: "nat \<Rightarrow> ('w, unit) state"
  now_UnixMilli :: "('w, int) state"
  ksuid_NewRandom :: "('w, goerr + string) state"

text \<open>
  The same system as part of a larger state, through a reading and a writing function.
\<close>

definition lift_st :: "('s \<Rightarrow> 'w) \<Rightarrow> ('w \<Rightarrow> 's \<Rightarrow> 's) \<Rightarrow> ('w, 'a) state \<Rightarrow> ('s, 'a) state" where
  "lift_st get put m = State (\<lambda>s. case run_state m (get s) of (a, w') \<Rightarrow> (a, put w' s))"

definition lift_os :: "('s \<Rightarrow> 'w) \<Rightarrow> ('w \<Rightarrow> 's \<Rightarrow> 's) \<Rightarrow> 'w os \<Rightarrow> 's os" where
  "lift_os get put os =
     \<lparr>os_unicode = os_unicode os,
       ctx_err_of = (\<lambda>c. lift_st get put (ctx_err_of os c)),
       os_Stat = (\<lambda>p. lift_st get put (os_Stat os p)),
       os_Mkdir = (\<lambda>p. lift_st get put (os_Mkdir os p)),
       os_MkdirAll = (\<lambda>p. lift_st get put (os_MkdirAll os p)),
       os_WriteFile = (\<lambda>p d. lift_st get put (os_WriteFile os p d)),
       os_Remove = (\<lambda>p. lift_st get put (os_Remove os p)),
       sys_Rmdir = (\<lambda>p. lift_st get put (sys_Rmdir os p)),
       os_ReadDir = (\<lambda>p. lift_st get put (os_ReadDir os p)),
       sys_OpenDir = (\<lambda>p. lift_st get put (sys_OpenDir os p)),
       sys_Close = (\<lambda>fd. lift_st get put (sys_Close os fd)),
       os_Create = (\<lambda>p. lift_st get put (os_Create os p)),
       file_Close = (\<lambda>fd. lift_st get put (file_Close os fd)),
       cmd_Start = (\<lambda>cmd args cg out. lift_st get put (cmd_Start os cmd args cg out)),
       cmd_Wait = (\<lambda>pid. lift_st get put (cmd_Wait os pid)),
       sig_probe = (\<lambda>pid. lift_st get put (sig_probe os pid)),
       sleep_ms = (\<lambda>n. lift_st get put (sleep_ms os n)),
       now_UnixMilli = lift_st get put (now_UnixMilli os),
       ksuid_NewRandom = lift_st get put (ksuid_NewRandom os)\<rparr>"

lemma run_lift_st [go_run]:
  "run_state (lift_st get put m) s = (case run_state m (get s) of (a, w') \<Rightarrow> (a, put w' s))"
  by (simp add: lift_st_def)

text \<open>\<open>syscall.Signal.String()\<close> on Linux.\<close>

definition signal_names :: "string list" where
  "signal_names = [''hangup'', ''interrupt'', ''quit'', ''illegal instruction'',
     ''trace/breakpoint trap'', ''aborted'', ''bus error'', ''floating point exception'',
     ''killed'', ''user defined signal 1'', ''segmentation fault'', ''user defined signal 2'',
     ''broken pipe'', ''alarm clock'', ''terminated'']"

definition signal_String :: "int \<Rightarrow> string" where
  "signal_String n =
     (if 1 \<le> n \<and> n \<le> 15 then signal_names ! nat (n - 1) else ''signal '' @ Itoa n)"

lemma signal_String_kill: "signal_String 9 = ''killed''"
  by (simp add: signal_String_def signal_names_def)

section \<open>What properties assume of it\<close>

text \<open>
  \<open>call_ok P m\<close>: from every world with \<open>P\<close> the call \<open>m\<close> succeeds and keeps \<open>P\<close>.
\<close>

definition call_ok :: "('w \<Rightarrow> bool) \<Rightarrow> ('w, goerr option) state \<Rightarrow> bool" where
  "call_ok P m \<longleftrightarrow> (\<forall>w. P w \<longrightarrow> fst (run_state m w) = None \<and> P (snd (run_state m w)))"

lemma call_okD: "call_ok P m \<Longrightarrow> P w \<Longrightarrow> \<exists>w'. run_state m w = (None, w') \<and> P w'"
  unfolding call_ok_def by (metis prod.collapse)

text \<open>
  \<open>gone_after os pid n w\<close>: polling the process with signal 0, with the library's 10 ms sleep in
  between, finds it gone at the latest at probe \<open>n\<close> (counted from 0).
\<close>

fun gone_after :: "'w os \<Rightarrow> int \<Rightarrow> nat \<Rightarrow> 'w \<Rightarrow> bool" where
  "gone_after os pid n w =
     (case run_state (sig_probe os pid) w of
        (Some e, w') \<Rightarrow> True
      | (None, w') \<Rightarrow>
          (case n of 0 \<Rightarrow> False | Suc m \<Rightarrow> gone_after os pid m (snd (run_state (sleep_ms os 10) w'))))"

declare gone_after.simps [simp del]

section \<open>Laws of the kernel\<close>

text \<open>
  The documented behaviour properties rely on, as locales over an observation of the world: the
  set of directories, the data last written to a file, the cgroup a live process belongs to.
\<close>

locale dir_kernel =
  fixes os :: "'w os" and dirs :: "'w \<Rightarrow> string set"
  assumes write_dirs: "run_state (os_WriteFile os p d) w = (e, w') \<Longrightarrow> dirs w' = dirs w"
    and stat_dirs: "run_state (os_Stat os p) w = (r, w') \<Longrightarrow> dirs w' = dirs w"
    and readdir_dirs: "run_state (os_ReadDir os p) w = (es, w') \<Longrightarrow> dirs w' = dirs w"
    and stat_dir: "run_state (os_Stat os p) w = (Inr True, w') \<Longrightarrow> p \<in> dirs w"
    and stat_missing: "run_state (os_Stat os p) w = (Inl err, w') \<Longrightarrow> IsNotExist err \<Longrightarrow> p \<notin> dirs w"
    and rmdir_ok: "run_state (sys_Rmdir os p) w = (None, w') \<Longrightarrow> dirs w' = dirs w - {p}"
    and rmdir_bad: "run_state (sys_Rmdir os p) w = (Some err, w') \<Longrightarrow> dirs w' = dirs w"
    and mkdir_ok: "run_state (os_Mkdir os p) w = (None, w') \<Longrightarrow> p \<notin> dirs w \<and> dirs w' = insert p (dirs w)"
    and mkdir_bad: "run_state (os_Mkdir os p) w = (Some err, w') \<Longrightarrow> dirs w' = dirs w"
    and mkdirall_ok: "run_state (os_MkdirAll os p) w = (None, w') \<Longrightarrow> insert p (dirs w) \<subseteq> dirs w'"
    and mkdirall_bad: "run_state (os_MkdirAll os p) w = (Some err, w') \<Longrightarrow> dirs w \<subseteq> dirs w'"

context dir_kernel
begin

lemma stat_facts:
  assumes "run_state (os_Stat os p) w = (r, w')"
  shows "dirs w' = dirs w \<and> (r = Inr True \<longrightarrow> p \<in> dirs w) \<and>
    (\<forall>err. r = Inl err \<longrightarrow> IsNotExist err \<longrightarrow> p \<notin> dirs w)"
  using assms stat_dirs stat_dir stat_missing by blast

lemma rmdir_facts:
  assumes "run_state (sys_Rmdir os p) w = (r, w')"
  shows "dirs w' = (if r = None then dirs w - {p} else dirs w)"
  using assms rmdir_ok rmdir_bad by (cases r) auto

end

locale file_kernel = dir_kernel os dirs for os :: "'w os" and dirs :: "'w \<Rightarrow> string set" +
  fixes files :: "'w \<Rightarrow> string \<rightharpoonup> string"
  assumes write_ok: "run_state (os_WriteFile os p d) w = (None, w') \<Longrightarrow> \<not> HasSuffix p ''/cgroup.kill''
      \<Longrightarrow> files w' = (files w)(p \<mapsto> d)"
    and stat_files: "run_state (os_Stat os p) w = (r, w') \<Longrightarrow> files w' = files w"
    and mkdirall_files: "run_state (os_MkdirAll os p) w = (e, w') \<Longrightarrow> files w' = files w"

text \<open>A missing directory makes the calls below it fail with \<open>ENOENT\<close>.\<close>

locale strict_kernel = file_kernel os dirs files
  for os :: "'w os" and dirs :: "'w \<Rightarrow> string set" and files :: "'w \<Rightarrow> string \<rightharpoonup> string" +
  assumes write_missing: "d \<notin> dirs w \<Longrightarrow> CHR ''/'' \<notin> set f
      \<Longrightarrow> \<exists>e w'. run_state (os_WriteFile os (d @ ''/'' @ f) x) w = (Some e, w') \<and> IsNotExist e
            \<and> files w' = files w"
    and stat_nothing: "p \<notin> dirs w \<Longrightarrow> files w p = None
      \<Longrightarrow> \<exists>e w'. run_state (os_Stat os p) w = (Inl e, w') \<and> IsNotExist e"

text \<open>
  The remaining calls of \<open>Start\<close> do not touch cgroup directories; a KSUID is 27 base-62 digits, so
  it is a plain file name.
\<close>

locale start_kernel = dir_kernel os dirs for os :: "'w os" and dirs :: "'w \<Rightarrow> string set" +
  assumes open_dirs: "run_state (sys_OpenDir os p) w = (fd, w') \<Longrightarrow> dirs w' = dirs w"
    and close_dirs: "run_state (sys_Close os n) w = (u, w') \<Longrightarrow> dirs w' = dirs w"
    and create_dirs: "run_state (os_Create os p) w = (fd, w') \<Longrightarrow> dirs w' = dirs w"
    and fclose_dirs: "run_state (file_Close os n) w = (u, w') \<Longrightarrow> dirs w' = dirs w"
    and now_dirs: "run_state (now_UnixMilli os) w = (t, w') \<Longrightarrow> dirs w' = dirs w"
    and exec_dirs: "run_state (cmd_Start os cmd args g f) w = (pid, w') \<Longrightarrow> dirs w' = dirs w"
    and ctx_dirs: "run_state (ctx_err_of os cx) w = (c, w') \<Longrightarrow> dirs w' = dirs w"
    and ksuid_dirs: "run_state (ksuid_NewRandom os) w = (k, w') \<Longrightarrow> dirs w' = dirs w"
    and ksuid_plain: "run_state (ksuid_NewRandom os) w = (Inr i, w') \<Longrightarrow> plain_name i"
    and remove_dirs: "run_state (os_Remove os p) w = (r, w') \<Longrightarrow> dirs w - {p} \<subseteq> dirs w'"

text \<open>
  Killing is asynchronous: after 1 was written to \<open>cgroup.kill\<close> of its cgroup, a process is gone
  after some number of probes.
\<close>

locale kill_kernel =
  fixes os :: "'w os" and cgroup_of :: "'w \<Rightarrow> int \<rightharpoonup> string"
  assumes kill_ok: "run_state (os_WriteFile os (d @ ''/cgroup.kill'') ''1'') w = (None, w')
      \<Longrightarrow> cgroup_of w pid = Some d \<Longrightarrow> \<exists>n. gone_after os pid n w'"

end
