(* ===== verification/MemKernel.thy ===== *)
theory MemKernel
  imports Kernel
begin

text \<open>
  A concrete, executable system: a world of directories, file contents and processes, with the
  documented behaviour of cgroup-v2 that the job library uses (writing 1 to \<open>cgroup.kill\<close> kills the
  processes of that cgroup and of the cgroups below it; a cgroup directory can be removed when it
  has no processes and no child cgroups, although it has interface files).  No definition of the
  program depends on it; the witnesses of properties about the kernel's behaviour are evaluated
  at it, and \<open>mem_*\<close> shows that the laws those properties assume can hold.
\<close>

record memw =
  m_dirs :: "string list"
  m_files :: "(string \<times> string) list"
  m_procs :: "(int \<times> string) list"
  m_fds :: "(int \<times> string) list"
  m_next :: int
  m_deny :: "string list"   \<comment> \<open>paths every call on which is refused\<close>

definition dirname :: "string \<Rightarrow> string" where
  "dirname p = rev (tl (dropWhile (\<lambda>c. c \<noteq> CHR ''/'') (rev p)))"

definition basename :: "string \<Rightarrow> string" where
  "basename p = rev (takeWhile (\<lambda>c. c \<noteq> CHR ''/'') (rev p))"

definition below :: "string \<Rightarrow> string \<Rightarrow> bool" where
  "below d p \<longleftrightarrow> p = d \<or> HasPrefix p (d @ ''/'')"

definition mem_mkdir :: "string \<Rightarrow> memw \<Rightarrow> goerr option \<times> memw" where
  "mem_mkdir p w =
     (if p \<in> set (m_deny w) then (Some (PathError ''mkdir'' p EACCES), w)
      else if p \<in> set (m_dirs w) then (Some (PathError ''mkdir'' p EEXIST), w)
      else if dirname p \<notin> set (m_dirs w) then (Some (PathError ''mkdir'' p ENOENT), w)
      else (None, w\<lparr>m_dirs := p # m_dirs w\<rparr>))"

definition mem_mkdirall :: "string \<Rightarrow> memw \<Rightarrow> goerr option \<times> memw" where
  "mem_mkdirall p w =
     (if p \<in> set (m_dirs w) then (None, w) else mem_mkdir p w)"

definition mem_write :: "string \<Rightarrow> string \<Rightarrow> memw \<Rightarrow> goerr option \<times> memw" where
  "mem_write p d w =
     (if dirname p \<notin> set (m_dirs w) then (Some (PathError ''open'' p ENOENT), w)
      else if p \<in> set (m_deny w) then (Some (PathError ''open'' p EACCES), w)
      else if HasSuffix p ''/cgroup.kill''
      then (None, w\<lparr>m_procs := filter (\<lambda>(q, g). case map_of (m_procs w) q of
              None \<Rightarrow> True | Some h \<Rightarrow> \<not> below (dirname p) h) (m_procs w)\<rparr>)
      else (None, w\<lparr>m_files := (p, d) # filter (\<lambda>(q, x). q \<noteq> p) (m_files w)\<rparr>))"

definition mem_rmdir :: "string \<Rightarrow> memw \<Rightarrow> goerr option \<times> memw" where
  "mem_rmdir p w =
     (if p \<in> set (m_deny w) then (Some (Errno EACCES), w)
      else if p \<notin> set (m_dirs w) then (Some (Errno ENOENT), w)
      else if list_ex (\<lambda>(q, g). g = p) (m_procs w) \<or> list_ex (\<lambda>d. dirname d = p) (m_dirs w)
      then (Some (Errno EBUSY), w)
      else (None, w\<lparr>m_dirs := filter (\<lambda>d. d \<noteq> p) (m_dirs w),
                     m_files := filter (\<lambda>(q, x). dirname q \<noteq> p) (m_files w)\<rparr>))"

definition mem_stat :: "string \<Rightarrow> memw \<Rightarrow> (goerr + bool) \<times> memw" where
  "mem_stat p w =
     (if p \<in> set (m_dirs w) then Inr True
      else if p \<in> set (map fst (m_files w)) then Inr False
      else Inl (PathError ''stat'' p ENOENT), w)"

definition mem_readdir :: "string \<Rightarrow> memw \<Rightarrow> (goerr + (string \<times> bool) list) \<times> memw" where
  "mem_readdir p w =
     (if p \<notin> set (m_dirs w) then (Inl (PathError ''open'' p ENOENT), w)
      else (Inr (map (\<lambda>d. (basename d, True)) (filter (\<lambda>d. dirname d = p) (m_dirs w)) @
                 map (\<lambda>(f, x). (basename f, False)) (filter (\<lambda>(f, x). dirname f = p) (m_files w))), w))"

definition mem_open :: "string \<Rightarrow> memw \<Rightarrow> (goerr + int) \<times> memw" where
  "mem_open p w =
     (if p \<in> set (m_deny w) then (Inl (PathError ''open'' p EACCES), w)
      else (Inr (m_next w), w\<lparr>m_next := m_next w + 1, m_fds := (m_next w, p) # m_fds w\<rparr>))"

definition mem_create :: "string \<Rightarrow> memw \<Rightarrow> (goerr + int) \<times> memw" where
  "mem_create p w =
     (case mem_write p [] w of
        (Some e, w') \<Rightarrow> (Inl e, w')
      | (None, w') \<Rightarrow> mem_open p w')"

definition mem_remove :: "string \<Rightarrow> memw \<Rightarrow> goerr option \<times> memw" where
  "mem_remove p w =
     (if p \<in> set (map fst (m_files w))
      then (None, w\<lparr>m_files := filter (\<lambda>(q, x). q \<noteq> p) (m_files w)\<rparr>)
      else mem_rmdir p w)"

definition mem_start :: "string \<Rightarrow> int \<Rightarrow> memw \<Rightarrow> (goerr + int) \<times> memw" where
  "mem_start cmd cg w =
     (if cmd \<in> set (m_deny w) then (Inl (PathError ''fork/exec'' cmd ENOENT), w)
      else (case map_of (m_fds w) cg of
              None \<Rightarrow> (Inl (PathError ''fork/exec'' cmd EINVAL), w)
            | Some d \<Rightarrow> (Inr (m_next w), w\<lparr>m_next := m_next w + 1,
                                          m_procs := (m_next w, d) # m_procs w\<rparr>)))"

definition mem_probe :: "int \<Rightarrow> memw \<Rightarrow> goerr option \<times> memw" where
  "mem_probe pid w = (if pid \<in> set (map fst (m_procs w)) then None else Some (Errno ESRCH), w)"

definition mem_unicode :: unicode where
  "mem_unicode = \<lparr>u_lower = (\<lambda>s. s), u_upper = (\<lambda>s. s), u_quote = (\<lambda>s. s)\<rparr>"

definition mem_os :: "memw os" where
  "mem_os = \<lparr>
     os_unicode = mem_unicode,
     ctx_err_of = (\<lambda>c. State_Monad.return None),
     os_Stat = (\<lambda>p. State (mem_stat p)),
     os_Mkdir = (\<lambda>p. State (mem_mkdir p)),
     os_MkdirAll = (\<lambda>p. State (mem_mkdirall p)),
     os_WriteFile = (\<lambda>p d. State (mem_write p d)),
     os_Remove = (\<lambda>p. State (mem_remove p)),
     sys_Rmdir = (\<lambda>p. State (mem_rmdir p)),
     os_ReadDir = (\<lambda>p. State (mem_readdir p)),
     sys_OpenDir = (\<lambda>p. State (mem_open p)),
     sys_Close = (\<lambda>fd. State_Monad.return ()),
     os_Create = (\<lambda>p. State (mem_create p)),
     file_Close = (\<lambda>fd. State_Monad.return ()),
     cmd_Start = (\<lambda>cmd args cg out. State (mem_start cmd cg)),
     cmd_Wait = (\<lambda>pid. State_Monad.return (WaitExit (Signaled 9))),
     sig_probe = (\<lambda>pid. State (mem_probe pid)),
     sleep_ms = (\<lambda>n. State_Monad.return ()),
     now_UnixMilli = State (\<lambda>w. (m_next w, w)),
     ksuid_NewRandom = State (\<lambda>w. (Inr (''job'' @ Itoa (m_next w)), w\<lparr>m_next := m_next w + 1\<rparr>))\<rparr>"

text \<open>The machine as it boots: the mount point of cgroup-v2 and a temporary directory.\<close>

definition mem_boot :: memw where
  "mem_boot = \<lparr>m_dirs = [''/sys/fs/cgroup'', ''/tmp''], m_files = [], m_procs = [], m_fds = [],
     m_next = 100, m_deny = []\<rparr>"

lemma mem_os_run [go_run]:
  "run_state (ctx_err_of mem_os c) w = (None, w)"
  "run_state (os_Stat mem_os p) w = mem_stat p w"
  "run_state (os_Mkdir mem_os p) w = mem_mkdir p w"
  "run_state (os_MkdirAll mem_os p) w = mem_mkdirall p w"
  "run_state (os_WriteFile mem_os p d) w = mem_write p d w"
  "run_state (os_Remove mem_os p) w = mem_remove p w"
  "run_state (sys_Rmdir mem_os p) w = mem_rmdir p w"
  "run_state (os_ReadDir mem_os p) w = mem_readdir p w"
  "run_state (sys_OpenDir mem_os p) w = mem_open p w"
  "run_state (os_Create mem_os p) w = mem_create p w"
  "run_state (cmd_Start mem_os cmd args g f) w = mem_start cmd g w"
  "run_state (sig_probe mem_os pid) w = mem_probe pid w"
  "run_state (sleep_ms mem_os n) w = ((), w)"
  "run_state (sys_Close mem_os fd) w = ((), w)"
  "run_state (file_Close mem_os fd) w = ((), w)"
  "os_unicode mem_os = mem_unicode"
  by (simp_all add: mem_os_def)

section \<open>The kernel laws hold of it\<close>

lemma map_of_filter_other: "map_of (filter (\<lambda>(q, x). q \<noteq> p) xs) r = (if r = p then None else map_of xs r)"
  by (induction xs) auto

interpretation mem: dir_kernel mem_os "\<lambda>w. set (m_dirs w)"
  by unfold_locales
    (auto simp: mem_os_run mem_stat_def mem_write_def mem_readdir_def mem_rmdir_def mem_mkdir_def
       mem_mkdirall_def Let_def split: if_splits)

lemma dirname_append: "CHR ''/'' \<notin> set f \<Longrightarrow> dirname (d @ CHR ''/'' # f) = d"
proof -
  assume "CHR ''/'' \<notin> set f"
  then have "dropWhile (\<lambda>c. c \<noteq> CHR ''/'') (rev f @ CHR ''/'' # rev d) = CHR ''/'' # rev d"
    by (subst dropWhile_append2) auto
  then show ?thesis by (simp add: dirname_def)
qed

interpretation mem: strict_kernel mem_os "\<lambda>w. set (m_dirs w)" "\<lambda>w. map_of (m_files w)"
  by unfold_locales
    (auto simp: mem_os_run mem_write_def mem_stat_def mem_mkdirall_def mem_mkdir_def dirname_append
       map_of_filter_other map_of_eq_None_iff fun_eq_iff split: if_splits)

lemma dec_digits_no_slash: "CHR ''/'' \<notin> set (dec_digits n)"
proof (induction n rule: dec_digits.induct)
  case (1 n)
  have d: "CHR ''/'' \<noteq> char_of (48 + k)" if "k < 10" for k :: nat
  proof
    assume "CHR ''/'' = char_of (48 + k)"
    then have "of_char CHR ''/'' = (of_char (char_of (48 + k) :: char) :: nat)" by simp
    with that show False by simp
  qed
  show ?case
    using "1" d [of n] d [of "n mod 10"] by (subst dec_digits.simps) auto
qed

lemma plain_name_job: "plain_name (''job'' @ Itoa n)"
  using dec_digits_no_slash by (auto simp: plain_name_def Itoa_def)

interpretation mem: start_kernel mem_os "\<lambda>w. set (m_dirs w)"
  by unfold_locales
    (auto simp: mem_os_run mem_open_def mem_create_def mem_write_def mem_start_def mem_remove_def mem_rmdir_def mem_os_def plain_name_job [simplified]
      split: if_splits option.splits)

interpretation mem: kill_kernel mem_os "\<lambda>w. map_of (m_procs w)"
proof unfold_locales
  fix d :: string and w w' :: memw and pid :: int
  assume w: "run_state (os_WriteFile mem_os (d @ ''/cgroup.kill'') ''1'') w = (None, w')"
    and g: "map_of (m_procs w) pid = Some d"
  have "dirname (d @ ''/cgroup.kill'') = d" by (simp add: dirname_def)
  moreover have "HasSuffix (d @ ''/cgroup.kill'') ''/cgroup.kill''" by (rule HasSuffix_append)
  ultimately have "m_procs w' = filter (\<lambda>(q, g). case map_of (m_procs w) q of
              None \<Rightarrow> True | Some h \<Rightarrow> \<not> below d h) (m_procs w)"
    using w by (auto simp: mem_os_run mem_write_def split: if_splits cong: option.case_cong)
  with g have "pid \<notin> set (map fst (m_procs w'))"
    by (auto simp: below_def)
  then have "gone_after mem_os pid 0 w'"
    by (simp add: gone_after.simps mem_os_run mem_probe_def)
  then show "\<exists>n. gone_after mem_os pid n w'" ..
qed

end
