(* ===== verification/Cgroups.thy ===== *)
theory Cgroups
  imports MemKernel
begin

text \<open>
  \<open>jobslib/cgroups.go\<close>: the cgroup-v2 hierarchy \<open>/sys/fs/cgroup/jobmaster/<client>/<job>\<close> and its
  interface files.  One definition per function; loops over clients and directory entries are
  recursions over the lists.
\<close>

section \<open>Constants\<close>

definition cgroup2MountRoot :: string where "cgroup2MountRoot = ''/sys/fs/cgroup''"
definition cgroupSubtreeCtrlFilename :: string where "cgroupSubtreeCtrlFilename = ''cgroup.subtree_control''"
definition cgroupControllerEnableString :: string where "cgroupControllerEnableString = ''+io +cpu +memory''"
definition cgroupParentDir :: string where "cgroupParentDir = ''jobmaster''"
definition cgroupKillFilename :: string where "cgroupKillFilename = ''cgroup.kill''"

definition cpuMaxLimitMicrosecs :: string where "cpuMaxLimitMicrosecs = ''10000 10000''"
definition cpuMaxLimitFile :: string where "cpuMaxLimitFile = ''cpu.max''"
definition memoryMaxLimitBytes :: string where "memoryMaxLimitBytes = ''1048576''"
definition memoryMaxLimitFile :: string where "memoryMaxLimitFile = ''memory.max''"
definition memoryOOMGroup :: string where "memoryOOMGroup = ''1''"
definition memoryOOMGroupFile :: string where "memoryOOMGroupFile = ''memory.oom.group''"
definition ioMaxLimitBytesPerSec :: string where "ioMaxLimitBytesPerSec = ''rbps=4096 wbps=4096''"
definition ioMaxLimitIOPS :: string where "ioMaxLimitIOPS = ''riops=10 wiops=10''"
definition ioMaxLimitFile :: string where "ioMaxLimitFile = ''io.max''"

lemmas cgroup_consts = cgroup2MountRoot_def cgroupSubtreeCtrlFilename_def
  cgroupControllerEnableString_def cgroupParentDir_def cgroupKillFilename_def
  cpuMaxLimitMicrosecs_def cpuMaxLimitFile_def memoryMaxLimitBytes_def memoryMaxLimitFile_def
  memoryOOMGroup_def memoryOOMGroupFile_def ioMaxLimitBytesPerSec_def ioMaxLimitIOPS_def
  ioMaxLimitFile_def

section \<open>Verification of the hierarchy\<close>

definition verifyClientCgroup :: "'w os \<Rightarrow> string \<Rightarrow> ('w, goerr option) state" where
  "verifyClientCgroup os clientName =
     (if is_blank clientName then State_Monad.return (Some (New ''client name is empty''))
      else
        let clDir = filepath_Join [cgroup2MountRoot, cgroupParentDir, clientName] in
        unless_err (os_Stat os clDir)
          (\<lambda>err. State_Monad.return
             (Some (Errorf ''error verifying client cgroup dir '%s': %w'' [clDir] [err])))
          (\<lambda>isDir. State_Monad.return
             (if isDir then None
              else Some (Errorf ''cgroup file '%s' for client %s is not a directory''
                           [clDir, clientName] []))))"

primrec verify_clients :: "'w os \<Rightarrow> string list \<Rightarrow> ('w, goerr option) state" where
  "verify_clients os [] = State_Monad.return None"
| "verify_clients os (c # cs) =
     iferr (verifyClientCgroup os c) (\<lambda>err. State_Monad.return (Some err)) (verify_clients os cs)"

definition verifyCgroups :: "'w os \<Rightarrow> string list \<Rightarrow> ('w, goerr option) state" where
  "verifyCgroups os clientList =
     (if clientList = []
      then State_Monad.return (Some (New ''client list for cgroup verification is empty''))
      else
        let mainDir = filepath_Join [cgroup2MountRoot, cgroupParentDir] in
        unless_err (os_Stat os mainDir)
          (\<lambda>err. State_Monad.return
             (Some (Errorf ''error verifying main jobmaster cgroup directory '%s': %w'' [mainDir] [err])))
          (\<lambda>isDir.
             if \<not> isDir
             then State_Monad.return
               (Some (Errorf ''main jobmaster cgroup directory '%s' is not a directory'' [mainDir] []))
             else verify_clients os clientList))"

section \<open>Teardown\<close>

definition last_joined :: "goerr \<Rightarrow> goerr list \<Rightarrow> goerr" where
  "last_joined finale errs = fold (\<lambda>e acc. Join [e]) errs finale"

text \<open>The loop over the entries of a client directory: errors are collected.\<close>

primrec remove_job_dirs :: "'w os \<Rightarrow> string \<Rightarrow> (string \<times> bool) list \<Rightarrow> goerr list \<Rightarrow> ('w, goerr list) state" where
  "remove_job_dirs os clientDirPath [] errList = State_Monad.return errList"
| "remove_job_dirs os clientDirPath (entry # entries) errList =
     (if snd entry
      then iferr (sys_Rmdir os (filepath_Join [clientDirPath, fst entry]))
             (\<lambda>err. remove_job_dirs os clientDirPath entries (errList @ [err]))
             (remove_job_dirs os clientDirPath entries errList)
      else remove_job_dirs os clientDirPath entries errList)"

definition teardown_client :: "'w os \<Rightarrow> string \<Rightarrow> goerr list \<Rightarrow> ('w, goerr list) state" where
  "teardown_client os clientDirPath errList0 = do {
     killed \<leftarrow> os_WriteFile os (filepath_Join [clientDirPath, cgroupKillFilename]) ''1'';
     let errList1 = errList0 @ (case killed of Some err \<Rightarrow> [err] | None \<Rightarrow> []);
     entries \<leftarrow> os_ReadDir os clientDirPath;
     errList2 \<leftarrow> (case entries of
         Inl err \<Rightarrow> State_Monad.return (errList1 @ [err])
       | Inr es \<Rightarrow> remove_job_dirs os clientDirPath es errList1);
     removed \<leftarrow> sys_Rmdir os clientDirPath;
     State_Monad.return (errList2 @ (case removed of Some err \<Rightarrow> [err] | None \<Rightarrow> []))
   }"

text \<open>The loop over the clients: \<open>Inl\<close> is the early return of a failed \<open>os.Stat\<close>.\<close>

primrec teardown_clients :: "'w os \<Rightarrow> string \<Rightarrow> string list \<Rightarrow> goerr list \<Rightarrow> ('w, goerr + goerr list) state" where
  "teardown_clients os cpdPath [] errList = State_Monad.return (Inr errList)"
| "teardown_clients os cpdPath (c # cs) errList =
     (let clientDirPath = filepath_Join [cpdPath, c] in
      unless_err (os_Stat os clientDirPath)
        (\<lambda>err. if IsNotExist err then teardown_clients os cpdPath cs errList
               else State_Monad.return (Inl err))
        (\<lambda>isDir. do {
           errs \<leftarrow> teardown_client os clientDirPath errList;
           teardown_clients os cpdPath cs errs
         }))"

definition TeardownJobmasterCgroups :: "'w os \<Rightarrow> string list \<Rightarrow> ('w, goerr option) state" where
  "TeardownJobmasterCgroups os clientList =
     (if clientList = []
      then State_Monad.return (Some (New ''client list for cgroup teardown is empty''))
      else
        let cpdPath = filepath_Join [cgroup2MountRoot, cgroupParentDir] in
        unless_err (teardown_clients os cpdPath clientList [])
          (\<lambda>err. State_Monad.return (Some err))
          (\<lambda>errList.
             if errList \<noteq> []
             then State_Monad.return (Some (last_joined
                    (New ''error removing one or more client cgroup (sub)dirs'') errList))
             else iferr (sys_Rmdir os (filepath_Join [cgroup2MountRoot, cgroupParentDir]))
                    (\<lambda>err. State_Monad.return (Some (Errorf
                       ''failed to remove jobmaster cgroup parent dir %q: %w'' [cgroupParentDir] [err])))
                    (State_Monad.return None)))"

section \<open>Setup\<close>

text \<open>The loop over the clients, which \<open>break\<close>s at the first error.\<close>

primrec setup_clients :: "'w os \<Rightarrow> string \<Rightarrow> string list \<Rightarrow> ('w, goerr list) state" where
  "setup_clients os cpdPath [] = State_Monad.return []"
| "setup_clients os cpdPath (clientName # cs) =
     (let relPath = filepath_Join [cpdPath, clientName] in
      iferr (os_MkdirAll os relPath)
        (\<lambda>err. State_Monad.return
           [Errorf ''error creating client cgroup dir for client %q due to %w'' [clientName] [err]])
        (let ccscFile = filepath_Join [relPath, cgroupSubtreeCtrlFilename] in
         iferr (os_WriteFile os ccscFile cgroupControllerEnableString)
           (\<lambda>err. let emsg = Errorf ''error enabling cgroup controllers on %q: %w'' [ccscFile] [err] in
              iferr (sys_Rmdir os relPath)
                (\<lambda>err2. State_Monad.return
                   [Join [Errorf ''there was also an error removing %q %w'' [relPath] [err2]]])
                (State_Monad.return [emsg]))
           (setup_clients os cpdPath cs)))"

definition setupJobmasterCgroups :: "'w os \<Rightarrow> string list \<Rightarrow> ('w, goerr option) state" where
  "setupJobmasterCgroups os clientList =
     (if clientList = []
      then State_Monad.return (Some (New ''client list for cgroup creation is empty''))
      else
        let cpdPath = filepath_Join [cgroup2MountRoot, cgroupParentDir];
            cscFile = filepath_Join [cpdPath, cgroupSubtreeCtrlFilename] in
        iferr (os_MkdirAll os cpdPath)
          (\<lambda>err. State_Monad.return (Some (Errorf ''failed to create parent cgroup path %q: %w''
                    [cgroupParentDir] [err])))
        (iferr (os_WriteFile os cscFile cgroupControllerEnableString)
          (\<lambda>err0. let err = Join [Errorf ''error enabling cgroup controllers on %q: %w'' [cscFile] [err0]] in
             iferr (os_Remove os cpdPath)
               (\<lambda>err2. State_Monad.return (Some (Join [Errorf ''error removing %q %w'' [cpdPath] [err]])))
               (State_Monad.return (Some err)))
        (do {
           errList \<leftarrow> setup_clients os cpdPath clientList;
           if errList \<noteq> []
           then
             let finale = last_joined (New ''error creating client cgroup dir(s)'') errList in
             iferr (TeardownJobmasterCgroups os clientList)
               (\<lambda>err. State_Monad.return (Some (Join [Errorf ''error cleaning up: %w'' [] [err]])))
               (State_Monad.return (Some finale))
           else verifyCgroups os clientList
         })))"

section \<open>The cgroup of a job\<close>

definition createJobCgroup :: "'w os \<Rightarrow> string \<Rightarrow> string \<Rightarrow> string \<Rightarrow> ('w, goerr + string) state" where
  "createJobCgroup os jobID clientName devMajorMinor =
     (if jobID = '''' then State_Monad.return (Inl (New ''jobID for job cgroup creation is empty''))
      else if clientName = ''''
      then State_Monad.return (Inl (Errorf ''clientName for job cgroup creation is empty for jobID %s'' [jobID] []))
      else if devMajorMinor = ''''
      then State_Monad.return (Inl (Errorf
             ''device string devMajorMinor for job cgroup creation is empty for jobID %s and client %s''
             [jobID, clientName] []))
      else
        let jcPath = filepath_Join [cgroup2MountRoot, cgroupParentDir, clientName, jobID];
            ioLimits = devMajorMinor @ '' '' @ ioMaxLimitBytesPerSec @ '' '' @ ioMaxLimitIOPS;
            ioFile = filepath_Join [jcPath, ioMaxLimitFile];
            memMaxFile = filepath_Join [jcPath, memoryMaxLimitFile];
            memOGFile = filepath_Join [jcPath, memoryOOMGroupFile];
            cpuFile = filepath_Join [jcPath, cpuMaxLimitFile] in
        iferr (os_Mkdir os jcPath)
          (\<lambda>err. State_Monad.return (Inl (Errorf
             ''failed to create job cgroup for jobID %s and client %s: %w'' [jobID, clientName] [err])))
        (iferr (os_WriteFile os ioFile ioLimits)
          (\<lambda>err. State_Monad.return (Inl (Errorf
             ''error writing to IO limit file %q for jobID %s and client %s: %w''
             [ioFile, jobID, clientName] [err])))
        (iferr (os_WriteFile os memMaxFile memoryMaxLimitBytes)
          (\<lambda>err. State_Monad.return (Inl (Errorf
             ''error writing to memory max limit file %q for jobID %s and client %s: %w''
             [memMaxFile, jobID, clientName] [err])))
        (iferr (os_WriteFile os memOGFile memoryOOMGroup)
          (\<lambda>err. State_Monad.return (Inl (Errorf
             ''error writing to memory OOM group file %q for jobID %s and client %s: %w''
             [memOGFile, jobID, clientName] [err])))
        (iferr (os_WriteFile os cpuFile cpuMaxLimitMicrosecs)
          (\<lambda>err. State_Monad.return (Inl (Errorf
             ''error writing to CPU max limit file %q for jobID %s and client %s: %w''
             [cpuFile, jobID, clientName] [err])))
        (State_Monad.return (Inr jcPath)))))))"

definition terminateJob :: "'w os \<Rightarrow> string \<Rightarrow> string \<Rightarrow> ('w, goerr option) state" where
  "terminateJob os jobID clientName =
     (if jobID = '''' then State_Monad.return (Some (New ''jobID for job termination is empty''))
      else if clientName = ''''
      then State_Monad.return (Some (Errorf ''clientName for job termination is empty for jobID %s'' [jobID] []))
      else
        let jobDirPath = filepath_Join [cgroup2MountRoot, cgroupParentDir, clientName, jobID];
            killfilePath = filepath_Join [jobDirPath, cgroupKillFilename] in
        iferr (os_WriteFile os killfilePath ''1'')
          (\<lambda>err. State_Monad.return
             (if IsNotExist err then None
              else Some (Errorf ''stat error for %s when terminating job %s: %w'' [jobDirPath, jobID] [err])))
          (State_Monad.return None))"

definition removeJobCgroup :: "'w os \<Rightarrow> string \<Rightarrow> string \<Rightarrow> ('w, goerr option) state" where
  "removeJobCgroup os jobID clientName =
     iferr (terminateJob os jobID clientName)
       (\<lambda>err. State_Monad.return (Some err))
       (let jobDirPath = filepath_Join [cgroup2MountRoot, cgroupParentDir, clientName, jobID] in
        unless_err (os_Stat os jobDirPath)
          (\<lambda>err. State_Monad.return
             (if IsNotExist err then None
              else Some (Errorf ''stat error for %s when terminating job %s: %w'' [jobDirPath, jobID] [err])))
          (\<lambda>isDir.
             iferr (sys_Rmdir os jobDirPath)
               (\<lambda>err. State_Monad.return
                  (Some (Errorf ''failed to remove job cgroup dir %q: %w'' [jobDirPath] [err])))
               (State_Monad.return None)))"

section \<open>Paths\<close>

definition client_dir :: "string \<Rightarrow> string" where
  "client_dir c = abspath [''sys'', ''fs'', ''cgroup'', ''jobmaster'', c]"

definition job_dir :: "string \<Rightarrow> string \<Rightarrow> string" where
  "job_dir c i = abspath [''sys'', ''fs'', ''cgroup'', ''jobmaster'', c, i]"

definition parent_dir :: string where
  "parent_dir = abspath [''sys'', ''fs'', ''cgroup'', ''jobmaster'']"

named_theorems cg_paths \<open>the paths the code computes\<close>

lemma root_abspath: "cgroup2MountRoot = abspath [''sys'', ''fs'', ''cgroup'']"
  by (simp add: cgroup2MountRoot_def)

lemma plain_consts [simp]:
  "plain_name ''sys''" "plain_name ''fs''" "plain_name ''cgroup''" "plain_name ''jobmaster''"
  "plain_name cgroupKillFilename" "plain_name ioMaxLimitFile" "plain_name memoryMaxLimitFile"
  "plain_name memoryOOMGroupFile" "plain_name cpuMaxLimitFile" "plain_name cgroupSubtreeCtrlFilename"
  by (simp_all add: plain_name_def cgroup_consts)

lemma parent_path [cg_paths]: "filepath_Join [cgroup2MountRoot, cgroupParentDir] = parent_dir"
  using Join_abspath [of "[''sys'', ''fs'', ''cgroup'']" "[''jobmaster'']"]
  by (simp add: root_abspath parent_dir_def cgroupParentDir_def)

lemma client_path [cg_paths]:
  "plain_name c \<Longrightarrow> filepath_Join [cgroup2MountRoot, cgroupParentDir, c] = client_dir c"
  "plain_name c \<Longrightarrow> filepath_Join [parent_dir, c] = client_dir c"
  using Join_abspath [of "[''sys'', ''fs'', ''cgroup'']" "[''jobmaster'', c]"]
    Join_abspath [of "[''sys'', ''fs'', ''cgroup'', ''jobmaster'']" "[c]"]
  by (simp_all add: root_abspath parent_dir_def client_dir_def cgroupParentDir_def)

lemma job_path [cg_paths]:
  "plain_name c \<Longrightarrow> plain_name i \<Longrightarrow>
     filepath_Join [cgroup2MountRoot, cgroupParentDir, c, i] = job_dir c i"
  "plain_name c \<Longrightarrow> plain_name i \<Longrightarrow> filepath_Join [client_dir c, i] = job_dir c i"
  using Join_abspath [of "[''sys'', ''fs'', ''cgroup'']" "[''jobmaster'', c, i]"]
    Join_abspath [of "[''sys'', ''fs'', ''cgroup'', ''jobmaster'', c]" "[i]"]
  by (simp_all add: root_abspath job_dir_def client_dir_def cgroupParentDir_def)

lemma in_job_dir [cg_paths]:
  "plain_name c \<Longrightarrow> plain_name i \<Longrightarrow> plain_name f \<Longrightarrow>
     filepath_Join [job_dir c i, f] = job_dir c i @ ''/'' @ f"
  using Join_abspath [of "[''sys'', ''fs'', ''cgroup'', ''jobmaster'', c, i]" "[f]"]
  by (simp add: job_dir_def)

lemma in_client_dir [cg_paths]:
  "plain_name c \<Longrightarrow> plain_name f \<Longrightarrow> filepath_Join [client_dir c, f] = client_dir c @ ''/'' @ f"
  using Join_abspath [of "[''sys'', ''fs'', ''cgroup'', ''jobmaster'', c]" "[f]"]
  by (simp add: client_dir_def)

lemma client_dir_inject: "plain_name c \<Longrightarrow> plain_name d \<Longrightarrow> client_dir c = client_dir d \<longleftrightarrow> c = d"
  unfolding client_dir_def by (subst abspath_inject) simp_all

text \<open>
  Fact: the cgroup path the code computes for a job determines the client and the job: for
  plain names (no slash, not a dot name) two calls use the same directory only for the same client
  and the same job, so no job is killed or limited through another job's directory.
\<close>

theorem job_cgroup_path_unique:
  assumes "plain_name c" and "plain_name i" and "plain_name c'" and "plain_name i'"
  shows "filepath_Join [cgroup2MountRoot, cgroupParentDir, c, i]
           = filepath_Join [cgroup2MountRoot, cgroupParentDir, c', i'] \<longleftrightarrow> c = c' \<and> i = i'"
  unfolding job_path(1) [OF assms(1,2)] job_path(1) [OF assms(3,4)] job_dir_def
  by (subst abspath_inject) (simp_all add: assms)

theorem job_cgroup_path_unique_witness:
  "filepath_Join [cgroup2MountRoot, cgroupParentDir, ''client1'', ''j''] \<noteq>
   filepath_Join [cgroup2MountRoot, cgroupParentDir, ''client2'', ''j'']"
proof -
  have "plain_name ''client1''" "plain_name ''client2''" "plain_name ''j''"
    by (simp_all add: plain_name_def)
  then show ?thesis using job_cgroup_path_unique [of "''client1''" "''j''" "''client2''" "''j''"] by simp
qed

section \<open>The calls on a job's cgroup\<close>

lemma terminateJob_run:
  assumes "plain_name c" and "plain_name i"
  shows "run_state (terminateJob os i c) w =
    (case run_state (os_WriteFile os (job_dir c i @ ''/cgroup.kill'') ''1'') w of
       (None, w') \<Rightarrow> (None, w')
     | (Some e, w') \<Rightarrow> (if IsNotExist e then None
          else Some (Errorf ''stat error for %s when terminating job %s: %w'' [job_dir c i, i] [e]), w'))"
proof -
  have "c \<noteq> []" and "i \<noteq> []" using assms by (auto simp: plain_name_def)
  moreover have "filepath_Join [job_dir c i, cgroupKillFilename] = job_dir c i @ ''/cgroup.kill''"
    using in_job_dir [OF assms, of cgroupKillFilename] by (simp add: cgroupKillFilename_def plain_name_def)
  ultimately show ?thesis
    by (simp add: terminateJob_def Let_def job_path(1) [OF assms] go_run
          split: prod.split option.split)
qed

lemma suffix_kill:
  "\<not> HasSuffix (p @ ''/io.max'') ''/cgroup.kill''" "\<not> HasSuffix (p @ ''/memory.max'') ''/cgroup.kill''"
  "\<not> HasSuffix (p @ ''/memory.oom.group'') ''/cgroup.kill''" "\<not> HasSuffix (p @ ''/cpu.max'') ''/cgroup.kill''"
  by (simp_all add: HasSuffix_def HasPrefix_def)

text \<open>The five calls of \<open>createJobCgroup\<close> on plain names, with the paths worked out.\<close>

lemma createJobCgroup_ok_calls:
  assumes "plain_name c" and "plain_name i" and run: "run_state (createJobCgroup os i c dev) w = (Inr p, w')"
  shows "\<exists>w1 w2 w3 w4. dev \<noteq> '''' \<and> p = job_dir c i \<and>
    run_state (os_Mkdir os p) w = (None, w1) \<and>
    run_state (os_WriteFile os (p @ ''/io.max'') (dev @ '' rbps=4096 wbps=4096 riops=10 wiops=10'')) w1 = (None, w2) \<and>
    run_state (os_WriteFile os (p @ ''/memory.max'') ''1048576'') w2 = (None, w3) \<and>
    run_state (os_WriteFile os (p @ ''/memory.oom.group'') ''1'') w3 = (None, w4) \<and>
    run_state (os_WriteFile os (p @ ''/cpu.max'') ''10000 10000'') w4 = (None, w')"
proof -
  have ne: "c \<noteq> []" "i \<noteq> []" using assms by (auto simp: plain_name_def)
  note j = in_job_dir [OF assms(1,2)]
  have f: "filepath_Join [job_dir c i, ioMaxLimitFile] = job_dir c i @ ''/io.max''"
    "filepath_Join [job_dir c i, memoryMaxLimitFile] = job_dir c i @ ''/memory.max''"
    "filepath_Join [job_dir c i, memoryOOMGroupFile] = job_dir c i @ ''/memory.oom.group''"
    "filepath_Join [job_dir c i, cpuMaxLimitFile] = job_dir c i @ ''/cpu.max''"
    using j [of ioMaxLimitFile] j [of memoryMaxLimitFile] j [of memoryOOMGroupFile] j [of cpuMaxLimitFile]
    by (simp_all add: ioMaxLimitFile_def memoryMaxLimitFile_def memoryOOMGroupFile_def cpuMaxLimitFile_def plain_name_def)
  show ?thesis
    using run ne
    unfolding createJobCgroup_def Let_def job_path(1) [OF assms(1,2)] f
    by (auto simp: go_run memoryMaxLimitBytes_def memoryOOMGroup_def cpuMaxLimitMicrosecs_def
          ioMaxLimitBytesPerSec_def ioMaxLimitIOPS_def split: go_split)
qed

section \<open>Effects of the calls on a kernel with the cgroup laws\<close>

context file_kernel
begin

lemma createJobCgroup_limits:
  assumes "plain_name c" and "plain_name i"
    and run: "run_state (createJobCgroup os i c dev) w = (Inr p, w')"
  shows "p = job_dir c i" "p \<in> dirs w'" "p \<notin> dirs w"
    "files w' (p @ ''/io.max'') = Some (dev @ '' rbps=4096 wbps=4096 riops=10 wiops=10'')"
    "files w' (p @ ''/memory.max'') = Some ''1048576''"
    "files w' (p @ ''/memory.oom.group'') = Some ''1''"
    "files w' (p @ ''/cpu.max'') = Some ''10000 10000''"
proof -
  obtain w1 w2 w3 w4 where p: "p = job_dir c i" and mk: "run_state (os_Mkdir os p) w = (None, w1)"
    and a: "run_state (os_WriteFile os (p @ ''/io.max'') (dev @ '' rbps=4096 wbps=4096 riops=10 wiops=10'')) w1 = (None, w2)"
    and b: "run_state (os_WriteFile os (p @ ''/memory.max'') ''1048576'') w2 = (None, w3)"
    and c: "run_state (os_WriteFile os (p @ ''/memory.oom.group'') ''1'') w3 = (None, w4)"
    and d: "run_state (os_WriteFile os (p @ ''/cpu.max'') ''10000 10000'') w4 = (None, w')"
    using createJobCgroup_ok_calls [OF assms] by blast
  show "p = job_dir c i" by (rule p)
  show "p \<notin> dirs w" using mkdir_ok [OF mk] by simp
  show "p \<in> dirs w'"
    using mkdir_ok [OF mk] write_dirs [OF a] write_dirs [OF b] write_dirs [OF c] write_dirs [OF d] by simp
  note fs = write_ok [OF a suffix_kill(1)] write_ok [OF b suffix_kill(2)]
    write_ok [OF c suffix_kill(3)] write_ok [OF d suffix_kill(4)]
  show "files w' (p @ ''/io.max'') = Some (dev @ '' rbps=4096 wbps=4096 riops=10 wiops=10'')"
    "files w' (p @ ''/memory.max'') = Some ''1048576''"
    "files w' (p @ ''/memory.oom.group'') = Some ''1''"
    "files w' (p @ ''/cpu.max'') = Some ''10000 10000''"
    by (simp_all add: fs)
qed

end

context dir_kernel
begin

lemma createJobCgroup_error_keeps:
  assumes "run_state (os_Mkdir os p) w = (None, w1)"
    and "p = filepath_Join [cgroup2MountRoot, cgroupParentDir, c, i]"
    and "run_state (createJobCgroup os i c dev) w = (Inl e, w')"
    and "i \<noteq> ''''" and "c \<noteq> ''''" and "dev \<noteq> ''''"
  shows "p \<in> dirs w'"
proof -
  have "p \<in> dirs w1" using mkdir_ok [OF assms(1)] by simp
  with assms show ?thesis
    by (auto simp: createJobCgroup_def Let_def go_run split: go_split dest!: write_dirs)
qed

lemma terminateJob_dirs: "run_state (terminateJob os i c) w = (r, w') \<Longrightarrow> dirs w' = dirs w"
  by (auto simp: terminateJob_def Let_def go_run split: go_split dest!: write_dirs)

lemma removeJobCgroup_gone:
  assumes "plain_name c" and "plain_name i" and "run_state (removeJobCgroup os i c) w = (None, w')"
  shows "dirs w' = dirs w - {job_dir c i}"
  using assms(3)
  unfolding removeJobCgroup_def Let_def job_path(1) [OF assms(1,2)]
  by (auto simp: go_run split: go_split
        dest!: terminateJob_dirs stat_facts rmdir_facts)

lemma remove_job_dirs_grow:
  "run_state (remove_job_dirs os d es errs) w = (errs', w') \<Longrightarrow> prefix errs errs' \<and> dirs w' \<subseteq> dirs w"
proof (induction es arbitrary: errs w)
  case Nil
  then show ?case by (simp add: go_run)
next
  case (Cons e es)
  obtain r w1 where r: "run_state (sys_Rmdir os (filepath_Join [d, fst e])) w = (r, w1)" by fastforce
  then have sub: "dirs w1 \<subseteq> dirs w"
    by (auto dest!: rmdir_facts split: if_splits)
  show ?case
  proof (cases "snd e")
    case False
    with Cons show ?thesis by simp
  next
    case True
    show ?thesis
      using Cons.prems True r sub Cons.IH [of errs w1] Cons.IH [of "errs @ [the r]" w1]
      by (cases r) (auto simp: go_run dest!: append_prefixD)
  qed
qed

end

context dir_kernel
begin

lemma teardown_client_effect:
  assumes "run_state (teardown_client os d errs) w = (errs', w')"
  shows "prefix errs errs' \<and> dirs w' \<subseteq> dirs w \<and> (errs' = [] \<longrightarrow> d \<notin> dirs w')"
proof -
  obtain k w1 where k: "run_state (os_WriteFile os (filepath_Join [d, cgroupKillFilename]) ''1'') w = (k, w1)"
    by fastforce
  obtain es w2 where e: "run_state (os_ReadDir os d) w1 = (es, w2)" by fastforce
  define m where "m = errs @ (case k of Some err \<Rightarrow> [err] | None \<Rightarrow> [])"
  obtain errs2 w3 where m2: "run_state (case es of Inl err \<Rightarrow> State_Monad.return (m @ [err])
      | Inr es \<Rightarrow> remove_job_dirs os d es m) w2 = (errs2, w3)" by fastforce
  obtain r w4 where r: "run_state (sys_Rmdir os d) w3 = (r, w4)" by fastforce
  have res: "errs' = errs2 @ (case r of Some err \<Rightarrow> [err] | None \<Rightarrow> [])" "w' = w4"
    using assms k e m2 [unfolded m_def] r by (simp_all add: teardown_client_def Let_def go_run)
  have "prefix m errs2 \<and> dirs w3 \<subseteq> dirs w2"
    using m2 remove_job_dirs_grow by (cases es) (auto simp: go_run)
  moreover have "prefix errs m" by (simp add: m_def)
  moreover have "dirs w1 = dirs w" "dirs w2 = dirs w1"
    using write_dirs [OF k] readdir_dirs [OF e] by simp_all
  moreover have "dirs w4 = (if r = None then dirs w3 - {d} else dirs w3)"
    using rmdir_facts [OF r] .
  ultimately show ?thesis
    unfolding res
    by (auto split: option.splits if_splits intro: prefix_order.order_trans prefix_prefix)
qed

lemma teardown_clients_effect:
  "run_state (teardown_clients os cpd cs errs) w = (Inr errs', w') \<Longrightarrow>
     prefix errs errs' \<and> dirs w' \<subseteq> dirs w \<and>
     (errs' = [] \<longrightarrow> (\<forall>c \<in> set cs. filepath_Join [cpd, c] \<notin> dirs w'))"
proof (induction cs arbitrary: errs w)
  case Nil
  then show ?case by (simp add: go_run)
next
  case (Cons c cs)
  let ?d = "filepath_Join [cpd, c]"
  obtain s w1 where s: "run_state (os_Stat os ?d) w = (s, w1)" by fastforce
  note sf = stat_facts [OF s]
  show ?case
  proof (cases s)
    case (Inl e)
    with Cons.prems s have "IsNotExist e" and t: "run_state (teardown_clients os cpd cs errs) w1 = (Inr errs', w')"
      by (auto simp: go_run Let_def split: if_splits)
    with sf Inl Cons.IH [OF t] show ?thesis by auto
  next
    case (Inr b)
    obtain errs1 w2 where c: "run_state (teardown_client os ?d errs) w1 = (errs1, w2)" by fastforce
    with Cons.prems s Inr have t: "run_state (teardown_clients os cpd cs errs1) w2 = (Inr errs', w')"
      by (simp add: go_run Let_def)
    show ?thesis
      using sf teardown_client_effect [OF c] Cons.IH [OF t]
      by (auto intro: prefix_order.order_trans)
  qed
qed

lemma TeardownJobmasterCgroups_removes:
  assumes run: "run_state (TeardownJobmasterCgroups os cs) w = (None, w')" and "\<forall>c \<in> set cs. plain_name c"
  shows "parent_dir \<notin> dirs w' \<and> (\<forall>c \<in> set cs. client_dir c \<notin> dirs w') \<and> dirs w' \<subseteq> dirs w"
proof -
  have ne: "cs \<noteq> []" using run by (auto simp: TeardownJobmasterCgroups_def go_run)
  obtain errs w1 where t: "run_state (teardown_clients os parent_dir cs []) w = (Inr errs, w1)"
    using run ne by (auto simp: TeardownJobmasterCgroups_def go_run Let_def parent_path split: go_split)
  then have e: "errs = []" and r: "run_state (sys_Rmdir os parent_dir) w1 = (None, w')"
    using run ne by (auto simp: TeardownJobmasterCgroups_def go_run Let_def parent_path split: go_split)
  show ?thesis
    using teardown_clients_effect [OF t] rmdir_ok [OF r] e assms(2) by (auto simp: client_path)
qed

lemma verifyClientCgroup_ok:
  assumes "run_state (verifyClientCgroup os c) w = (None, w')" and "plain_name c"
  shows "dirs w' = dirs w \<and> client_dir c \<in> dirs w"
  using assms by (auto simp: verifyClientCgroup_def go_run Let_def client_path split: go_split
      dest!: stat_facts)

lemma verify_clients_ok:
  "run_state (verify_clients os cs) w = (None, w') \<Longrightarrow> \<forall>c \<in> set cs. plain_name c
     \<Longrightarrow> dirs w' = dirs w \<and> (\<forall>c \<in> set cs. client_dir c \<in> dirs w)"
proof (induction cs arbitrary: w)
  case Nil
  then show ?case by (simp add: go_run)
next
  case (Cons c cs)
  then obtain w1 where v: "run_state (verifyClientCgroup os c) w = (None, w1)"
    and r: "run_state (verify_clients os cs) w1 = (None, w')"
    by (auto simp: go_run split: go_split)
  from Cons.prems(2) show ?case
    using verifyClientCgroup_ok [OF v] Cons.IH [OF r] by simp
qed

lemma verifyCgroups_ok:
  assumes "run_state (verifyCgroups os cs) w = (None, w')" and "\<forall>c \<in> set cs. plain_name c"
  shows "dirs w' = dirs w \<and> parent_dir \<in> dirs w \<and> (\<forall>c \<in> set cs. client_dir c \<in> dirs w)"
  using assms
  by (auto simp: verifyCgroups_def go_run Let_def parent_path split: go_split
      dest!: stat_facts verify_clients_ok)

end

definition controllers_file :: "string \<Rightarrow> string" where
  "controllers_file d = d @ ''/cgroup.subtree_control''"

lemma controllers_path:
  "plain_name c \<Longrightarrow> filepath_Join [client_dir c, cgroupSubtreeCtrlFilename] = controllers_file (client_dir c)"
  "filepath_Join [parent_dir, cgroupSubtreeCtrlFilename] = controllers_file parent_dir"
  using in_client_dir [of c cgroupSubtreeCtrlFilename]
    Join_abspath [of "[''sys'', ''fs'', ''cgroup'', ''jobmaster'']" "[cgroupSubtreeCtrlFilename]"]
  by (simp_all add: cgroupSubtreeCtrlFilename_def controllers_file_def parent_dir_def plain_name_def)

lemma not_kill_controllers: "\<not> HasSuffix (controllers_file d) ''/cgroup.kill''"
  by (simp add: controllers_file_def HasSuffix_def HasPrefix_def)

context file_kernel
begin

definition enabled :: "'w \<Rightarrow> string \<Rightarrow> bool" where
  "enabled w d \<longleftrightarrow> files w (controllers_file d) = Some ''+io +cpu +memory''"

lemma enable_ok:
  assumes "run_state (os_WriteFile os (controllers_file d) cgroupControllerEnableString) w = (None, w')"
  shows "enabled w' d \<and> (\<forall>d. enabled w d \<longrightarrow> enabled w' d)"
  using write_ok [OF assms not_kill_controllers]
  by (simp add: enabled_def cgroupControllerEnableString_def)

lemma setup_clients_enabled:
  "run_state (setup_clients os parent_dir cs) w = ([], w') \<Longrightarrow> \<forall>c \<in> set cs. plain_name c \<Longrightarrow>
     (\<forall>d. enabled w d \<longrightarrow> enabled w' d) \<and> (\<forall>c \<in> set cs. enabled w' (client_dir c))"
proof (induction cs arbitrary: w)
  case Nil
  then show ?case by (simp add: go_run)
next
  case (Cons c cs)
  then have pc: "plain_name c" by simp
  from Cons.prems obtain w1 w2 where
    m: "run_state (os_MkdirAll os (client_dir c)) w = (None, w1)" and
    f: "run_state (os_WriteFile os (controllers_file (client_dir c)) cgroupControllerEnableString) w1 = (None, w2)" and
    r: "run_state (setup_clients os parent_dir cs) w2 = ([], w')"
    by (auto simp: go_run Let_def client_path(2) [OF pc] controllers_path(1) [OF pc] split: go_split)
  have "\<forall>d. enabled w d \<longrightarrow> enabled w1 d" using mkdirall_files [OF m] by (simp add: enabled_def)
  with enable_ok [OF f] Cons.IH [OF r] Cons.prems(2) show ?case by auto
qed

lemma verifyClientCgroup_files: "run_state (verifyClientCgroup os c) w = (r, w') \<Longrightarrow> files w' = files w"
  by (auto simp: verifyClientCgroup_def go_run Let_def split: go_split dest!: stat_files)

lemma verify_clients_files: "run_state (verify_clients os cs) w = (r, w') \<Longrightarrow> files w' = files w"
  by (induction cs arbitrary: w) (auto simp: go_run split: go_split dest!: verifyClientCgroup_files)

lemma verifyCgroups_files: "run_state (verifyCgroups os cs) w = (r, w') \<Longrightarrow> files w' = files w"
  by (auto simp: verifyCgroups_def go_run Let_def split: go_split dest!: stat_files verify_clients_files)

lemma setup_ok:
  assumes run: "run_state (setupJobmasterCgroups os cs) w = (None, w')" and plain: "\<forall>c \<in> set cs. plain_name c"
  shows "parent_dir \<in> dirs w' \<and> enabled w' parent_dir \<and>
    (\<forall>c \<in> set cs. client_dir c \<in> dirs w' \<and> enabled w' (client_dir c))"
proof -
  have ne: "cs \<noteq> []" using run by (auto simp: setupJobmasterCgroups_def go_run)
  obtain w1 w2 w3 where
    f: "run_state (os_WriteFile os (controllers_file parent_dir) cgroupControllerEnableString) w1 = (None, w2)" and
    s: "run_state (setup_clients os parent_dir cs) w2 = ([], w3)" and
    v: "run_state (verifyCgroups os cs) w3 = (None, w')"
    using run ne
    by (auto simp: setupJobmasterCgroups_def go_run Let_def parent_path controllers_path(2) split: go_split)
  have "enabled w' d \<longleftrightarrow> enabled w3 d" for d
    using verifyCgroups_files [OF v] by (simp add: enabled_def)
  with enable_ok [OF f] setup_clients_enabled [OF s plain] verifyCgroups_ok [OF v plain]
  show ?thesis by auto
qed

end

context strict_kernel
begin

lemma removeJobCgroup_again:
  assumes "plain_name c" and "plain_name i" and "job_dir c i \<notin> dirs w" and "files w (job_dir c i) = None"
  shows "\<exists>w'. run_state (removeJobCgroup os i c) w = (None, w') \<and> dirs w' = dirs w"
proof -
  obtain e w1 where t: "run_state (os_WriteFile os (job_dir c i @ ''/cgroup.kill'') ''1'') w = (Some e, w1)"
    and e: "IsNotExist e" and f: "files w1 = files w"
    using write_missing [OF assms(3), of "''cgroup.kill''" "''1''"] by auto
  have d: "dirs w1 = dirs w" using write_dirs [OF t] .
  obtain e2 w2 where s: "run_state (os_Stat os (job_dir c i)) w1 = (Inl e2, w2)" and e2: "IsNotExist e2"
    using stat_nothing [of "job_dir c i" w1] assms(3,4) f d by auto
  have "run_state (removeJobCgroup os i c) w = (None, w2)"
    using t s e e2 by (simp add: removeJobCgroup_def go_run terminateJob_run [OF assms(1,2)]
        Let_def job_path(1) [OF assms(1,2)])
  moreover have "dirs w2 = dirs w" using stat_dirs [OF s] d by simp
  ultimately show ?thesis by blast
qed

end

section \<open>Properties\<close>

text \<open>
  Property C25: when \<open>createJobCgroup\<close> succeeds, the directory of exactly that client and job is new
  and exists, and its four interface files hold the limits of the constants: the I/O limits of the
  given device, 1 MiB of memory, group OOM killing, and the CPU bandwidth.
\<close>

theorem createJobCgroup_sets_limits:
  assumes "file_kernel os D F" and "plain_name c" and "plain_name i"
    and "run_state (createJobCgroup os i c dev) w = (Inr p, w')"
  shows "p = job_dir c i \<and> p \<notin> D w \<and> p \<in> D w' \<and>
    F w' (p @ ''/io.max'') = Some (dev @ '' rbps=4096 wbps=4096 riops=10 wiops=10'') \<and>
    F w' (p @ ''/memory.max'') = Some ''1048576'' \<and>
    F w' (p @ ''/memory.oom.group'') = Some ''1'' \<and>
    F w' (p @ ''/cpu.max'') = Some ''10000 10000''"
  using file_kernel.createJobCgroup_limits [OF assms] by simp

definition mem_one_client :: memw where
  "mem_one_client = mem_boot\<lparr>m_dirs := [''/sys/fs/cgroup/jobmaster/client1'', ''/sys/fs/cgroup/jobmaster'',
     ''/sys/fs/cgroup'', ''/tmp'']\<rparr>"

theorem createJobCgroup_sets_limits_witness:
  "map_of (m_files (snd (run_state (createJobCgroup mem_os ''j1'' ''client1'' ''8:0'') mem_one_client)))
     (job_dir ''client1'' ''j1'' @ ''/io.max'') = Some ''8:0 rbps=4096 wbps=4096 riops=10 wiops=10''"
proof -
  have f: "fst (run_state (createJobCgroup mem_os ''j1'' ''client1'' ''8:0'') mem_one_client)
      = Inr (job_dir ''client1'' ''j1'')"
    by code_simp
  then have r: "run_state (createJobCgroup mem_os ''j1'' ''client1'' ''8:0'') mem_one_client
      = (Inr (job_dir ''client1'' ''j1''),
         snd (run_state (createJobCgroup mem_os ''j1'' ''client1'' ''8:0'') mem_one_client))"
    by (metis prod.collapse)
  show ?thesis
    using createJobCgroup_sets_limits [OF mem.file_kernel_axioms _ _ r] by (simp add: plain_name_def)
qed

text \<open>
  Fact: a successful \<open>removeJobCgroup\<close> removes the directory of that job and no other one.
\<close>

theorem removeJobCgroup_removes_only_it:
  assumes "dir_kernel os D" and "plain_name c" and "plain_name i"
    and "run_state (removeJobCgroup os i c) w = (None, w')"
  shows "D w' = D w - {job_dir c i}"
  by (rule dir_kernel.removeJobCgroup_gone [OF assms])

definition mem_one_job :: memw where
  "mem_one_job = mem_one_client\<lparr>m_dirs := job_dir ''client1'' ''j1'' # m_dirs mem_one_client,
     m_procs := [(4242, job_dir ''client1'' ''j1'')]\<rparr>"

theorem removeJobCgroup_removes_only_it_witness:
  "set (m_dirs (snd (run_state (removeJobCgroup mem_os ''j1'' ''client1'') mem_one_job)))
     = set (m_dirs mem_one_job) - {job_dir ''client1'' ''j1''}"
proof -
  have "fst (run_state (removeJobCgroup mem_os ''j1'' ''client1'') mem_one_job) = None"
    by code_simp
  then have r: "run_state (removeJobCgroup mem_os ''j1'' ''client1'') mem_one_job
      = (None, snd (run_state (removeJobCgroup mem_os ''j1'' ''client1'') mem_one_job))"
    by (metis prod.collapse)
  show ?thesis
    using removeJobCgroup_removes_only_it [OF mem.dir_kernel_axioms _ _ r] by (simp add: plain_name_def)
qed

text \<open>
  Fact: \<open>removeJobCgroup\<close> is idempotent, as \<open>Stop\<close> relies on: on a job whose directory is
  gone already (the kill file and the directory are missing) it reports success.
\<close>

theorem removeJobCgroup_idempotent:
  assumes "strict_kernel os D F" and "plain_name c" and "plain_name i"
    and "job_dir c i \<notin> D w" and "F w (job_dir c i) = None"
  shows "fst (run_state (removeJobCgroup os i c) w) = None \<and> D (snd (run_state (removeJobCgroup os i c) w)) = D w"
proof -
  obtain w' where "run_state (removeJobCgroup os i c) w = (None, w')" and "D w' = D w"
    using strict_kernel.removeJobCgroup_again [OF assms] by blast
  then show ?thesis by simp
qed

theorem removeJobCgroup_idempotent_witness:
  "fst (run_state (removeJobCgroup mem_os ''j1'' ''client1'') mem_one_client) = None"
proof -
  have "job_dir ''client1'' ''j1'' \<notin> set (m_dirs mem_one_client)"
    "map_of (m_files mem_one_client) (job_dir ''client1'' ''j1'') = None"
    by (simp_all add: mem_one_client_def mem_boot_def job_dir_def)
  then show ?thesis
    using removeJobCgroup_idempotent [OF mem.strict_kernel_axioms, of "''client1''" "''j1''" mem_one_client]
    by (simp add: plain_name_def)
qed

text \<open>
  Property C32: when \<open>setupJobmasterCgroups\<close> succeeds, the parent directory and the directory of
  every client exist, and the io, cpu and memory controllers are enabled in each of them.
\<close>

theorem setup_makes_hierarchy:
  assumes "file_kernel os D F" and "run_state (setupJobmasterCgroups os cs) w = (None, w')"
    and "\<forall>c \<in> set cs. plain_name c"
  shows "parent_dir \<in> D w' \<and> F w' (controllers_file parent_dir) = Some ''+io +cpu +memory'' \<and>
    (\<forall>c \<in> set cs. client_dir c \<in> D w' \<and>
       F w' (controllers_file (client_dir c)) = Some ''+io +cpu +memory'')"
  using file_kernel.setup_ok [OF assms] file_kernel.enabled_def [OF assms(1)] by simp

theorem setup_makes_hierarchy_witness:
  "client_dir ''client2'' \<in>
     set (m_dirs (snd (run_state (setupJobmasterCgroups mem_os [''client1'', ''client2'']) mem_boot)))"
proof -
  have "fst (run_state (setupJobmasterCgroups mem_os [''client1'', ''client2'']) mem_boot) = None"
    by code_simp
  then have r: "run_state (setupJobmasterCgroups mem_os [''client1'', ''client2'']) mem_boot
      = (None, snd (run_state (setupJobmasterCgroups mem_os [''client1'', ''client2'']) mem_boot))"
    by (metis prod.collapse)
  show ?thesis
    using setup_makes_hierarchy [OF mem.file_kernel_axioms r] by (simp add: plain_name_def)
qed

text \<open>
  Fact: when \<open>TeardownJobmasterCgroups\<close> succeeds, no directory of a listed client and not
  the parent directory is left, and no directory was added.
\<close>

theorem teardown_removes_hierarchy:
  assumes "dir_kernel os D" and "run_state (TeardownJobmasterCgroups os cs) w = (None, w')"
    and "\<forall>c \<in> set cs. plain_name c"
  shows "parent_dir \<notin> D w' \<and> (\<forall>c \<in> set cs. client_dir c \<notin> D w') \<and> D w' \<subseteq> D w"
  by (rule dir_kernel.TeardownJobmasterCgroups_removes [OF assms])

theorem teardown_removes_hierarchy_witness:
  "client_dir ''client1'' \<notin>
     set (m_dirs (snd (run_state (TeardownJobmasterCgroups mem_os [''client1'', ''client2'']) mem_one_job)))"
proof -
  have "fst (run_state (TeardownJobmasterCgroups mem_os [''client1'', ''client2'']) mem_one_job) = None"
    by code_simp
  then have r: "run_state (TeardownJobmasterCgroups mem_os [''client1'', ''client2'']) mem_one_job
      = (None, snd (run_state (TeardownJobmasterCgroups mem_os [''client1'', ''client2'']) mem_one_job))"
    by (metis prod.collapse)
  show ?thesis
    using teardown_removes_hierarchy [OF mem.dir_kernel_axioms r] by (simp add: plain_name_def)
qed

end
