(* ===== verification/JobsLib.thy ===== *)
theory JobsLib
  imports Job Cgroups
begin

text \<open>
  \<open>jobslib/jobslib.go\<close>: the job library.  The Go struct \<open>JobsLib\<close> holds pointers to jobs that the
  goroutine of each job, \<open>Stop\<close> and the readers share; here the objects live in \<open>heap\<close>, a list
  that only grows, and a pointer is an index of it.  A method is split where the code takes the
  mutex \<open>mu\<close>: \<open>Start_unlocked\<close>/\<open>Start_locked\<close>, \<open>wait_job\<close>/\<open>finish_job\<close> (the goroutine) and
  \<open>Stop_unlocked\<close>/\<open>Stop_locked\<close>, the latter split again around its poll into \<open>Stop_enter\<close>,
  \<open>wait_gone\<close> and \<open>Stop_mark\<close>; theory \<open>JobsLibRun\<close> interleaves these pieces.

  \<open>Stop\<close> polls until the process has gone, holding the mutex: its result is an \<open>option\<close>, and
  \<open>None\<close> is the call that never returns.  Log output is left out.
\<close>

section \<open>The library object\<close>

record JobsLib =
  jobs :: "string \<rightharpoonup> nat"
  heap :: "Job list"
  clientToJobID :: "string \<rightharpoonup> string list"
  clientList :: "string list"
  outputDir :: string
  ioDevMajorMinor :: string

section \<open>The device identifier\<close>

text \<open>
  The regular expression \<open>^[0-9]{1,3}:[0-9]{1,3}$\<close>: a matcher gives the remainders of the text
  after every way to match a prefix; the anchors ask for the remainder to be empty.
\<close>

datatype regex = Class "char \<Rightarrow> bool" | Seq regex regex | Repeat regex nat nat

fun rep_match :: "(string \<Rightarrow> string list) \<Rightarrow> nat \<Rightarrow> nat \<Rightarrow> string \<Rightarrow> string list" where
  "rep_match f lo 0 s = (if lo = 0 then [s] else [])"
| "rep_match f lo (Suc hi) s =
     (if lo = 0 then [s] else []) @ concat (map (rep_match f (lo - 1) hi) (f s))"

primrec rx_match :: "regex \<Rightarrow> string \<Rightarrow> string list" where
  "rx_match (Class P) s = (case s of [] \<Rightarrow> [] | c # cs \<Rightarrow> if P c then [cs] else [])"
| "rx_match (Seq a b) s = concat (map (rx_match b) (rx_match a s))"
| "rx_match (Repeat a lo hi) s = rep_match (rx_match a) lo hi s"

definition digit :: "char \<Rightarrow> bool" where
  "digit c \<longleftrightarrow> 48 \<le> byte_val c \<and> byte_val c \<le> 57"

definition validDevID :: regex where
  "validDevID = Seq (Repeat (Class digit) 1 3)
                    (Seq (Class (\<lambda>c. c = CHR '':'')) (Repeat (Class digit) 1 3))"

definition validateIODeviceNumber :: "string \<Rightarrow> bool" where
  "validateIODeviceNumber s \<longleftrightarrow> list_ex (\<lambda>r. r = []) (rx_match validDevID s)"

section \<open>Lookup and copies\<close>

definition generateKsuidAsString :: "'w os \<Rightarrow> ('w, goerr + string) state" where
  "generateKsuidAsString os =
     unless_err (ksuid_NewRandom os)
       (\<lambda>err. State_Monad.return (Inl (Errorf ''failed generating KSUID: %w'' [] [err])))
       (\<lambda>ks. State_Monad.return (Inr ks))"

definition findJobByJobID :: "'w os \<Rightarrow> JobsLib \<Rightarrow> nat \<Rightarrow> string \<Rightarrow> ('w, goerr + nat) state" where
  "findJobByJobID os j ctx jobID =
     (if jobID = '''' then State_Monad.return (Inl (New ''cannot findJobByJobID, jobID is empty''))
      else iferr (ctx_err_of os ctx)
        (\<lambda>err. State_Monad.return (Inl (CtxErr err)))
        (State_Monad.return (case jobs j jobID of
             None \<Rightarrow> Inl (Errorf ''job with ID %q was not found'' [jobID] [])
           | Some theJob \<Rightarrow> Inr theJob)))"

definition copy_Job :: "Job \<Rightarrow> Job" where
  "copy_Job p = zero_Job\<lparr>ID := ID p, Mesg := Mesg p, ClientName := ClientName p, PID := PID p,
     JState := JState p, ExitCode := ExitCode p, SignalStr := SignalStr p, Command := Command p,
     CmdArgs := CmdArgs p, OutputFilePath := OutputFilePath p,
     StartedUnixMilli := StartedUnixMilli p, EndedUnixMilli := EndedUnixMilli p\<rparr>"

definition deepCopyJobFromPointer :: "'w os \<Rightarrow> JobsLib \<Rightarrow> nat \<Rightarrow> nat option \<Rightarrow> ('w, goerr + Job) state" where
  "deepCopyJobFromPointer os j ctx pJob =
     (case pJob of
        None \<Rightarrow> State_Monad.return (Inl (New ''source job pointer is nil''))
      | Some a \<Rightarrow> iferr (ctx_err_of os ctx)
          (\<lambda>err. State_Monad.return (Inl (CtxErr err)))
          (State_Monad.return (Inr (copy_Job (heap j ! a)))))"

definition findAndCopyJobByID :: "'w os \<Rightarrow> JobsLib \<Rightarrow> nat \<Rightarrow> string \<Rightarrow> ('w, goerr + Job) state" where
  "findAndCopyJobByID os j ctx jobID =
     unless_err (findJobByJobID os j ctx jobID)
       (\<lambda>err. State_Monad.return (Inl err))
       (\<lambda>a. deepCopyJobFromPointer os j ctx (Some a))"

section \<open>Creation\<close>

definition CreateJobsLib :: "'w os \<Rightarrow> string list \<Rightarrow> string \<Rightarrow> string \<Rightarrow> ('w, goerr + JobsLib) state" where
  "CreateJobsLib os clients outDir ioDev =
     (if clients = []
      then State_Monad.return (Inl (New ''cannot create JobsLib: clientList is empty''))
      else
        let dir = (if is_blank outDir then ''/tmp'' else outDir) in
        if \<not> validateIODeviceNumber ioDev
        then State_Monad.return (Inl (Errorf
               ''cannot create JobsLib: ioDevMajorMinor %q is not in a valid dev ID format'' [ioDev] []))
        else iferr (setupJobmasterCgroups os clients)
          (\<lambda>err. State_Monad.return (Inl (Errorf
             ''cannot create JobsLib: failed cgroup setup due to %w'' [] [err])))
          (State_Monad.return (Inr
             \<lparr>jobs = Map.empty, heap = [], clientToJobID = Map.empty, clientList = clients,
              outputDir = dir, ioDevMajorMinor = ioDev\<rparr>)))"

definition commonSanity :: "'w os \<Rightarrow> nat \<Rightarrow> string \<Rightarrow> string \<Rightarrow> bool \<Rightarrow> ('w, goerr option) state" where
  "commonSanity os ctx clientName jobID overrideClientCheck =
     (if \<not> overrideClientCheck \<and> clientName = ''''
      then State_Monad.return
        (Some (New ''clientName is empty and we were not told to override client checks''))
      else if jobID = '''' then State_Monad.return (Some (New ''jobID is empty''))
      else iferr (ctx_err_of os ctx)
        (\<lambda>err. State_Monad.return (Some (Errorf ''context reported error: %w'' [] [CtxErr err])))
        (State_Monad.return None))"

section \<open>Start\<close>

record started =
  st_job :: Job
  st_cgfd :: int
  st_joFile :: int
  st_pid :: int

text \<open>The part of \<open>Start\<close> before the mutex is taken; the deferred close of \<open>cgfd\<close> is written out.\<close>

definition launch_cmd ::
  "'w os \<Rightarrow> string \<Rightarrow> string \<Rightarrow> string \<Rightarrow> string list \<Rightarrow> int \<Rightarrow> string \<Rightarrow> ('w, goerr + started) state" where
  "launch_cmd os jobID clientName command cmdArgs cgfd jobOutputFilePath =
     unless_err (os_Create os jobOutputFilePath)
       (\<lambda>err. do {
          _ \<leftarrow> sys_Close os cgfd;
          State_Monad.return (Inl (Errorf
            ''cannot Start, failed to create job output log file %q: %w'' [jobOutputFilePath] [err]))
        })
     (\<lambda>joFile. do {
        startedUnixMilli \<leftarrow> now_UnixMilli os;
        unless_err (cmd_Start os command cmdArgs cgfd joFile)
          (\<lambda>err. do {
             _ \<leftarrow> file_Close os joFile;
             rErr \<leftarrow> os_Remove os jobOutputFilePath;
             _ \<leftarrow> sys_Close os cgfd;
             State_Monad.return (Inl (case rErr of
                 Some rErr \<Rightarrow> Errorf
                   ''cannot Start, command startup failed due to %w and removing the output file also errored with %w''
                   [] [err, rErr]
               | None \<Rightarrow> Errorf ''cannot Start, command startup failed: %w'' [] [err]))
           })
          (\<lambda>pid. State_Monad.return (Inr
             \<lparr>st_job = zero_Job\<lparr>ID := jobID, ClientName := clientName, PID := word_of_int pid,
                JState := Running, Command := command, CmdArgs := cmdArgs,
                OutputFilePath := jobOutputFilePath, StartedUnixMilli := startedUnixMilli\<rparr>,
              st_cgfd = cgfd, st_joFile = joFile, st_pid = pid\<rparr>))
      })"

definition Start_unlocked ::
  "'w os \<Rightarrow> string \<Rightarrow> string \<Rightarrow> nat \<Rightarrow> string \<Rightarrow> string \<Rightarrow> string list \<Rightarrow> ('w, goerr + started) state" where
  "Start_unlocked os outDir ioDev ctx clientName command cmdArgs =
     (if clientName = '''' then State_Monad.return (Inl (New ''cannot Start, clientName is empty''))
      else if command = '''' then State_Monad.return (Inl (New ''cannot Start, command is empty''))
      else iferr (verifyClientCgroup os clientName)
        (\<lambda>err. State_Monad.return (Inl (Errorf
           ''cannot Start, error verifying cgroup dir for %q: %w'' [clientName] [err])))
      (iferr (ctx_err_of os ctx)
        (\<lambda>err. State_Monad.return (Inl (CtxErr err)))
      (unless_err (generateKsuidAsString os)
        (\<lambda>err. State_Monad.return (Inl (Errorf ''cannot Start, failed generating job ID: %w'' [] [err])))
      (\<lambda>jobID. unless_err (createJobCgroup os jobID clientName ioDev)
        (\<lambda>err. State_Monad.return (Inl (Errorf ''cannot Start, failed to create job cgroup: %w'' [] [err])))
      (\<lambda>jcgPath. unless_err (sys_OpenDir os jcgPath)
        (\<lambda>err. State_Monad.return (Inl (Errorf
           ''cannot Start, failed to get fd handle to job cgroup dir %q: %w'' [jcgPath] [err])))
      (\<lambda>cgfd. launch_cmd os jobID clientName command cmdArgs cgfd
                 (filepath_Join [outDir, jobID @ ''.log''])))))))"

text \<open>The critical section of \<open>Start\<close>: a new object, entered in both maps.\<close>

definition Start_locked :: "JobsLib \<Rightarrow> Job \<Rightarrow> JobsLib" where
  "Start_locked j job =
     (let c = ClientName job in
      j\<lparr>heap := heap j @ [job],
        jobs := (jobs j)(ID job \<mapsto> length (heap j)),
        clientToJobID := (clientToJobID j)(c \<mapsto>
          (case clientToJobID j c of None \<Rightarrow> [] | Some l \<Rightarrow> l) @ [ID job])\<rparr>)"

text \<open>
  \<open>Start\<close>: besides the result and the new library, the goroutine it starts, as the pointer and
  the process it will wait for.
\<close>

definition Start ::
  "'w os \<Rightarrow> JobsLib \<Rightarrow> nat \<Rightarrow> string \<Rightarrow> string \<Rightarrow> string list
     \<Rightarrow> ('w, (goerr + string) \<times> JobsLib \<times> (nat \<times> int) option) state" where
  "Start os j ctx clientName command cmdArgs =
     unless_err (Start_unlocked os (outputDir j) (ioDevMajorMinor j) ctx clientName command cmdArgs)
       (\<lambda>err. State_Monad.return (Inl err, j, None))
       (\<lambda>st. do {
          let a = length (heap j);
          let j' = Start_locked j (st_job st);
          _ \<leftarrow> file_Close os (st_joFile st);
          _ \<leftarrow> sys_Close os (st_cgfd st);
          State_Monad.return (Inr (ID (st_job st)), j', Some (a, st_pid st))
        })"

section \<open>The goroutine of a job\<close>

record outcome =
  oc_exitcode :: int
  oc_sigStr :: string
  oc_pmsg :: string

definition exit_code_of :: "wait_status \<Rightarrow> int" where
  "exit_code_of ws = (case ws of Exited n \<Rightarrow> n | Signaled s \<Rightarrow> -1)"

definition signal_of :: "wait_status \<Rightarrow> int" where
  "signal_of ws = (case ws of Exited n \<Rightarrow> -1 | Signaled s \<Rightarrow> s)"

text \<open>
  \<open>pmsg\<close> is read from \<open>cmd.ProcessState\<close> before \<open>cmd.Wait\<close> has set it: the method \<open>String\<close> of a
  nil \<open>*os.ProcessState\<close> gives \<open><nil>\<close>.
\<close>

definition wait_outcome :: "unicode \<Rightarrow> wait_result \<Rightarrow> outcome" where
  "wait_outcome u r =
     (let pmsg = ''<nil>'' in
      case r of
        WaitOk \<Rightarrow> \<lparr>oc_exitcode = 0, oc_sigStr = '''', oc_pmsg = pmsg\<rparr>
      | WaitExit ws \<Rightarrow>
          \<lparr>oc_exitcode = exit_code_of ws,
           oc_sigStr = (if exit_code_of ws = -1 then signal_String (signal_of ws) else ''''),
           oc_pmsg = pmsg\<rparr>
      | WaitFail err \<Rightarrow>
          \<lparr>oc_exitcode = 0, oc_sigStr = '''', oc_pmsg = pmsg @ '', '' @ error_text u err\<rparr>)"

definition wait_job :: "'w os \<Rightarrow> string \<Rightarrow> string \<Rightarrow> int \<Rightarrow> ('w, outcome) state" where
  "wait_job os jobID clientName pid = do {
     r \<leftarrow> cmd_Wait os pid;
     let oc = wait_outcome (os_unicode os) r;
     iferr (removeJobCgroup os jobID clientName)
       (\<lambda>err. State_Monad.return
          (oc\<lparr>oc_pmsg := oc_pmsg oc @ '', error removing job cgroup: '' @ error_text (os_unicode os) err\<rparr>))
       (State_Monad.return oc)
   }"

definition finish_fields :: "outcome \<Rightarrow> Job \<Rightarrow> Job" where
  "finish_fields oc job = job\<lparr>ExitCode := oc_exitcode oc, SignalStr := oc_sigStr oc,
     Mesg := TrimSpace (Mesg job @ '' '' @ oc_pmsg oc)\<rparr>"

text \<open>The critical section of the goroutine.\<close>

definition finish_job :: "'w os \<Rightarrow> JobsLib \<Rightarrow> nat \<Rightarrow> outcome \<Rightarrow> ('w, JobsLib) state" where
  "finish_job os j a oc =
     (let job = finish_fields oc (heap j ! a) in
      if JState job \<noteq> TerminatedByAPI
      then do {
        t \<leftarrow> now_UnixMilli os;
        State_Monad.return (j\<lparr>heap := (heap j)[a := job\<lparr>JState := Completed, EndedUnixMilli := t\<rparr>]\<rparr>)
      }
      else State_Monad.return (j\<lparr>heap := (heap j)[a := job]\<rparr>))"

section \<open>Status\<close>

definition Status :: "'w os \<Rightarrow> JobsLib \<Rightarrow> nat \<Rightarrow> string \<Rightarrow> string \<Rightarrow> bool \<Rightarrow> ('w, goerr + Job) state" where
  "Status os j ctx clientName jobID overrideClientCheck =
     iferr (commonSanity os ctx clientName jobID overrideClientCheck)
       (\<lambda>err. State_Monad.return (Inl (Errorf ''cannot get Status, sanity check failed: %w'' [] [err])))
     (unless_err (findAndCopyJobByID os j ctx jobID)
       (\<lambda>err. State_Monad.return (Inl (Errorf ''cannot get Status, %w'' [] [err])))
     (\<lambda>theJob. State_Monad.return
        (if ClientName theJob \<noteq> clientName \<and> \<not> overrideClientCheck
         then Inl (Errorf ''cannot get Status, job with ID %q does not belong to client %q''
                     [jobID, clientName] [])
         else Inr theJob)))"

section \<open>Stop\<close>

definition Stop_unlocked ::
  "'w os \<Rightarrow> JobsLib \<Rightarrow> nat \<Rightarrow> string \<Rightarrow> string \<Rightarrow> bool \<Rightarrow> ('w, goerr + nat \<times> Job) state" where
  "Stop_unlocked os j ctx clientName jobID overrideClientCheck =
     iferr (commonSanity os ctx clientName jobID overrideClientCheck)
       (\<lambda>err. State_Monad.return (Inl (Errorf ''cannot Stop, sanity check failed: %w'' [] [err])))
     (iferr (verifyClientCgroup os clientName)
       (\<lambda>err. State_Monad.return (Inl (Errorf
          ''cannot Stop, error verifying cgroup dir for %q: %w'' [clientName] [err])))
     (unless_err (findJobByJobID os j ctx jobID)
       (\<lambda>err. State_Monad.return (Inl (Errorf ''cannot Stop, %w'' [] [err])))
     (\<lambda>theJob. iferr (ctx_err_of os ctx)
       (\<lambda>err. State_Monad.return (Inl (Errorf ''cannot Stop, %w'' [] [CtxErr err])))
     (unless_err (deepCopyJobFromPointer os j ctx (Some theJob))
       (\<lambda>err. State_Monad.return (Inl (Errorf
          ''Failed copying job from pointer for jobID %q: %w'' [jobID] [err])))
     (\<lambda>retval. State_Monad.return (Inr (theJob, retval)))))))"

text \<open>The polling loop: it returns once a probe of the process gives an error.\<close>

partial_function (option) wait_gone :: "'w os \<Rightarrow> int \<Rightarrow> 'w \<Rightarrow> 'w option" where
  "wait_gone os pid w =
     (case run_state (sig_probe os pid) w of
        (None, w') \<Rightarrow> wait_gone os pid (snd (run_state (sleep_ms os 10) w'))
      | (Some perr, w') \<Rightarrow> Some w')"

declare wait_gone.simps [code]

definition stop_fields :: "int \<Rightarrow> Job \<Rightarrow> Job" where
  "stop_fields t job = job\<lparr>JState := TerminatedByAPI, EndedUnixMilli := t,
     Mesg := TrimSpace (Mesg job @ '' Stop/Termination requested by API''),
     ExitCode := -1, SignalStr := ''SIGKILL''\<rparr>"

text \<open>After the poll: the cgroup directory is removed and both objects are updated.\<close>

definition Stop_mark ::
  "'w os \<Rightarrow> JobsLib \<Rightarrow> string \<Rightarrow> string \<Rightarrow> nat \<Rightarrow> Job \<Rightarrow> ('w, (goerr + Job) \<times> JobsLib) state" where
  "Stop_mark os j clientName jobID theJob retval =
     iferr (removeJobCgroup os jobID clientName)
       (\<lambda>err. State_Monad.return (Inl (Errorf ''cannot Stop, cgroup func error: %w'' [] [err]), j))
       (do {
          t1 \<leftarrow> now_UnixMilli os;
          t2 \<leftarrow> now_UnixMilli os;
          State_Monad.return (Inr (stop_fields t2 retval),
            j\<lparr>heap := (heap j)[theJob := stop_fields t1 (heap j ! theJob)]\<rparr>)
        })"

text \<open>
  The critical section up to the poll: the checks and the kill.  It gives the result of the call when
  that ends here, and \<open>None\<close> when the poll comes next.
\<close>

definition Stop_enter ::
  "'w os \<Rightarrow> JobsLib \<Rightarrow> string \<Rightarrow> string \<Rightarrow> bool \<Rightarrow> nat \<Rightarrow> Job \<Rightarrow> ('w, (goerr + Job) option) state" where
  "Stop_enter os j clientName jobID overrideClientCheck theJob retval =
     (let job = heap j ! theJob in
      if ClientName job \<noteq> clientName \<and> \<not> overrideClientCheck
      then State_Monad.return (Some (Inl (Errorf ''cannot Stop, job with ID %q does not belong to client %q''
                                       [jobID, clientName] [])))
      else if job_ended job then State_Monad.return (Some (Inr retval))
      else iferr (terminateJob os jobID clientName)
        (\<lambda>err. State_Monad.return (Some (Inl err)))
        (State_Monad.return None))"

definition Stop_locked ::
  "'w os \<Rightarrow> JobsLib \<Rightarrow> string \<Rightarrow> string \<Rightarrow> bool \<Rightarrow> nat \<Rightarrow> Job \<Rightarrow> 'w
     \<Rightarrow> (((goerr + Job) \<times> JobsLib) \<times> 'w) option" where
  "Stop_locked os j clientName jobID overrideClientCheck theJob retval w =
     (case run_state (Stop_enter os j clientName jobID overrideClientCheck theJob retval) w of
        (Some r, w1) \<Rightarrow> Some ((r, j), w1)
      | (None, w1) \<Rightarrow>
          (case wait_gone os (sint (PID (heap j ! theJob))) w1 of
             None \<Rightarrow> None
           | Some w2 \<Rightarrow> Some (run_state (Stop_mark os j clientName jobID theJob retval) w2)))"

definition Stop ::
  "'w os \<Rightarrow> JobsLib \<Rightarrow> nat \<Rightarrow> string \<Rightarrow> string \<Rightarrow> bool \<Rightarrow> 'w
     \<Rightarrow> (((goerr + Job) \<times> JobsLib) \<times> 'w) option" where
  "Stop os j ctx clientName jobID overrideClientCheck w =
     (case run_state (Stop_unlocked os j ctx clientName jobID overrideClientCheck) w of
        (Inl err, w1) \<Rightarrow> Some ((Inl err, j), w1)
      | (Inr (theJob, retval), w1) \<Rightarrow>
          Stop_locked os j clientName jobID overrideClientCheck theJob retval w1)"

section \<open>StreamOutputSetup\<close>

definition StreamOutputSetup ::
  "'w os \<Rightarrow> JobsLib \<Rightarrow> nat \<Rightarrow> string \<Rightarrow> string \<Rightarrow> bool \<Rightarrow> ('w, goerr + Job) state" where
  "StreamOutputSetup os j ctx clientName jobID overrideClientCheck =
     iferr (commonSanity os ctx clientName jobID overrideClientCheck)
       (\<lambda>err. State_Monad.return (Inl (Errorf ''cannot StreamOutputSetup, sanity check failed: %w'' [] [err])))
     (unless_err (findAndCopyJobByID os j ctx jobID)
       (\<lambda>err. State_Monad.return (Inl (Errorf ''cannot StreamOutputSetup, %w'' [] [err])))
     (\<lambda>theJob.
        if ClientName theJob \<noteq> clientName \<and> \<not> overrideClientCheck
        then State_Monad.return (Inl (Errorf
               ''cannot StreamOutputSetup, job with ID %q does not belong to client %q''
               [jobID, clientName] []))
        else iferr (ctx_err_of os ctx)
          (\<lambda>err. State_Monad.return (Inl (Errorf ''cannot StreamOutputSetup, %w'' [] [CtxErr err])))
          (State_Monad.return (Inr theJob))))"

section \<open>The device identifier, as the documentation states it\<close>

lemma class_match [simp]:
  "rx_match (Class P) [] = []" "rx_match (Class P) (c # cs) = (if P c then [cs] else [])"
  by simp_all

declare rx_match.simps(1) [simp del]

lemma rep_match_digits:
  "[] \<in> set (rep_match (rx_match (Class P)) lo hi s) \<longleftrightarrow>
     list_all P s \<and> lo \<le> length s \<and> length s \<le> max lo hi \<and> (lo \<le> hi)"
  if "lo \<le> hi" for hi lo
  using that
proof (induction hi arbitrary: lo s)
  case 0
  then show ?case by auto
next
  case (Suc hi)
  have "lo - 1 \<le> hi" using Suc.prems by simp
  note IH = Suc.IH [OF this]
  show ?case
  proof (cases s)
    case Nil
    then show ?thesis by auto
  next
    case (Cons c cs)
    then show ?thesis using Suc.prems IH [of cs] by auto
  qed
qed

lemma rep_match_remainder:
  "r \<in> set (rep_match (rx_match (Class P)) lo hi s) \<Longrightarrow> lo \<le> hi \<Longrightarrow>
     \<exists>d. s = d @ r \<and> list_all P d \<and> lo \<le> length d \<and> length d \<le> hi"
proof (induction hi arbitrary: lo s)
  case 0
  then show ?case by (auto split: if_splits)
next
  case (Suc hi)
  show ?case
  proof (cases "lo = 0 \<and> r = s")
    case True
    then show ?thesis by (intro exI [of _ "[]"]) simp
  next
    case False
    then obtain c cs where s: "s = c # cs" and c: "P c"
      and m: "r \<in> set (rep_match (rx_match (Class P)) (lo - 1) hi cs)"
      using Suc.prems(1) by (cases s) (auto split: if_splits)
    have "lo - 1 \<le> hi" using Suc.prems(2) by simp
    from Suc.IH [OF m this] obtain d where "cs = d @ r" "list_all P d" "lo - 1 \<le> length d" "length d \<le> hi"
      by auto
    with s c show ?thesis by (intro exI [of _ "c # d"]) auto
  qed
qed

lemma rep_match_complete:
  "list_all P d \<Longrightarrow> lo \<le> length d \<Longrightarrow> length d \<le> hi \<Longrightarrow>
     r \<in> set (rep_match (rx_match (Class P)) lo hi (d @ r))"
proof (induction hi arbitrary: lo d)
  case 0
  then show ?case by simp
next
  case (Suc hi)
  show ?case
  proof (cases d)
    case Nil
    with Suc.prems show ?thesis by simp
  next
    case (Cons c cs)
    with Suc.prems Suc.IH [of cs "lo - 1"] show ?thesis by auto
  qed
qed

text \<open>
  Property C34: \<open>validateIODeviceNumber\<close> accepts exactly one to three decimal digits, a colon, and
  one to three decimal digits, as its comment says.
\<close>

theorem validateIODeviceNumber_iff:
  "validateIODeviceNumber s \<longleftrightarrow>
     (\<exists>a b. s = a @ '':'' @ b \<and> list_all digit (a @ b) \<and>
        length a \<in> {1..3} \<and> length b \<in> {1..3})"
proof
  assume "validateIODeviceNumber s"
  then obtain r where r: "r \<in> set (rep_match (rx_match (Class digit)) 1 3 s)"
    and e: "[] \<in> set (concat (map (rx_match (Repeat (Class digit) 1 3))
              (rx_match (Class (\<lambda>c. c = CHR '':'')) r)))"
    by (auto simp: validateIODeviceNumber_def validDevID_def list_ex_iff)
  obtain a where a: "s = a @ r" "list_all digit a" "1 \<le> length a" "length a \<le> 3"
    using rep_match_remainder [OF r] by auto
  from e obtain b where b: "r = CHR '':'' # b" "[] \<in> set (rep_match (rx_match (Class digit)) 1 3 b)"
    by (cases r) (auto split: if_splits)
  then have "list_all digit b" "1 \<le> length b" "length b \<le> 3"
    using rep_match_digits [of 1 3 digit b] by auto
  with a b show "\<exists>a b. s = a @ '':'' @ b \<and> list_all digit (a @ b) \<and>
      length a \<in> {1..3} \<and> length b \<in> {1..3}"
    by (intro exI [of _ a] exI [of _ b]) simp
next
  assume "\<exists>a b. s = a @ '':'' @ b \<and> list_all digit (a @ b) \<and>
      length a \<in> {1..3} \<and> length b \<in> {1..3}"
  then obtain a b where s: "s = a @ CHR '':'' # b" and d: "list_all digit a" "list_all digit b"
    and l: "1 \<le> length a" "length a \<le> 3" "1 \<le> length b" "length b \<le> 3"
    by auto
  have "CHR '':'' # b \<in> set (rep_match (rx_match (Class digit)) 1 3 s)"
    using rep_match_complete [OF d(1) l(1,2)] s by simp
  moreover have "[] \<in> set (rep_match (rx_match (Class digit)) 1 3 b)"
    using rep_match_complete [OF d(2) l(3,4), of "[]"] by simp
  ultimately show "validateIODeviceNumber s"
    by (force simp: validateIODeviceNumber_def validDevID_def list_ex_iff)
qed

section \<open>Access to jobs\<close>

lemma copy_Job_id [simp]: "copy_Job p = p"
  by (simp add: copy_Job_def zero_Job_def)

text \<open>
  What the readers of jobs promise their callers: a job is given out only if it is the job stored
  under the identifier, and only to its owner unless the check is overridden.
\<close>

definition may_access :: "JobsLib \<Rightarrow> string \<Rightarrow> string \<Rightarrow> bool \<Rightarrow> Job \<Rightarrow> bool" where
  "may_access j clientName jobID overrideClientCheck job \<longleftrightarrow>
     (\<exists>a. jobs j jobID = Some a \<and> job = heap j ! a) \<and>
     (overrideClientCheck \<or> ClientName job = clientName)"

locale job_reader =
  fixes j :: JobsLib
    and query :: "nat \<Rightarrow> string \<Rightarrow> string \<Rightarrow> bool \<Rightarrow> ('w, goerr + Job) state"
  assumes access: "run_state (query ctx clientName jobID ovr) w = (Inr job, w')
      \<Longrightarrow> may_access j clientName jobID ovr job"
begin

lemma not_owner_refused:
  assumes "jobs j jobID = Some a" and "ClientName (heap j ! a) \<noteq> clientName"
  shows "\<exists>e. fst (run_state (query ctx clientName jobID False) w) = Inl e"
proof (cases "run_state (query ctx clientName jobID False) w")
  case (Pair r w')
  with assms access [of ctx clientName jobID False w] show ?thesis
    by (cases r) (auto simp: may_access_def)
qed

lemma unknown_refused:
  assumes "jobs j jobID = None"
  shows "\<exists>e. fst (run_state (query ctx clientName jobID ovr) w) = Inl e"
proof (cases "run_state (query ctx clientName jobID ovr) w")
  case (Pair r w')
  with assms access [of ctx clientName jobID ovr w] show ?thesis
    by (cases r) (auto simp: may_access_def)
qed

end

lemmas query_defs = commonSanity_def findAndCopyJobByID_def findJobByJobID_def deepCopyJobFromPointer_def

interpretation status: job_reader j "Status os j" for os :: "'w os" and j
  by unfold_locales
    (auto simp: Status_def query_defs go_run may_access_def split: go_split)

interpretation stream_setup: job_reader j "StreamOutputSetup os j" for os :: "'w os" and j
  by unfold_locales
    (auto simp: StreamOutputSetup_def query_defs go_run may_access_def split: go_split)

definition ctx_live :: "'w os \<Rightarrow> nat \<Rightarrow> bool" where
  "ctx_live os ctx \<longleftrightarrow> (\<forall>w. fst (run_state (ctx_err_of os ctx) w) = None)"

lemma ctx_liveD: "ctx_live os ctx \<Longrightarrow> run_state (ctx_err_of os ctx) w = (None, snd (run_state (ctx_err_of os ctx) w))"
  unfolding ctx_live_def by (metis prod.collapse)

lemma ctx_live_run [simp]:
  "ctx_live os ctx \<Longrightarrow> (case run_state (ctx_err_of os ctx) w of (Some e, w') \<Rightarrow> f e w' | (None, w') \<Rightarrow> g w')
     = g (snd (run_state (ctx_err_of os ctx) w))"
  by (subst ctx_liveD) simp_all

text \<open>
  Property C24: with a live context and non-empty names, \<open>Status\<close> answers exactly the jobs the
  caller may access: the job stored under the identifier, to its owner or with the override.
\<close>

theorem Status_exact:
  assumes "ctx_live os ctx" and "jobID \<noteq> ''''" and "clientName \<noteq> ''''"
  shows "fst (run_state (Status os j ctx clientName jobID ovr) w) = Inr job
     \<longleftrightarrow> may_access j clientName jobID ovr job"
  using assms
  by (auto simp: Status_def query_defs go_run may_access_def split: option.split)

text \<open>
  Fact: \<open>Status\<close> and \<open>StreamOutputSetup\<close> without the override refuse the job of another
  client with an error, in every world.
\<close>

theorem readers_refuse_other_clients:
  assumes "jobs j jobID = Some a" and "ClientName (heap j ! a) \<noteq> clientName"
  shows "(\<exists>e. fst (run_state (Status os j ctx clientName jobID False) w) = Inl e) \<and>
    (\<exists>e. fst (run_state (StreamOutputSetup os j ctx clientName jobID False) w) = Inl e)"
  by (rule conjI [OF status.not_owner_refused [OF assms] stream_setup.not_owner_refused [OF assms]])

definition sample_job :: Job where
  "sample_job = zero_Job\<lparr>ID := ''j1'', ClientName := ''client1'', PID := 4242, JState := Running,
     Command := ''ls'', StartedUnixMilli := 1, OutputFilePath := ''/tmp/j1.log''\<rparr>"

definition sample_lib :: JobsLib where
  "sample_lib = \<lparr>jobs = [''j1'' \<mapsto> 0], heap = [sample_job], clientToJobID = [''client1'' \<mapsto> [''j1'']],
     clientList = [''client1'', ''superuser''], outputDir = ''/tmp'', ioDevMajorMinor = ''8:0''\<rparr>"

lemma mem_ctx_live [simp]: "ctx_live mem_os ctx"
  by (simp add: ctx_live_def mem_os_run)

theorem Status_exact_witness:
  "fst (run_state (Status mem_os sample_lib 0 ''client1'' ''j1'' False) mem_boot) = Inr sample_job"
  using Status_exact [of mem_os 0 "''j1''" "''client1''" sample_lib False mem_boot sample_job]
  by (simp add: may_access_def sample_lib_def sample_job_def)

theorem readers_refuse_other_clients_witness:
  "\<exists>e. fst (run_state (Status mem_os sample_lib 0 ''client2'' ''j1'' False) mem_boot) = Inl e"
  using readers_refuse_other_clients [of sample_lib "''j1''" 0 "''client2''" mem_os 0 mem_boot]
  by (simp add: sample_lib_def sample_job_def)

section \<open>Start\<close>

lemma launch_cmd_job:
  assumes "run_state (launch_cmd os i c cmd args cgfd path) w = (Inr st, w')"
  shows "\<exists>t pid. st_job st = zero_Job\<lparr>ID := i, ClientName := c, PID := word_of_int pid, JState := Running,
      Command := cmd, CmdArgs := args, OutputFilePath := path, StartedUnixMilli := t\<rparr> \<and> st_pid st = pid
      \<and> st_cgfd st = cgfd"
  using assms by (auto simp: launch_cmd_def go_run split: go_split)

lemma Start_unlocked_job:
  assumes "run_state (Start_unlocked os outDir dev ctx c cmd args) w = (Inr st, w')"
  shows "c \<noteq> '''' \<and> cmd \<noteq> '''' \<and> (\<exists>t i. i \<noteq> '''' \<and>
     st_job st = zero_Job\<lparr>ID := i, ClientName := c, PID := word_of_int (st_pid st), JState := Running,
       Command := cmd, CmdArgs := args, OutputFilePath := filepath_Join [outDir, i @ ''.log''],
       StartedUnixMilli := t\<rparr>)"
proof -
  obtain i cgfd w1 w2 p w3 where
    l: "run_state (launch_cmd os i c cmd args cgfd (filepath_Join [outDir, i @ ''.log''])) w1 = (Inr st, w')"
    and n: "c \<noteq> ''''" "cmd \<noteq> ''''"
    and cr: "run_state (createJobCgroup os i c dev) w2 = (Inr p, w3)"
    using assms by (auto simp: Start_unlocked_def go_run split: go_split)
  have "i \<noteq> ''''" using cr by (auto simp: createJobCgroup_def go_run)
  then show ?thesis using launch_cmd_job [OF l] n by auto
qed

lemma Start_ok:
  assumes "run_state (Start os j ctx c cmd args) w = ((Inr i, j', g), w')"
  shows "\<exists>job pid. j' = Start_locked j job \<and> g = Some (length (heap j), pid) \<and>
    heap j' ! length (heap j) = job \<and> jobs j' i = Some (length (heap j)) \<and>
    c \<noteq> '''' \<and> cmd \<noteq> '''' \<and> ID job = i \<and> i \<noteq> '''' \<and> ClientName job = c \<and> JState job = Running \<and> PID job = word_of_int pid \<and>
    Command job = cmd \<and> CmdArgs job = args \<and> ExitCode job = 0 \<and> SignalStr job = '''' \<and> Mesg job = '''' \<and>
    EndedUnixMilli job = 0 \<and> OutputFilePath job = filepath_Join [outputDir j, i @ ''.log'']"
proof -
  obtain st w1 where u: "run_state (Start_unlocked os (outputDir j) (ioDevMajorMinor j) ctx c cmd args) w = (Inr st, w1)"
    and r: "i = ID (st_job st)" "j' = Start_locked j (st_job st)" "g = Some (length (heap j), st_pid st)"
    using assms by (auto simp: Start_def go_run Let_def split: go_split)
  from Start_unlocked_job [OF u] r show ?thesis
    by (intro exI [of _ "st_job st"] exI [of _ "st_pid st"])
      (auto simp: Start_locked_def Let_def zero_Job_def nth_append)
qed

text \<open>
  Fact: a successful \<open>Start\<close> adds one object for the job, in state Running, owned by the
  caller, with the given command, the log file of its identifier under the output directory and the
  process identifier cut to 32 bits; the goroutine it starts waits for that object and process, and
  the maps change as the critical section says.
\<close>

theorem Start_registers_running_job:
  assumes "run_state (Start os j ctx c cmd args) w = ((Inr i, j', g), w')"
  shows "\<exists>job pid. j' = Start_locked j job \<and> g = Some (length (heap j), pid) \<and>
    heap j' ! length (heap j) = job \<and> jobs j' i = Some (length (heap j)) \<and>
    ID job = i \<and> i \<noteq> '''' \<and> ClientName job = c \<and> JState job = Running \<and> PID job = word_of_int pid \<and>
    Command job = cmd \<and> CmdArgs job = args \<and> ExitCode job = 0 \<and> SignalStr job = '''' \<and> Mesg job = '''' \<and>
    EndedUnixMilli job = 0 \<and> OutputFilePath job = filepath_Join [outputDir j, i @ ''.log'']"
  using Start_ok [OF assms] by blast

text \<open>
  Fact: a failed \<open>Start\<close> leaves the library as it was and starts no goroutine.
\<close>

theorem Start_error_changes_nothing:
  assumes "run_state (Start os j ctx c cmd args) w = ((Inl e, j', g), w')"
  shows "j' = j \<and> g = None"
  using assms by (auto simp: Start_def go_run Let_def split: go_split)

definition mem_start_result :: "((goerr + string) \<times> JobsLib \<times> (nat \<times> int) option) \<times> memw" where
  "mem_start_result = run_state (Start mem_os sample_lib 0 ''client1'' ''ls'' [''-l'']) mem_one_client"

lemma mem_start_run:
  "run_state (Start mem_os sample_lib 0 ''client1'' ''ls'' [''-l'']) mem_one_client =
     ((fst (fst mem_start_result), fst (snd (fst mem_start_result)), snd (snd (fst mem_start_result))),
      snd mem_start_result)"
  by (simp add: mem_start_result_def)

lemma mem_start_id: "fst (fst mem_start_result) = Inr ''job100''"
  unfolding mem_start_result_def by code_simp

theorem Start_registers_running_job_witness:
  "\<exists>job. heap (fst (snd (fst mem_start_result))) ! 1 = job \<and> ID job = ''job100'' \<and> JState job = Running"
  using Start_registers_running_job [OF mem_start_run [unfolded mem_start_id]]
  by (auto simp: sample_lib_def)

theorem Start_error_changes_nothing_witness:
  "fst (snd (fst (run_state (Start mem_os sample_lib 0 ''client1'' '''' []) mem_boot))) = sample_lib"
proof -
  have "run_state (Start mem_os sample_lib 0 ''client1'' '''' []) mem_boot
      = ((Inl (New ''cannot Start, command is empty''), sample_lib, None), mem_boot)"
    by (simp add: Start_def Start_unlocked_def go_run)
  with Start_error_changes_nothing [OF this] show ?thesis by simp
qed

context start_kernel
begin

lemma launch_cmd_keeps:
  assumes "run_state (launch_cmd os i c cmd args cgfd path) w = (r, w')" and "d \<noteq> path" and "d \<in> dirs w"
  shows "d \<in> dirs w'"
proof -
  have rm: "d \<in> dirs u \<longrightarrow> d \<in> dirs v" if "run_state (os_Remove os path) u = (x, v)" for u v x
    using remove_dirs [OF that] assms(2) by auto
  show ?thesis
    using assms
    by (auto simp: launch_cmd_def go_run split: go_split
        dest!: create_dirs close_dirs now_dirs exec_dirs fclose_dirs rm)
qed

lemma verifyClientCgroup_dirs: "run_state (verifyClientCgroup os c) w = (r, w') \<Longrightarrow> dirs w' = dirs w"
  by (auto simp: verifyClientCgroup_def go_run Let_def split: go_split dest!: stat_dirs)

lemma Start_unlocked_leak:
  assumes run: "run_state (Start_unlocked os (abspath ds) dev ctx c cmd args) w
      = (Inl (Errorf ''cannot Start, command startup failed: %w'' [] es), w')"
    and c: "plain_name c" and ds: "ds \<noteq> []" "\<forall>d \<in> set ds. plain_name d"
  shows "\<exists>i. job_dir c i \<in> dirs w' \<and> job_dir c i \<notin> dirs w"
proof -
  obtain w1 w2 w3 w4 w5 i p cgfd where
    v: "run_state (verifyClientCgroup os c) w = (None, w1)" and
    x: "run_state (ctx_err_of os ctx) w1 = (None, w2)" and
    k: "run_state (ksuid_NewRandom os) w2 = (Inr i, w3)" and
    cr: "run_state (createJobCgroup os i c dev) w3 = (Inr p, w4)" and
    o: "run_state (sys_OpenDir os p) w4 = (Inr cgfd, w5)" and
    l: "run_state (launch_cmd os i c cmd args cgfd (filepath_Join [abspath ds, i @ ''.log''])) w5
        = (Inl (Errorf ''cannot Start, command startup failed: %w'' [] es), w')"
    using run by (auto simp: Start_unlocked_def generateKsuidAsString_def go_run split: go_split)
  have i: "plain_name i" by (rule ksuid_plain [OF k])
  then have "plain_name (i @ ''.log'')" by (auto simp: plain_name_def)
  then have path: "filepath_Join [abspath ds, i @ ''.log''] = abspath (ds @ [i @ ''.log''])"
    using ds by (subst Join_abspath) auto
  have "abspath (ds @ [i @ ''.log'']) \<noteq> job_dir c i"
  proof
    assume "abspath (ds @ [i @ ''.log'']) = job_dir c i"
    then have "ds @ [i @ ''.log''] = [''sys'', ''fs'', ''cgroup'', ''jobmaster'', c, i]"
      using ds i c \<open>plain_name (i @ ''.log'')\<close> unfolding job_dir_def by (subst (asm) abspath_inject) auto
    then have "last (ds @ [i @ ''.log'']) = last [''sys'', ''fs'', ''cgroup'', ''jobmaster'', c, i]" by (rule arg_cong)
    then show False by simp
  qed
  moreover obtain wm where mk: "run_state (os_Mkdir os (job_dir c i)) w3 = (None, wm)"
    and dm: "p = job_dir c i" "dirs w4 = dirs wm"
    using createJobCgroup_ok_calls [OF c i cr] by (auto dest!: write_dirs)
  ultimately have "job_dir c i \<in> dirs w'"
    using launch_cmd_keeps [OF l, of "job_dir c i"] open_dirs [OF o] mkdir_ok [OF mk] path by simp
  moreover have "job_dir c i \<notin> dirs w"
    using mkdir_ok [OF mk] verifyClientCgroup_dirs [OF v] ctx_dirs [OF x] ksuid_dirs [OF k] by simp
  ultimately show ?thesis by blast
qed

end

text \<open>
  Fact: when the command cannot be started, \<open>Start\<close> returns its error without removing the
  cgroup it made for the job: a directory that did not exist before is left under the client's
  directory, and the library has no entry that would ever lead to its removal.
\<close>

theorem Start_error_leaves_cgroup:
  assumes "start_kernel os D" and "plain_name c"
    and "outputDir j = abspath ds" and "ds \<noteq> []" and "\<forall>d \<in> set ds. plain_name d"
    and "run_state (Start os j ctx c cmd args) w
      = ((Inl (Errorf ''cannot Start, command startup failed: %w'' [] es), j', g), w')"
  shows "j' = j \<and> (\<exists>i. job_dir c i \<in> D w' \<and> job_dir c i \<notin> D w)"
proof -
  have "run_state (Start_unlocked os (abspath ds) (ioDevMajorMinor j) ctx c cmd args) w
      = (Inl (Errorf ''cannot Start, command startup failed: %w'' [] es), w')" and "j' = j"
    using assms(3,6) by (auto simp: Start_def go_run Let_def split: go_split)
  with start_kernel.Start_unlocked_leak [OF assms(1) _ assms(2,4,5)] show ?thesis by blast
qed

definition mem_no_command :: memw where
  "mem_no_command = mem_one_client\<lparr>m_deny := [''nosuch'']\<rparr>"

theorem Start_error_leaves_cgroup_witness:
  "\<exists>i. job_dir ''client1'' i \<in> set (m_dirs (snd
     (run_state (Start mem_os sample_lib 0 ''client1'' ''nosuch'' []) mem_no_command)))"
proof -
  let ?r = "run_state (Start mem_os sample_lib 0 ''client1'' ''nosuch'' []) mem_no_command"
  have "fst (fst ?r) = Inl (Errorf ''cannot Start, command startup failed: %w'' []
          [PathError ''fork/exec'' ''nosuch'' ENOENT])"
    by code_simp
  then have r: "?r = ((Inl (Errorf ''cannot Start, command startup failed: %w'' []
          [PathError ''fork/exec'' ''nosuch'' ENOENT]), fst (snd (fst ?r)), snd (snd (fst ?r))), snd ?r)"
    by (metis prod.collapse)
  have o: "outputDir sample_lib = abspath [''tmp'']" by (simp add: sample_lib_def)
  have p: "plain_name ''client1''" and q: "\<forall>d \<in> set [''tmp'']. plain_name d"
    by (simp_all add: plain_name_def)
  from Start_error_leaves_cgroup [OF mem.start_kernel_axioms p o _ q r]
  show ?thesis by blast
qed

section \<open>The goroutine of a job\<close>

text \<open>
  Fact: the outcome the goroutine reads off \<open>cmd.Wait\<close>: the exit status of a process that
  exited, -1 and the name of the signal for one that was killed, and in every case a message that
  starts with \<open><nil>\<close>, since \<open>cmd.ProcessState\<close> is read before \<open>Wait\<close> sets it.
\<close>

theorem wait_outcome_cases:
  "wait_outcome u WaitOk = \<lparr>oc_exitcode = 0, oc_sigStr = '''', oc_pmsg = ''<nil>''\<rparr> \<and>
   wait_outcome u (WaitExit (Signaled s))
     = \<lparr>oc_exitcode = -1, oc_sigStr = signal_String s, oc_pmsg = ''<nil>''\<rparr> \<and>
   (n \<noteq> -1 \<longrightarrow> wait_outcome u (WaitExit (Exited n))
     = \<lparr>oc_exitcode = n, oc_sigStr = '''', oc_pmsg = ''<nil>''\<rparr>) \<and>
   HasPrefix (oc_pmsg (wait_outcome u r)) ''<nil>''"
  by (cases r) (auto simp: wait_outcome_def exit_code_of_def signal_of_def HasPrefix_def)

theorem wait_outcome_cases_witness:
  "wait_outcome mem_unicode (WaitExit (Exited 2)) = \<lparr>oc_exitcode = 2, oc_sigStr = '''', oc_pmsg = ''<nil>''\<rparr>"
  using wait_outcome_cases [of mem_unicode 9 2 WaitOk] by simp

lemma finish_job_run:
  "\<exists>t w'. run_state (finish_job os j a oc) w =
     (j\<lparr>heap := (heap j)[a :=
        (let job = finish_fields oc (heap j ! a) in
         if JState (heap j ! a) = TerminatedByAPI then job
         else job\<lparr>JState := Completed, EndedUnixMilli := t\<rparr>)]\<rparr>, w')"
proof (cases "run_state (now_UnixMilli os) w")
  case (Pair t w')
  then show ?thesis
    by (intro exI [of _ t] exI [of _ "if JState (heap j ! a) = TerminatedByAPI then w else w'"])
      (simp add: finish_job_def Let_def go_run finish_fields_def)
qed

text \<open>
  Fact: the goroutine's critical section records the exit code and signal, keeps the job's
  identity, and ends the job: a job stopped by the API keeps that state and its end time, any other
  job becomes Completed.  All other objects and the maps are unchanged.
\<close>

theorem finish_job_effect:
  assumes "a < length (heap j)" and "run_state (finish_job os j a oc) w = (j', w')"
  shows "job_ended (heap j' ! a) \<and> ExitCode (heap j' ! a) = oc_exitcode oc \<and>
    SignalStr (heap j' ! a) = oc_sigStr oc \<and>
    Mesg (heap j' ! a) = TrimSpace (Mesg (heap j ! a) @ '' '' @ oc_pmsg oc) \<and>
    ID (heap j' ! a) = ID (heap j ! a) \<and> ClientName (heap j' ! a) = ClientName (heap j ! a) \<and>
    (if JState (heap j ! a) = TerminatedByAPI
     then JState (heap j' ! a) = TerminatedByAPI \<and> EndedUnixMilli (heap j' ! a) = EndedUnixMilli (heap j ! a)
     else JState (heap j' ! a) = Completed) \<and>
    jobs j' = jobs j \<and> clientToJobID j' = clientToJobID j \<and> length (heap j') = length (heap j) \<and>
    (\<forall>b. b \<noteq> a \<longrightarrow> heap j' ! b = heap j ! b)"
proof -
  obtain t where j': "j' = j\<lparr>heap := (heap j)[a :=
        (let job = finish_fields oc (heap j ! a) in
         if JState (heap j ! a) = TerminatedByAPI then job
         else job\<lparr>JState := Completed, EndedUnixMilli := t\<rparr>)]\<rparr>"
    using finish_job_run [of os j a oc w] assms(2) by auto
  show ?thesis
    unfolding j' using assms(1) by (simp add: finish_fields_def job_ended_def Let_def)
qed

theorem finish_job_effect_witness:
  "JState (heap (fst (run_state (finish_job mem_os sample_lib 0
      \<lparr>oc_exitcode = 3, oc_sigStr = '''', oc_pmsg = ''<nil>''\<rparr>) mem_boot)) ! 0) = Completed"
  using finish_job_effect [of 0 sample_lib mem_os, OF _ prod.collapse [symmetric]]
  by (simp add: sample_lib_def sample_job_def)

section \<open>Stop\<close>

lemma Stop_locked_eq:
  "Stop_locked os j clientName jobID overrideClientCheck theJob retval w =
     (let job = heap j ! theJob in
      if ClientName job \<noteq> clientName \<and> \<not> overrideClientCheck
      then Some ((Inl (Errorf ''cannot Stop, job with ID %q does not belong to client %q''
                         [jobID, clientName] []), j), w)
      else if job_ended job then Some ((Inr retval, j), w)
      else
        (case run_state (terminateJob os jobID clientName) w of
           (Some err, w1) \<Rightarrow> Some ((Inl err, j), w1)
         | (None, w1) \<Rightarrow>
             (case wait_gone os (sint (PID job)) w1 of
                None \<Rightarrow> None
              | Some w2 \<Rightarrow> Some (run_state (Stop_mark os j clientName jobID theJob retval) w2))))"
  by (simp add: Stop_locked_def Stop_enter_def Let_def go_run split: prod.split option.split)

lemma wait_gone_returns: "gone_after os pid n w \<Longrightarrow> \<exists>w'. wait_gone os pid w = Some w'"
proof (induction n arbitrary: w)
  case 0
  then show ?case
    by (auto simp: gone_after.simps [of os pid 0] wait_gone.simps [of os pid w] split: prod.splits option.splits)
next
  case (Suc n)
  then show ?case
    by (auto simp: gone_after.simps [of os pid "Suc n"] wait_gone.simps [of os pid w] split: prod.splits option.splits)
qed

text \<open>A process that stays alive as long as nothing but probes and sleeps happens.\<close>

definition stays_alive :: "'w os \<Rightarrow> int \<Rightarrow> ('w \<Rightarrow> bool) \<Rightarrow> bool" where
  "stays_alive os pid alive \<longleftrightarrow> (\<forall>w. alive w \<longrightarrow>
     (\<exists>w'. run_state (sig_probe os pid) w = (None, w') \<and> alive (snd (run_state (sleep_ms os 10) w'))))"

lemma wait_gone_diverges:
  assumes "stays_alive os pid alive" and "alive w"
  shows "wait_gone os pid w = None"
proof (rule ccontr)
  assume "wait_gone os pid w \<noteq> None"
  then obtain w' where ret: "wait_gone os pid w = Some w'" by auto
  have "\<not> (stays_alive os pid alive \<and> alive w)"
  proof (rule wait_gone.raw_induct [where P = "\<lambda>os pid w r. \<not> (stays_alive os pid alive \<and> alive w)", OF _ ret])
    fix f and os :: "'a os" and pid w r
    assume IH: "\<And>os pid w r. f os pid w = Some r \<Longrightarrow> \<not> (stays_alive os pid alive \<and> alive w)"
      and eq: "(case run_state (sig_probe os pid) w of
          (None, w') \<Rightarrow> f os pid (snd (run_state (sleep_ms os 10) w'))
        | (Some perr, w') \<Rightarrow> Some w') = Some r"
    show "\<not> (stays_alive os pid alive \<and> alive w)"
    proof
      assume a: "stays_alive os pid alive \<and> alive w"
      then obtain w1 where "run_state (sig_probe os pid) w = (None, w1)"
        and "alive (snd (run_state (sleep_ms os 10) w1))"
        unfolding stays_alive_def by blast
      with eq IH a show False by auto
    qed
  qed
  with assms show False by blast
qed

definition mem_super :: memw where
  "mem_super = mem_one_job\<lparr>m_dirs := client_dir ''superuser'' # m_dirs mem_one_job\<rparr>"

definition ended_lib :: JobsLib where
  "ended_lib = sample_lib\<lparr>heap := [sample_job\<lparr>JState := Completed, EndedUnixMilli := 2\<rparr>]\<rparr>"

text \<open>
  Fact: \<open>Stop\<close> on a job that has ended already is idempotent: it returns the copy of the job
  it took and changes neither the library nor the world.
\<close>

theorem Stop_idempotent:
  assumes "run_state (Stop_unlocked os j ctx c i ovr) w = (Inr (a, retval), w1)"
    and "job_ended (heap j ! a)" and "ovr \<or> ClientName (heap j ! a) = c"
  shows "Stop os j ctx c i ovr w = Some ((Inr (heap j ! a), j), w1)"
proof -
  have "retval = heap j ! a"
    using assms(1) by (auto simp: Stop_unlocked_def deepCopyJobFromPointer_def go_run split: go_split)
  with assms show ?thesis by (auto simp: Stop_def Stop_locked_eq Let_def)
qed

theorem Stop_idempotent_witness:
  "\<exists>w1. Stop mem_os ended_lib 0 ''client1'' ''j1'' False mem_super = Some ((Inr (heap ended_lib ! 0), ended_lib), w1)"
proof -
  have "run_state (Stop_unlocked mem_os ended_lib 0 ''client1'' ''j1'' False) mem_super
      = (Inr (0, heap ended_lib ! 0), mem_super)"
    by code_simp
  from Stop_idempotent [OF this] show ?thesis
    by (simp add: ended_lib_def job_ended_def sample_job_def)
qed

lemma Stop_unlocked_pointer:
  assumes "run_state (Stop_unlocked os j ctx c i ovr) w = (Inr (a, retval), w1)"
  shows "jobs j i = Some a \<and> retval = heap j ! a \<and> i \<noteq> ''''"
  using assms by (auto simp: Stop_unlocked_def query_defs go_run split: go_split)

lemma Stop_mark_run:
  "\<exists>w'. (\<exists>e. run_state (Stop_mark os j c i a retval) w = ((Inl e, j), w')) \<or>
     (\<exists>t1 t2. run_state (Stop_mark os j c i a retval) w =
        ((Inr (stop_fields t2 retval), j\<lparr>heap := (heap j)[a := stop_fields t1 (heap j ! a)]\<rparr>), w'))"
  by (cases "run_state (removeJobCgroup os i c) w"; cases "fst (run_state (removeJobCgroup os i c) w)")
    (auto simp: Stop_mark_def go_run split: prod.split)

lemma Stop_effect:
  assumes "Stop os j ctx c i ovr w = Some ((r, j'), w')"
  shows "j' = j \<or> (\<exists>a t. jobs j i = Some a \<and> (ovr \<or> ClientName (heap j ! a) = c) \<and>
    \<not> job_ended (heap j ! a) \<and> j' = j\<lparr>heap := (heap j)[a := stop_fields t (heap j ! a)]\<rparr>)"
proof -
  obtain x w1 where u: "run_state (Stop_unlocked os j ctx c i ovr) w = (x, w1)" by fastforce
  show ?thesis
  proof (cases x)
    case (Inl e)
    with assms u show ?thesis by (simp add: Stop_def)
  next
    case (Inr p)
    then obtain a retval where p: "x = Inr (a, retval)" by (cases p) simp
    then have a: "jobs j i = Some a" using Stop_unlocked_pointer [OF u [unfolded p]] by simp
    have l: "Stop_locked os j c i ovr a retval w1 = Some ((r, j'), w')"
      using assms u p by (simp add: Stop_def)
    show ?thesis
    proof (cases "(ovr \<or> ClientName (heap j ! a) = c) \<and> \<not> job_ended (heap j ! a)")
      case False
      with l show ?thesis by (auto simp: Stop_locked_eq Let_def split: if_splits)
    next
      case True
      obtain t e where k: "run_state (terminateJob os i c) w1 = (e, t)" by fastforce
      have "j' = j \<or> (\<exists>w2. run_state (Stop_mark os j c i a retval) w2 = ((r, j'), w'))"
        using l True k by (auto simp: Stop_locked_eq Let_def split: if_splits option.splits)
      moreover have "j' = j \<or> (\<exists>t. j' = j\<lparr>heap := (heap j)[a := stop_fields t (heap j ! a)]\<rparr>)"
        if "run_state (Stop_mark os j c i a retval) w2 = ((r, j'), w')" for w2
        using that Stop_mark_run [of os j c i a retval w2] by fastforce
      ultimately show ?thesis using True a by blast
    qed
  qed
qed

lemma Stop_ok:
  assumes "Stop os j ctx c i ovr w = Some ((Inr job, j'), w')"
  obtains a where "jobs j i = Some a" and "ovr \<or> ClientName (heap j ! a) = c"
    and "job_ended (heap j ! a) \<and> j' = j \<and> job = heap j ! a \<or>
      (\<exists>t1 t2. \<not> job_ended (heap j ! a) \<and> j' = j\<lparr>heap := (heap j)[a := stop_fields t1 (heap j ! a)]\<rparr> \<and>
        job = stop_fields t2 (heap j ! a))"
proof -
  obtain a retval w1 where u: "run_state (Stop_unlocked os j ctx c i ovr) w = (Inr (a, retval), w1)"
    and l: "Stop_locked os j c i ovr a retval w1 = Some ((Inr job, j'), w')"
    using assms by (auto simp: Stop_def split: prod.splits sum.splits)
  note p = Stop_unlocked_pointer [OF u]
  have own: "ovr \<or> ClientName (heap j ! a) = c"
    using l by (auto simp: Stop_locked_eq Let_def split: if_splits)
  show ?thesis
  proof (cases "job_ended (heap j ! a)")
    case True
    with l own p that show ?thesis by (auto simp: Stop_locked_eq Let_def)
  next
    case False
    then obtain w2 where "run_state (Stop_mark os j c i a retval) w2 = ((Inr job, j'), w')"
      using l own by (auto simp: Stop_locked_eq Let_def split: if_splits option.splits prod.splits)
    with Stop_mark_run [of os j c i a retval w2] False own p that show ?thesis by fastforce
  qed
qed

text \<open>
  Fact: whatever the kernel does, a call of \<open>Stop\<close> that returns either leaves the library
  unchanged or marks exactly one object, the job stored under the identifier, which was not ended:
  it becomes TerminatedByAPI with exit code -1 and signal SIGKILL.  It does so only for the owner or
  with the override.
\<close>

theorem Stop_changes_only_that_job:
  assumes "Stop os j ctx c i ovr w = Some ((r, j'), w')"
  shows "j' = j \<or> (\<exists>a t. jobs j i = Some a \<and> (ovr \<or> ClientName (heap j ! a) = c) \<and>
    \<not> job_ended (heap j ! a) \<and> j' = j\<lparr>heap := (heap j)[a := stop_fields t (heap j ! a)]\<rparr>)"
  by (rule Stop_effect [OF assms])

lemma mem_stopped:
  obtains job j' w' where "Stop mem_os sample_lib 0 ''client1'' ''j1'' False mem_super = Some ((Inr job, j'), w')"
    and "JState (heap j' ! 0) = TerminatedByAPI"
proof -
  let ?r = "Stop mem_os sample_lib 0 ''client1'' ''j1'' False mem_super"
  have st: "map_option (\<lambda>((r, j'), w'). (isl r, JState (heap j' ! 0))) ?r = Some (False, TerminatedByAPI)"
    by code_simp
  then obtain r j' w' where r: "?r = Some ((r, j'), w')" by (auto split: prod.splits)
  with st that show ?thesis by (cases r) simp_all
qed

theorem Stop_changes_only_that_job_witness:
  "\<exists>r j' w' t. Stop mem_os sample_lib 0 ''client1'' ''j1'' False mem_super = Some ((r, j'), w') \<and>
     j' = sample_lib\<lparr>heap := [stop_fields t sample_job]\<rparr>"
proof -
  obtain job j' w' where r: "Stop mem_os sample_lib 0 ''client1'' ''j1'' False mem_super = Some ((Inr job, j'), w')"
    and s: "JState (heap j' ! 0) = TerminatedByAPI"
    by (rule mem_stopped)
  then have "j' \<noteq> sample_lib" by (auto simp: sample_lib_def sample_job_def)
  with Stop_changes_only_that_job [OF r] show ?thesis
    using r by (auto simp: sample_lib_def split: if_splits)
qed



text \<open>
  Property C27: \<open>Stop\<close> by another client, as the override lets the superuser call it, never returns
  for a job that does not end by itself: the kill file and the directory it works on are the
  caller's, \<open>/sys/fs/cgroup/jobmaster/<caller>/<job>\<close>, which do not exist, so nothing is killed and
  the poll goes on for as long as the process lives, with the mutex held.
\<close>

theorem Stop_by_other_client_hangs:
  assumes "strict_kernel os D F" and "plain_name c" and "plain_name i"
    and u: "run_state (Stop_unlocked os j ctx c i True) w = (Inr (a, retval), w1)"
    and "\<not> job_ended (heap j ! a)" and "job_dir c i \<notin> D w1"
    and "stays_alive os (sint (PID (heap j ! a))) alive"
    and "alive (snd (run_state (os_WriteFile os (job_dir c i @ ''/cgroup.kill'') ''1'') w1))"
  shows "Stop os j ctx c i True w = None"
proof -
  obtain e w2 where k: "run_state (os_WriteFile os (job_dir c i @ ''/cgroup.kill'') ''1'') w1 = (Some e, w2)"
    and e: "IsNotExist e"
    using strict_kernel.write_missing [OF assms(1,6), of "''cgroup.kill''" "''1''"] by auto
  then have "run_state (terminateJob os i c) w1 = (None, w2)"
    by (simp add: terminateJob_run [OF assms(2,3)])
  moreover have "wait_gone os (sint (PID (heap j ! a))) w2 = None"
    using wait_gone_diverges [OF assms(7)] assms(8) k by simp
  ultimately show ?thesis
    using u assms(5) by (simp add: Stop_def Stop_locked_eq Let_def)
qed

theorem Stop_by_other_client_hangs_witness:
  "Stop mem_os sample_lib 0 ''superuser'' ''j1'' True mem_super = None"
proof -
  have p: "plain_name ''superuser''" "plain_name ''j1''" by (simp_all add: plain_name_def)
  have u: "run_state (Stop_unlocked mem_os sample_lib 0 ''superuser'' ''j1'' True) mem_super
      = (Inr (0, sample_job), mem_super)"
    by code_simp
  have d: "job_dir ''superuser'' ''j1'' \<notin> set (m_dirs mem_super)"
    by code_simp
  have pid: "sint (PID (heap sample_lib ! 0)) = 4242"
    by (simp add: sample_lib_def sample_job_def)
  have "stays_alive mem_os (sint (PID (heap sample_lib ! 0))) (\<lambda>w. 4242 \<in> set (map fst (m_procs w)))"
    unfolding pid by (auto simp: stays_alive_def mem_os_run mem_probe_def)
  moreover have "4242 \<in> set (map fst (m_procs (snd
      (run_state (os_WriteFile mem_os (job_dir ''superuser'' ''j1'' @ ''/cgroup.kill'') ''1'') mem_super))))"
    by code_simp
  ultimately show ?thesis
    using Stop_by_other_client_hangs [OF mem.strict_kernel_axioms p u _ d]
    by (simp add: sample_lib_def sample_job_def job_ended_def)
qed

section \<open>Creation of the library\<close>

text \<open>
  Fact: a library that \<open>CreateJobsLib\<close> returns is empty, has a device identifier that passed
  the check and a non-blank output directory (\<open>/tmp\<close> unless one was given), and the cgroup
  directories of all its clients exist.
\<close>

theorem CreateJobsLib_establishes:
  assumes "file_kernel os D F" and "\<forall>c \<in> set cs. plain_name c"
    and "run_state (CreateJobsLib os cs out dev) w = (Inr j, w')"
  shows "jobs j = Map.empty \<and> heap j = [] \<and> clientToJobID j = Map.empty \<and> clientList j = cs \<and> cs \<noteq> [] \<and>
    ioDevMajorMinor j = dev \<and> validateIODeviceNumber dev \<and>
    outputDir j = (if is_blank out then ''/tmp'' else out) \<and> outputDir j \<noteq> '''' \<and>
    (\<forall>c \<in> set cs. client_dir c \<in> D w')"
proof -
  have s: "run_state (setupJobmasterCgroups os cs) w = (None, w')"
    and r: "cs \<noteq> []" "validateIODeviceNumber dev"
      "j = \<lparr>jobs = Map.empty, heap = [], clientToJobID = Map.empty, clientList = cs,
            outputDir = (if is_blank out then ''/tmp'' else out), ioDevMajorMinor = dev\<rparr>"
    using assms(3) by (auto simp: CreateJobsLib_def Let_def go_run split: go_split)
  moreover have "\<forall>c \<in> set cs. client_dir c \<in> D w'"
    using file_kernel.setup_ok [OF assms(1) s assms(2)] by blast
  ultimately show ?thesis by (auto simp: is_blank_def)
qed

theorem CreateJobsLib_establishes_witness:
  "\<exists>j. fst (run_state (CreateJobsLib mem_os [''client1''] '''' ''254:0'') mem_boot) = Inr j \<and>
     outputDir j = ''/tmp'' \<and> heap j = []"
proof -
  let ?r = "run_state (CreateJobsLib mem_os [''client1''] '''' ''254:0'') mem_boot"
  have "map_sum (\<lambda>e. ()) (\<lambda>j. ()) (fst ?r) = Inr ()" by code_simp
  then obtain j where j: "fst ?r = Inr j" by (cases "fst ?r") auto
  then have r: "?r = (Inr j, snd ?r)" by (metis prod.collapse)
  have p: "\<forall>c \<in> set [''client1'']. plain_name c" by (simp add: plain_name_def)
  from CreateJobsLib_establishes [OF mem.file_kernel_axioms p r] j show ?thesis
    by (simp add: is_blank_def)
qed

end
