(* ===== verification/JobsLibRun.thy ===== *)
theory JobsLibRun
  imports JobsLib
begin

text \<open>
  The job library under concurrency.  The two maps and the objects are a store of jobs: \<open>job_store\<close>
  is the contract the library relies on (what a lookup and the list of a client's jobs give after a
  registration or an update), interpreted on \<open>Start_locked\<close> and on the updates of \<open>heap\<close>.

  \<open>lib_step\<close> interleaves the calls at the places where the code takes and releases the mutex: a call
  of \<open>Start\<close> or \<open>Stop\<close> first runs its part without the mutex, its critical section follows at any
  later time, and so does each goroutine after its wait.  A critical section is one step, except that
  of \<open>Stop\<close>, which keeps the mutex while it polls: it enters, probes any number of times, and leaves.
  Between any two steps the world may change arbitrarily.  The only assumption is that KSUIDs are not
  repeated, as their documentation says.
\<close>

section \<open>The store of jobs\<close>

definition lookup_job :: "JobsLib \<Rightarrow> string \<Rightarrow> Job option" where
  "lookup_job j i = map_option (\<lambda>a. heap j ! a) (jobs j i)"

definition jobs_of_client :: "JobsLib \<Rightarrow> string \<Rightarrow> string list" where
  "jobs_of_client j c = (case clientToJobID j c of None \<Rightarrow> [] | Some l \<Rightarrow> l)"

definition update_job :: "JobsLib \<Rightarrow> string \<Rightarrow> (Job \<Rightarrow> Job) \<Rightarrow> JobsLib" where
  "update_job j i f = (case jobs j i of
     None \<Rightarrow> j | Some a \<Rightarrow> j\<lparr>heap := (heap j)[a := f (heap j ! a)]\<rparr>)"

definition store_inv :: "JobsLib \<Rightarrow> bool" where
  "store_inv j \<longleftrightarrow>
     (\<forall>i a. jobs j i = Some a \<longrightarrow> a < length (heap j) \<and> ID (heap j ! a) = i) \<and>
     (\<forall>a < length (heap j). jobs j (ID (heap j ! a)) = Some a) \<and>
     (\<forall>c. distinct (jobs_of_client j c) \<and>
        set (jobs_of_client j c) = {i. \<exists>a. jobs j i = Some a \<and> ClientName (heap j ! a) = c})"

definition same_identity :: "(Job \<Rightarrow> Job) \<Rightarrow> bool" where
  "same_identity f \<longleftrightarrow> (\<forall>job. ID (f job) = ID job \<and> ClientName (f job) = ClientName job)"

locale job_store =
  fixes lookup :: "'s \<Rightarrow> string \<Rightarrow> Job option"
    and owned :: "'s \<Rightarrow> string \<Rightarrow> string list"
    and add :: "'s \<Rightarrow> Job \<Rightarrow> 's"
    and update :: "'s \<Rightarrow> string \<Rightarrow> (Job \<Rightarrow> Job) \<Rightarrow> 's"
    and invar :: "'s \<Rightarrow> bool"
  assumes lookup_add: "invar s \<Longrightarrow> lookup s (ID job) = None \<Longrightarrow> lookup (add s job) = (lookup s)(ID job \<mapsto> job)"
    and owned_add: "owned (add s job) c = owned s c @ (if c = ClientName job then [ID job] else [])"
    and invar_add: "invar s \<Longrightarrow> lookup s (ID job) = None \<Longrightarrow> invar (add s job)"
    and lookup_update: "invar s \<Longrightarrow> lookup s i = Some job \<Longrightarrow> lookup (update s i f) = (lookup s)(i \<mapsto> f job)"
    and owned_update: "owned (update s i f) c = owned s c"
    and invar_update: "invar s \<Longrightarrow> same_identity f \<Longrightarrow> invar (update s i f)"
    and lookup_ID: "invar s \<Longrightarrow> lookup s i = Some job \<Longrightarrow> ID job = i"
    and owned_distinct: "invar s \<Longrightarrow> distinct (owned s c)"
    and owned_iff: "invar s \<Longrightarrow> i \<in> set (owned s c) \<longleftrightarrow> (\<exists>job. lookup s i = Some job \<and> ClientName job = c)"
begin

lemma owned_disjoint: "invar s \<Longrightarrow> c \<noteq> d \<Longrightarrow> set (owned s c) \<inter> set (owned s d) = {}"
  by (auto simp: owned_iff)

lemma added_owned:
  "invar s \<Longrightarrow> lookup s (ID job) = None \<Longrightarrow> last (owned (add s job) (ClientName job)) = ID job"
  by (simp add: owned_add)

lemma add_keeps_others:
  "invar s \<Longrightarrow> lookup s (ID job) = None \<Longrightarrow> lookup s i = Some k \<Longrightarrow> lookup (add s job) i = Some k"
  by (auto simp: lookup_add)

end

lemma store_invD:
  assumes "store_inv j"
  shows "jobs j i = Some a \<Longrightarrow> a < length (heap j)" "jobs j i = Some a \<Longrightarrow> ID (heap j ! a) = i"
    "a < length (heap j) \<Longrightarrow> jobs j (ID (heap j ! a)) = Some a"
    "distinct (jobs_of_client j c)"
    "set (jobs_of_client j c) = {i. \<exists>a. jobs j i = Some a \<and> ClientName (heap j ! a) = c}"
  using assms by (auto simp: store_inv_def)

lemma store_inv_add:
  assumes inv: "store_inv j" and new: "jobs j (ID job) = None"
  shows "store_inv (Start_locked j job)"
proof -
  let ?j = "Start_locked j job"
  have oc: "jobs_of_client ?j c = jobs_of_client j c @ (if c = ClientName job then [ID job] else [])" for c
    by (auto simp: jobs_of_client_def Start_locked_def Let_def)
  have other: "a < length (heap j)" if "jobs j i = Some a" for i a using store_invD(1) [OF inv that] .
  have idn: "ID (heap j ! a) \<noteq> ID job" if "a < length (heap j)" for a
    using store_invD(3) [OF inv that] new by auto
  have "set (jobs_of_client ?j c) = {i. \<exists>a. jobs ?j i = Some a \<and> ClientName (heap ?j ! a) = c}" for c
    unfolding oc using store_invD(5) [OF inv, of c] new other
    by (auto simp: Start_locked_def Let_def nth_append split: if_splits)
  moreover have "distinct (jobs_of_client ?j c)" for c
    unfolding oc using store_invD(4) [OF inv, of c] store_invD(5) [OF inv, of c] new by auto
  ultimately show ?thesis
    using store_invD(1-3) [OF inv] idn
    by (auto simp: store_inv_def Start_locked_def Let_def nth_append less_Suc_eq)
qed

lemma store_inv_heap_update:
  assumes inv: "store_inv j" and "a < length (heap j)"
    and "ID job = ID (heap j ! a)" and "ClientName job = ClientName (heap j ! a)"
  shows "store_inv (j\<lparr>heap := (heap j)[a := job]\<rparr>)"
proof -
  have h: "ID ((heap j)[a := job] ! b) = ID (heap j ! b)"
    "ClientName ((heap j)[a := job] ! b) = ClientName (heap j ! b)" for b
    using assms(2-4) by (cases "b = a"; simp)+
  have "jobs_of_client (j\<lparr>heap := (heap j)[a := job]\<rparr>) c = jobs_of_client j c" for c
    by (simp add: jobs_of_client_def)
  then show ?thesis using inv by (simp add: store_inv_def h)
qed

interpretation store: job_store lookup_job jobs_of_client Start_locked update_job store_inv
proof unfold_locales
  fix j :: JobsLib and job k :: Job and i c :: string and f :: "Job \<Rightarrow> Job"
  show "jobs_of_client (Start_locked j job) c
      = jobs_of_client j c @ (if c = ClientName job then [ID job] else [])"
    by (auto simp: jobs_of_client_def Start_locked_def Let_def)
  show "jobs_of_client (update_job j i f) c = jobs_of_client j c"
    by (simp add: jobs_of_client_def update_job_def split: option.split)
  assume inv: "store_inv j"
  show "distinct (jobs_of_client j c)" by (rule store_invD(4) [OF inv])
  show "i \<in> set (jobs_of_client j c) \<longleftrightarrow> (\<exists>job. lookup_job j i = Some job \<and> ClientName job = c)"
    by (auto simp: store_invD(5) [OF inv] lookup_job_def)
  show "lookup_job j i = Some k \<Longrightarrow> ID k = i"
    by (auto simp: lookup_job_def dest: store_invD(2) [OF inv])
  show "same_identity f \<Longrightarrow> store_inv (update_job j i f)"
    using inv store_invD(1) [OF inv]
    by (auto simp: update_job_def same_identity_def intro: store_inv_heap_update split: option.split)
  show "lookup_job j i = Some k \<Longrightarrow> lookup_job (update_job j i f) = (lookup_job j)(i \<mapsto> f k)"
  proof
    fix i'
    assume "lookup_job j i = Some k"
    then obtain a where a: "jobs j i = Some a" "heap j ! a = k" by (auto simp: lookup_job_def)
    have "jobs j i' = Some a \<Longrightarrow> i' = i" using store_invD(2) [OF inv] a(1) by blast
    with a store_invD(1) [OF inv a(1)]
    show "lookup_job (update_job j i f) i' = ((lookup_job j)(i \<mapsto> f k)) i'"
      by (cases "jobs j i'") (auto simp: lookup_job_def update_job_def nth_list_update)
  qed
  assume new: "lookup_job j (ID job) = None"
  then show "store_inv (Start_locked j job)"
    by (simp add: lookup_job_def store_inv_add [OF inv])
  show "lookup_job (Start_locked j job) = (lookup_job j)(ID job \<mapsto> job)"
    using store_invD(1) [OF inv]
    by (auto simp: lookup_job_def Start_locked_def Let_def nth_append fun_eq_iff option.map_comp
        intro!: option.map_cong split: option.split)
qed

section \<open>Interleaved calls\<close>

record stop_call =
  sc_client :: string
  sc_jobID :: string
  sc_override :: bool
  sc_job :: nat
  sc_retval :: Job

datatype reply = Started string | Stopped Job | Reported Job

record 'w system =
  lib :: JobsLib
  world :: 'w
  launched :: "started list"            \<comment> \<open>\<open>Start\<close> calls before their critical section\<close>
  waiting :: "(nat \<times> int) list"         \<comment> \<open>goroutines in \<open>cmd.Wait\<close>\<close>
  finishing :: "(nat \<times> outcome) list"   \<comment> \<open>goroutines before their critical section\<close>
  stopping :: "stop_call list"          \<comment> \<open>\<open>Stop\<close> calls before their critical section\<close>
  mutex :: "stop_call option"           \<comment> \<open>the \<open>Stop\<close> call that polls with the mutex held\<close>
  replies :: "reply list"               \<comment> \<open>what successful calls have returned, the last one first\<close>

definition reply_of :: "goerr + Job \<Rightarrow> reply list" where
  "reply_of r = (case r of Inl err \<Rightarrow> [] | Inr job \<Rightarrow> [Stopped job])"

abbreviation stop_pid :: "JobsLib \<Rightarrow> stop_call \<Rightarrow> int" where
  "stop_pid j sc \<equiv> sint (PID (heap j ! sc_job sc))"

inductive lib_step :: "'w os \<Rightarrow> 'w system \<Rightarrow> 'w system \<Rightarrow> bool" for os where
  start_call: "lib_step os s (s\<lparr>world := w', launched := st # launched s\<rparr>)"
    if "run_state (Start_unlocked os (outputDir (lib s)) (ioDevMajorMinor (lib s)) ctx c cmd args) (world s)
          = (Inr st, w')"
      and "jobs (lib s) (ID (st_job st)) = None"
      and "ID (st_job st) \<notin> (\<lambda>x. ID (st_job x)) ` set (launched s)"
| start_commit: "lib_step os s (s\<lparr>lib := Start_locked (lib s) (st_job st),
      launched := remove1 st (launched s),
      waiting := (length (heap (lib s)), st_pid st) # waiting s,
      replies := Started (ID (st_job st)) # replies s\<rparr>)"
    if "st \<in> set (launched s)" and "mutex s = None"
| wait_call: "lib_step os s (s\<lparr>world := w', waiting := remove1 (a, pid) (waiting s),
      finishing := (a, oc) # finishing s\<rparr>)"
    if "(a, pid) \<in> set (waiting s)"
      and "run_state (wait_job os (ID (heap (lib s) ! a)) (ClientName (heap (lib s) ! a)) pid) (world s) = (oc, w')"
| finish_commit: "lib_step os s (s\<lparr>lib := j', world := w', finishing := remove1 (a, oc) (finishing s)\<rparr>)"
    if "(a, oc) \<in> set (finishing s)" and "mutex s = None"
      and "run_state (finish_job os (lib s) a oc) (world s) = (j', w')"
| stop_call: "lib_step os s (s\<lparr>world := w', stopping :=
      \<lparr>sc_client = c, sc_jobID = i, sc_override = ovr, sc_job = a, sc_retval = retval\<rparr> # stopping s\<rparr>)"
    if "mutex s = None"
      and "run_state (Stop_unlocked os (lib s) ctx c i ovr) (world s) = (Inr (a, retval), w')"
| stop_return: "lib_step os s (s\<lparr>world := w', stopping := remove1 sc (stopping s),
      replies := reply_of r @ replies s\<rparr>)"
    if "sc \<in> set (stopping s)" and "mutex s = None"
      and "run_state (Stop_enter os (lib s) (sc_client sc) (sc_jobID sc) (sc_override sc) (sc_job sc) (sc_retval sc))
             (world s) = (Some r, w')"
| stop_enter: "lib_step os s (s\<lparr>world := w', stopping := remove1 sc (stopping s), mutex := Some sc\<rparr>)"
    if "sc \<in> set (stopping s)" and "mutex s = None"
      and "run_state (Stop_enter os (lib s) (sc_client sc) (sc_jobID sc) (sc_override sc) (sc_job sc) (sc_retval sc))
             (world s) = (None, w')"
| stop_poll: "lib_step os s (s\<lparr>world := snd (run_state (sleep_ms os 10) w')\<rparr>)"
    if "mutex s = Some sc"
      and "run_state (sig_probe os (stop_pid (lib s) sc)) (world s) = (None, w')"
| stop_done: "lib_step os s (s\<lparr>lib := j', world := w', mutex := None, replies := reply_of r @ replies s\<rparr>)"
    if "mutex s = Some sc"
      and "run_state (sig_probe os (stop_pid (lib s) sc)) (world s) = (Some perr, w1)"
      and "run_state (Stop_mark os (lib s) (sc_client sc) (sc_jobID sc) (sc_job sc) (sc_retval sc)) w1 = ((r, j'), w')"
| status_call: "lib_step os s (s\<lparr>world := w', replies := Reported job # replies s\<rparr>)"
    if "mutex s = None" and "run_state (Status os (lib s) ctx c i ovr) (world s) = (Inr job, w')"
| stream_call: "lib_step os s (s\<lparr>world := w', replies := Reported job # replies s\<rparr>)"
    if "mutex s = None" and "run_state (StreamOutputSetup os (lib s) ctx c i ovr) (world s) = (Inr job, w')"
| environment: "lib_step os s (s\<lparr>world := w'\<rparr>)"

inductive lib_reachable :: "'w os \<Rightarrow> 'w system \<Rightarrow> bool" for os where
  init: "jobs j = Map.empty \<Longrightarrow> heap j = [] \<Longrightarrow> clientToJobID j = Map.empty \<Longrightarrow>
    lib_reachable os \<lparr>lib = j, world = w, launched = [], waiting = [], finishing = [], stopping = [],
      mutex = None, replies = []\<rparr>"
| step: "lib_reachable os s \<Longrightarrow> lib_step os s t \<Longrightarrow> lib_reachable os t"

text \<open>What \<open>Start\<close> puts into a new object, and what every object in use satisfies.\<close>

definition fresh_job :: "Job \<Rightarrow> bool" where
  "fresh_job job \<longleftrightarrow> JState job = Running \<and> ExitCode job = 0 \<and> SignalStr job = '''' \<and> Mesg job = '''' \<and>
     EndedUnixMilli job = 0 \<and> ID job \<noteq> '''' \<and> ClientName job \<noteq> '''' \<and> Command job \<noteq> ''''"

definition job_ok :: "Job \<Rightarrow> bool" where
  "job_ok job \<longleftrightarrow> fresh_job job \<or> job_ended job"

definition pending :: "'w system \<Rightarrow> nat list" where
  "pending s = map fst (waiting s) @ map fst (finishing s)"

text \<open>
  The objects and the goroutines: every running job has exactly one goroutine that has not finished
  yet, a completed job has none.  (A job stopped by the API may still have one.)
\<close>

definition goroutine_inv :: "Job list \<Rightarrow> nat list \<Rightarrow> bool" where
  "goroutine_inv h P \<longleftrightarrow> distinct P \<and> (\<forall>a \<in> set P. a < length h) \<and>
     (\<forall>a < length h. job_ok (h ! a) \<and> (JState (h ! a) = Running \<longrightarrow> a \<in> set P) \<and>
        (JState (h ! a) = Completed \<longrightarrow> a \<notin> set P))"

definition launched_inv :: "JobsLib \<Rightarrow> started list \<Rightarrow> bool" where
  "launched_inv j L \<longleftrightarrow> distinct (map (\<lambda>st. ID (st_job st)) L) \<and>
     (\<forall>st \<in> set L. fresh_job (st_job st) \<and> jobs j (ID (st_job st)) = None)"

definition sys_inv :: "'w system \<Rightarrow> bool" where
  "sys_inv s \<longleftrightarrow> store_inv (lib s) \<and> launched_inv (lib s) (launched s) \<and>
     goroutine_inv (heap (lib s)) (pending s)"

lemma goroutine_invI:
  assumes "distinct P" and "\<And>a. a \<in> set P \<Longrightarrow> a < length h" and "\<And>a. a < length h \<Longrightarrow> job_ok (h ! a)"
    and "\<And>a. a < length h \<Longrightarrow> JState (h ! a) = Running \<Longrightarrow> a \<in> set P"
    and "\<And>a. a \<in> set P \<Longrightarrow> JState (h ! a) \<noteq> Completed"
  shows "goroutine_inv h P"
  unfolding goroutine_inv_def using assms by blast

lemma goroutine_inv_D:
  assumes "goroutine_inv h P"
  shows "distinct P" "a \<in> set P \<Longrightarrow> a < length h" "a < length h \<Longrightarrow> job_ok (h ! a)"
    "a < length h \<Longrightarrow> JState (h ! a) = Running \<Longrightarrow> a \<in> set P"
    "a \<in> set P \<Longrightarrow> JState (h ! a) \<noteq> Completed"
  using assms unfolding goroutine_inv_def by blast+

lemma goroutine_inv_new:
  assumes inv: "goroutine_inv h P" and "fresh_job job"
  shows "goroutine_inv (h @ [job]) (length h # P)"
proof (rule goroutine_invI)
  note D = goroutine_inv_D [OF inv]
  have j: "JState job = Running" "job_ok job" using assms(2) by (simp_all add: fresh_job_def job_ok_def)
  show "distinct (length h # P)" using D(1,2) by auto
  fix a
  show "a < length (h @ [job])" if "a \<in> set (length h # P)" using that D(2) [of a] by auto
  show "job_ok ((h @ [job]) ! a)" if "a < length (h @ [job])"
    using that D(3) [of a] j by (cases "a = length h") (simp_all add: nth_append)
  show "a \<in> set (length h # P)" if "a < length (h @ [job])" "JState ((h @ [job]) ! a) = Running"
    using that D(4) [of a] by (cases "a = length h") (simp_all add: nth_append)
  show "JState ((h @ [job]) ! a) \<noteq> Completed" if "a \<in> set (length h # P)"
  proof (cases "a = length h")
    case True
    with j show ?thesis by simp
  next
    case False
    with that have "a \<in> set P" by simp
    with D(2,5) [of a] show ?thesis by (simp add: nth_append)
  qed
qed

lemma goroutine_inv_perm:
  assumes inv: "goroutine_inv h P" and "distinct P'" and "set P' = set P"
  shows "goroutine_inv h P'"
  using inv assms(2) unfolding goroutine_inv_def assms(3) by blast

lemma goroutine_inv_update:
  assumes inv: "goroutine_inv h P" and "distinct P'" and "job_ended job" and "set P - {a} \<subseteq> set P'"
    and "set P' \<subseteq> set P" and "JState job = TerminatedByAPI \<or> a \<notin> set P'"
  shows "goroutine_inv (h[a := job]) P'"
proof (rule goroutine_invI)
  note D = goroutine_inv_D [OF inv]
  show "distinct P'" by fact
  fix b
  show "b < length (h[a := job])" if "b \<in> set P'" using that D(2) [of b] assms(5) by auto
  show "job_ok (h[a := job] ! b)" if "b < length (h[a := job])"
    using that D(3) [of b] assms(3) by (cases "b = a") (simp_all add: job_ok_def)
  show "b \<in> set P'" if "b < length (h[a := job])" "JState (h[a := job] ! b) = Running"
  proof (cases "b = a")
    case True
    with that assms(3) show ?thesis by (simp add: job_ended_def)
  next
    case False
    with that D(4) [of b] assms(4) show ?thesis by auto
  qed
  show "JState (h[a := job] ! b) \<noteq> Completed" if "b \<in> set P'"
  proof (cases "b = a")
    case True
    with that assms(5,6) D(2) [of b] show ?thesis by auto
  next
    case False
    with that assms(5) D(5) [of b] show ?thesis by auto
  qed
qed

lemma launched_inv_remove:
  assumes "launched_inv j L" and "st \<in> set L"
  shows "launched_inv (Start_locked j (st_job st)) (remove1 st L)"
proof -
  have d: "distinct (map (\<lambda>st. ID (st_job st)) L)" using assms(1) by (simp add: launched_inv_def)
  then have dL: "distinct L" and inj: "inj_on (\<lambda>st. ID (st_job st)) (set L)"
    by (simp_all add: distinct_map)
  have s: "set (remove1 st L) = set L - {st}" using dL by (simp add: set_remove1_eq)
  have "ID (st_job x) \<noteq> ID (st_job st)" if "x \<in> set L - {st}" for x
    using that inj assms(2) by (auto simp: inj_on_def)
  moreover have "distinct (map (\<lambda>st. ID (st_job st)) (remove1 st L))"
    using dL inj by (auto simp: distinct_map s intro: inj_on_subset)
  ultimately show ?thesis
    unfolding launched_inv_def s using assms(1)
    by (simp add: Start_locked_def Let_def launched_inv_def)
qed

lemma map_fst_remove1:
  "distinct (map fst xs) \<Longrightarrow> (a, x) \<in> set xs \<Longrightarrow> map fst (remove1 (a, x) xs) = remove1 a (map fst xs)"
proof (induction xs)
  case Nil
  then show ?case by simp
next
  case (Cons y ys)
  show ?case
  proof (cases "y = (a, x)")
    case True
    then show ?thesis by simp
  next
    case False
    with Cons.prems have m: "(a, x) \<in> set ys" by simp
    then have "a \<in> fst ` set ys" by force
    with Cons.prems(1) have "fst y \<noteq> a" by auto
    with False m Cons show ?thesis by simp
  qed
qed

text \<open>Moving a goroutine from one list to the other, or out of both.\<close>

lemma pending_move:
  assumes "distinct (map fst ws @ map fst fs)" and "(a, p) \<in> set ws"
  shows "distinct (map fst (remove1 (a, p) ws) @ map fst ((a, oc) # fs))"
    and "set (map fst (remove1 (a, p) ws) @ map fst ((a, oc) # fs)) = set (map fst ws @ map fst fs)"
proof -
  have d: "distinct (map fst ws)" and m: "a \<in> set (map fst ws)" using assms by force+
  have s: "set (remove1 a (map fst ws)) = set (map fst ws) - {a}" by (rule set_remove1_eq [OF d])
  show "distinct (map fst (remove1 (a, p) ws) @ map fst ((a, oc) # fs))"
    unfolding map_fst_remove1 [OF d assms(2)] using assms(1) d m s by auto
  show "set (map fst (remove1 (a, p) ws) @ map fst ((a, oc) # fs)) = set (map fst ws @ map fst fs)"
    unfolding map_fst_remove1 [OF d assms(2)] set_append s using m by auto
qed

lemma pending_drop:
  assumes "distinct (ws @ map fst fs)" and "(a, oc) \<in> set fs"
  shows "distinct (ws @ map fst (remove1 (a, oc) fs))"
    and "set (ws @ map fst (remove1 (a, oc) fs)) = set (ws @ map fst fs) - {a}"
proof -
  have d: "distinct (map fst fs)" and m: "a \<in> set (map fst fs)" using assms by force+
  have s: "set (remove1 a (map fst fs)) = set (map fst fs) - {a}" by (rule set_remove1_eq [OF d])
  show "distinct (ws @ map fst (remove1 (a, oc) fs))"
    unfolding map_fst_remove1 [OF d assms(2)] using assms(1) s by auto
  show "set (ws @ map fst (remove1 (a, oc) fs)) = set (ws @ map fst fs) - {a}"
    unfolding map_fst_remove1 [OF d assms(2)] set_append s using assms(1) m by auto
qed

lemma launched_inv_heap [simp]: "launched_inv (j\<lparr>heap := h\<rparr>) L = launched_inv j L"
  by (simp add: launched_inv_def)

lemma finish_job_lib:
  assumes "run_state (finish_job os j a oc) w = (j', w')"
  shows "\<exists>job. j' = j\<lparr>heap := (heap j)[a := job]\<rparr> \<and> job_ended job \<and> ID job = ID (heap j ! a) \<and>
    ClientName job = ClientName (heap j ! a)"
proof -
  let ?f = "finish_fields oc (heap j ! a)"
  obtain t where "j' = j\<lparr>heap := (heap j)[a := (let job = ?f in
      if JState (heap j ! a) = TerminatedByAPI then job
      else job\<lparr>JState := Completed, EndedUnixMilli := t\<rparr>)]\<rparr>"
    using finish_job_run [of os j a oc w] assms by auto
  then show ?thesis
    by (intro exI [of _ "if JState (heap j ! a) = TerminatedByAPI then ?f
          else ?f\<lparr>JState := Completed, EndedUnixMilli := t\<rparr>"])
      (simp add: finish_fields_def job_ended_def Let_def)
qed

lemma Stop_enter_poll:
  assumes "run_state (Stop_enter os j c i ovr a retval) w = (None, w')"
  shows "\<not> job_ended (heap j ! a) \<and> (ovr \<or> ClientName (heap j ! a) = c)"
  using assms by (auto simp: Stop_enter_def Let_def go_run split: if_splits)

lemma Stop_mark_lib:
  assumes "run_state (Stop_mark os j c i a retval) w = ((r, j'), w')"
  shows "j' = j \<or> (\<exists>t. j' = j\<lparr>heap := (heap j)[a := stop_fields t (heap j ! a)]\<rparr>)"
  using assms Stop_mark_run [of os j c i a retval w] by fastforce

lemma stop_fields_simps [simp]:
  "JState (stop_fields t job) = TerminatedByAPI" "ID (stop_fields t job) = ID job"
  "ClientName (stop_fields t job) = ClientName job" "job_ended (stop_fields t job)"
  by (simp_all add: stop_fields_def job_ended_def)

text \<open>
  The pointer of a pending \<open>Stop\<close> call is the job's for as long as the call is pending; the job of the
  call that holds the mutex has not ended, and the caller may stop it.
\<close>

definition stopping_inv :: "JobsLib \<Rightarrow> stop_call list \<Rightarrow> bool" where
  "stopping_inv j S \<longleftrightarrow> (\<forall>sc \<in> set S. jobs j (sc_jobID sc) = Some (sc_job sc))"

definition holder_inv :: "JobsLib \<Rightarrow> stop_call option \<Rightarrow> bool" where
  "holder_inv j m \<longleftrightarrow> (\<forall>sc. m = Some sc \<longrightarrow> jobs j (sc_jobID sc) = Some (sc_job sc) \<and>
     \<not> job_ended (heap j ! sc_job sc) \<and> (sc_override sc \<or> ClientName (heap j ! sc_job sc) = sc_client sc))"

definition lib_inv :: "'w system \<Rightarrow> bool" where
  "lib_inv s \<longleftrightarrow> sys_inv s \<and> stopping_inv (lib s) (stopping s) \<and> holder_inv (lib s) (mutex s)"

lemma holder_inv_None [simp]: "holder_inv j None"
  by (simp add: holder_inv_def)

lemma stopping_inv_remove: "stopping_inv j S \<Longrightarrow> stopping_inv j (remove1 sc S)"
  using notin_set_remove1 by (fastforce simp: stopping_inv_def)

lemma lib_step_inv:
  assumes "lib_step os s t" and "lib_inv s"
  shows "lib_inv t"
  using assms
proof (induction rule: lib_step.induct)
  case (start_call s ctx c cmd args st w')
  have "fresh_job (st_job st)"
    using Start_unlocked_job [OF start_call(1)] by (auto simp: fresh_job_def zero_Job_def)
  with start_call show ?case by (auto simp: lib_inv_def sys_inv_def pending_def launched_inv_def)
next
  case (start_commit st s)
  then have f: "fresh_job (st_job st)" "jobs (lib s) (ID (st_job st)) = None"
    by (auto simp: lib_inv_def sys_inv_def launched_inv_def)
  have "heap (Start_locked (lib s) (st_job st)) = heap (lib s) @ [st_job st]"
    by (simp add: Start_locked_def Let_def)
  moreover have "stopping_inv (Start_locked (lib s) (st_job st)) (stopping s)"
    using start_commit(3) f(2) by (auto simp: lib_inv_def stopping_inv_def Start_locked_def Let_def)
  ultimately show ?case
    using start_commit f store_inv_add [OF _ f(2)] launched_inv_remove [of "lib s" "launched s" st]
      goroutine_inv_new [of "heap (lib s)" "pending s" "st_job st"]
    by (simp add: lib_inv_def sys_inv_def pending_def)
next
  case (wait_call a pid s oc w')
  have "distinct (map fst (waiting s) @ map fst (finishing s))"
    using wait_call(3) goroutine_inv_D(1) [of "heap (lib s)" "pending s"]
    by (simp only: lib_inv_def sys_inv_def pending_def)
  note pm = pending_move [OF this wait_call(1), of oc]
  have "goroutine_inv (heap (lib s)) (map fst (remove1 (a, pid) (waiting s)) @ map fst ((a, oc) # finishing s))"
    using wait_call(3) pm by (auto simp: lib_inv_def sys_inv_def pending_def intro: goroutine_inv_perm)
  with wait_call show ?case by (simp add: lib_inv_def sys_inv_def pending_def)
next
  case (finish_commit a oc s j' w')
  obtain job where j': "j' = (lib s)\<lparr>heap := (heap (lib s))[a := job]\<rparr>" and e: "job_ended job"
    and id: "ID job = ID (heap (lib s) ! a)" "ClientName job = ClientName (heap (lib s) ! a)"
    using finish_job_lib [OF finish_commit(3)] by blast
  have g: "goroutine_inv (heap (lib s)) (map fst (waiting s) @ map fst (finishing s))"
    using finish_commit(4) by (simp add: lib_inv_def sys_inv_def pending_def)
  note pd = pending_drop [OF goroutine_inv_D(1) [OF g] finish_commit(1)]
  have "a \<in> set (map fst (waiting s) @ map fst (finishing s))" using finish_commit(1) by force
  then have a: "a < length (heap (lib s))" by (rule goroutine_inv_D(2) [OF g])
  have "goroutine_inv (heap j') (map fst (waiting s) @ map fst (remove1 (a, oc) (finishing s)))"
    unfolding arg_cong [OF j', of heap, simplified] by (rule goroutine_inv_update [OF g pd(1) e]) (simp_all only: pd(2), auto)
  moreover have "store_inv j'"
    unfolding j' using finish_commit(4) a id by (simp add: lib_inv_def sys_inv_def store_inv_heap_update)
  ultimately show ?case
    using finish_commit(2,4) by (simp add: lib_inv_def sys_inv_def pending_def stopping_inv_def j')
next
  case (stop_call s ctx c i ovr a retval w')
  then show ?case using Stop_unlocked_pointer [OF stop_call(2)]
    by (auto simp: lib_inv_def sys_inv_def pending_def stopping_inv_def)
next
  case (stop_return sc s r w')
  then show ?case by (simp add: lib_inv_def sys_inv_def pending_def stopping_inv_remove)
next
  case (stop_enter sc s w')
  then have "jobs (lib s) (sc_jobID sc) = Some (sc_job sc)" by (simp add: lib_inv_def stopping_inv_def)
  with stop_enter Stop_enter_poll [OF stop_enter(3)] show ?case
    by (simp add: lib_inv_def sys_inv_def pending_def stopping_inv_remove holder_inv_def)
next
  case (stop_done s sc perr w1 r j' w')
  have inv: "store_inv (lib s)" and g: "goroutine_inv (heap (lib s)) (pending s)"
    and p: "jobs (lib s) (sc_jobID sc) = Some (sc_job sc)"
    using stop_done(1,4) by (simp_all add: lib_inv_def sys_inv_def holder_inv_def)
  consider "j' = lib s" | t where "j' = (lib s)\<lparr>heap := (heap (lib s))[sc_job sc := stop_fields t (heap (lib s) ! sc_job sc)]\<rparr>"
    using Stop_mark_lib [OF stop_done(3)] by blast
  then show ?case
  proof cases
    case 1
    with stop_done(4) show ?thesis by (simp add: lib_inv_def sys_inv_def pending_def)
  next
    case (2 t)
    have "goroutine_inv (heap j') (pending s)"
      unfolding arg_cong [OF 2, of heap, simplified] by (rule goroutine_inv_update [OF g goroutine_inv_D(1) [OF g]]) auto
    moreover have "store_inv j'"
      unfolding 2 using store_inv_heap_update [OF inv store_invD(1) [OF inv p]] by simp
    ultimately show ?thesis
      using stop_done(4) by (simp add: lib_inv_def sys_inv_def pending_def stopping_inv_def 2)
  qed
qed (simp_all add: lib_inv_def sys_inv_def pending_def)

lemma lib_reachable_inv: "lib_reachable os s \<Longrightarrow> lib_inv s"
proof (induction rule: lib_reachable.induct)
  case (init j w)
  then show ?case
    by (simp add: lib_inv_def sys_inv_def store_inv_def jobs_of_client_def pending_def launched_inv_def
        goroutine_inv_def stopping_inv_def)
next
  case (step s t)
  then show ?case using lib_step_inv by blast
qed

section \<open>The life of a job\<close>

definition same_constants :: "Job \<Rightarrow> Job \<Rightarrow> bool" where
  "same_constants job job' \<longleftrightarrow> ID job' = ID job \<and> ClientName job' = ClientName job \<and> PID job' = PID job \<and>
     Command job' = Command job \<and> CmdArgs job' = CmdArgs job \<and>
     StartedUnixMilli job' = StartedUnixMilli job \<and> OutputFilePath job' = OutputFilePath job"

text \<open>
  How an object may change: what \<open>Start\<close> recorded stays, a completed job is final, a job stopped by
  the API keeps that state and its end time, and no job returns to an earlier state.
\<close>

definition job_evolves :: "Job \<Rightarrow> Job \<Rightarrow> bool" where
  "job_evolves job job' \<longleftrightarrow> same_constants job job' \<and> JState job \<le> JState job' \<and>
     (JState job = Completed \<longrightarrow> job' = job) \<and>
     (JState job = TerminatedByAPI \<longrightarrow>
        JState job' = TerminatedByAPI \<and> EndedUnixMilli job' = EndedUnixMilli job)"

lemma job_evolves_refl [intro, simp]: "job_evolves job job"
  by (simp add: job_evolves_def same_constants_def)

lemma job_evolves_trans: "job_evolves a b \<Longrightarrow> job_evolves b c \<Longrightarrow> job_evolves a c"
  by (auto simp: job_evolves_def same_constants_def intro: order_trans)

lemma job_evolves_stop: "\<not> job_ended job \<Longrightarrow> job_evolves job (stop_fields t job)"
  by (cases "JState job")
    (simp_all add: job_evolves_def same_constants_def stop_fields_def job_ended_def less_eq_JobState_def)

lemma job_evolves_finish:
  assumes "run_state (finish_job os j a oc) w = (j', w')" and "JState (heap j ! a) \<noteq> Completed"
  shows "jobs j' = jobs j \<and> (\<exists>job. heap j' = (heap j)[a := job] \<and> job_evolves (heap j ! a) job)"
proof -
  let ?f = "finish_fields oc (heap j ! a)"
  obtain t where j': "j' = j\<lparr>heap := (heap j)[a := (let job = ?f in
      if JState (heap j ! a) = TerminatedByAPI then job
      else job\<lparr>JState := Completed, EndedUnixMilli := t\<rparr>)]\<rparr>"
    using finish_job_run [of os j a oc w] assms(1) by auto
  have "job_evolves (heap j ! a) (if JState (heap j ! a) = TerminatedByAPI then ?f
      else ?f\<lparr>JState := Completed, EndedUnixMilli := t\<rparr>)"
    using assms(2) by (cases "JState (heap j ! a)")
      (simp_all add: job_evolves_def same_constants_def finish_fields_def less_eq_JobState_def)
  then show ?thesis unfolding j' by (auto simp: Let_def)
qed

lemma lib_step_object:
  assumes "lib_step os s t" and "lib_inv s" and "jobs (lib s) i = Some a"
  shows "jobs (lib t) i = Some a \<and> job_evolves (heap (lib s) ! a) (heap (lib t) ! a)"
  using assms
proof (induction rule: lib_step.induct)
  case (start_commit st s)
  then have "a < length (heap (lib s))" and "jobs (lib s) (ID (st_job st)) = None"
    by (auto simp: lib_inv_def sys_inv_def launched_inv_def dest: store_invD(1))
  with start_commit(4) show ?case by (auto simp: Start_locked_def Let_def nth_append)
next
  case (finish_commit b oc s j' w')
  have g: "goroutine_inv (heap (lib s)) (pending s)" using finish_commit(4) by (simp add: lib_inv_def sys_inv_def)
  have "b \<in> set (pending s)" using finish_commit(1) by (force simp: pending_def)
  then have "JState (heap (lib s) ! b) \<noteq> Completed" and "b < length (heap (lib s))"
    using goroutine_inv_D(5,2) [OF g] by blast+
  with job_evolves_finish [OF finish_commit(3)] finish_commit(5) show ?case
    by (cases "a = b") auto
next
  case (stop_done s sc perr w1 r j' w')
  have p: "jobs (lib s) (sc_jobID sc) = Some (sc_job sc)" and e: "\<not> job_ended (heap (lib s) ! sc_job sc)"
    using stop_done(1,4) by (simp_all add: lib_inv_def holder_inv_def)
  have len: "sc_job sc < length (heap (lib s))"
    using stop_done(4) p by (auto simp: lib_inv_def sys_inv_def dest: store_invD(1))
  from Stop_mark_lib [OF stop_done(3)] stop_done(5) len e show ?case
    by (cases "a = sc_job sc") (auto intro: job_evolves_stop)
qed simp_all

lemma lib_steps_object:
  assumes "(lib_step os)\<^sup>*\<^sup>* s t" and "lib_reachable os s" and "jobs (lib s) i = Some a"
  shows "lib_reachable os t \<and> jobs (lib t) i = Some a \<and> job_evolves (heap (lib s) ! a) (heap (lib t) ! a)"
  using assms
proof (induction rule: rtranclp_induct)
  case base
  then show ?case by simp
next
  case (step t u)
  then have r: "lib_reachable os t" and a: "jobs (lib t) i = Some a"
    and e: "job_evolves (heap (lib s) ! a) (heap (lib t) ! a)" by simp_all
  have "jobs (lib u) i = Some a \<and> job_evolves (heap (lib t) ! a) (heap (lib u) ! a)"
    using lib_step_object [OF step(2) lib_reachable_inv [OF r] a] .
  with e lib_reachable.step [OF r step(2)] show ?case using job_evolves_trans by blast
qed

lemma count_list_distinct: "distinct xs \<Longrightarrow> count_list xs a = (if a \<in> set xs then 1 else 0)"
  by (induction xs) auto

text \<open>
  Property C1: along every interleaving of calls, goroutines and changes of the world, a registered
  job stays registered and only evolves forward: its identifier, owner, process, command, start time
  and output file never change, a completed job never changes again, and a job stopped by the API
  keeps that state and its end time.
\<close>

theorem job_lifecycle:
  assumes "lib_reachable os s" and "(lib_step os)\<^sup>*\<^sup>* s t" and "lookup_job (lib s) i = Some job"
  shows "\<exists>job'. lookup_job (lib t) i = Some job' \<and> job_evolves job job'"
proof -
  obtain a where "jobs (lib s) i = Some a" and "job = heap (lib s) ! a"
    using assms(3) by (auto simp: lookup_job_def)
  with lib_steps_object [OF assms(2,1)] show ?thesis by (auto simp: lookup_job_def)
qed

text \<open>
  Property C5: in every reachable state the list of a client is exact: it has no duplicates and
  holds the identifiers of just the registered jobs of that client, so the lists of two clients are
  disjoint and every job is on exactly one list.
\<close>

theorem client_index_exact:
  assumes "lib_reachable os s"
  shows "distinct (jobs_of_client (lib s) c) \<and>
    (\<forall>i. i \<in> set (jobs_of_client (lib s) c) \<longleftrightarrow>
       (\<exists>job. lookup_job (lib s) i = Some job \<and> ClientName job = c \<and> ID job = i)) \<and>
    (\<forall>d. d \<noteq> c \<longrightarrow> set (jobs_of_client (lib s) c) \<inter> set (jobs_of_client (lib s) d) = {})"
proof -
  have inv: "store_inv (lib s)" using lib_reachable_inv [OF assms] by (simp add: lib_inv_def sys_inv_def)
  show ?thesis
    using store.owned_distinct [OF inv] store.owned_iff [OF inv] store.lookup_ID [OF inv]
      store.owned_disjoint [OF inv] by metis
qed

text \<open>
  Property C6: in every reachable state a registered job is either as \<open>Start\<close> made it or ended; as
  long as it is running exactly one goroutine still waits for its process or is about to record its
  end, and a completed job has none: no job stays running because its goroutine was lost.
\<close>

theorem running_job_has_goroutine:
  assumes "lib_reachable os s" and "jobs (lib s) i = Some a"
  shows "(fresh_job (heap (lib s) ! a) \<or> job_ended (heap (lib s) ! a)) \<and>
    (JState (heap (lib s) ! a) = Running \<longrightarrow> count_list (pending s) a = 1) \<and>
    (JState (heap (lib s) ! a) = Completed \<longrightarrow> count_list (pending s) a = 0)"
proof -
  have g: "goroutine_inv (heap (lib s)) (pending s)" and "store_inv (lib s)"
    using lib_reachable_inv [OF assms(1)] by (simp_all add: lib_inv_def sys_inv_def)
  then have a: "a < length (heap (lib s))" using store_invD(1) assms(2) by blast
  have "job_ok (heap (lib s) ! a)" by (rule goroutine_inv_D(3) [OF g a])
  moreover have "count_list (pending s) a = 1" if "JState (heap (lib s) ! a) = Running"
    using goroutine_inv_D(1) [OF g] goroutine_inv_D(4) [OF g a that] by (simp add: count_list_distinct)
  moreover have "count_list (pending s) a = 0" if "JState (heap (lib s) ! a) = Completed"
    using goroutine_inv_D(5) [OF g] that by (auto simp: count_list_0_iff)
  ultimately show ?thesis by (simp add: job_ok_def)
qed

section \<open>Replies\<close>

text \<open>What a call has reported about a job stays true of it: the job has only evolved from there.\<close>

definition replies_inv :: "'w system \<Rightarrow> bool" where
  "replies_inv s \<longleftrightarrow> (\<forall>job. Reported job \<in> set (replies s) \<longrightarrow>
     (\<exists>job'. lookup_job (lib s) (ID job) = Some job' \<and> job_evolves job job'))"

lemma lib_step_lookup:
  assumes "lib_step os s t" and "lib_inv s" and "lookup_job (lib s) i = Some job"
  shows "\<exists>job'. lookup_job (lib t) i = Some job' \<and> job_evolves job job'"
  using assms(3) lib_step_object [OF assms(1,2)] by (auto simp: lookup_job_def)

lemma new_replies:
  assumes "lib_step os s t" and "Reported job \<in> set (replies t)" and "lib_inv s"
  shows "Reported job \<in> set (replies s) \<or> lookup_job (lib s) (ID job) = Some job \<and> lib t = lib s"
  using assms
proof (induction rule: lib_step.induct)
  case (status_call s c i ovr job' w' ctx)
  then show ?case using status.access [OF status_call(2)] store_invD(2)
    by (auto simp: may_access_def lookup_job_def lib_inv_def sys_inv_def)
next
  case (stream_call s c i ovr job' w' ctx)
  then show ?case using stream_setup.access [OF stream_call(2)] store_invD(2)
    by (auto simp: may_access_def lookup_job_def lib_inv_def sys_inv_def)
qed (auto simp: reply_of_def split: sum.splits)

lemma lib_step_replies:
  assumes "lib_step os s t" and "lib_inv s" and "replies_inv s"
  shows "replies_inv t"
  unfolding replies_inv_def
proof (intro allI impI)
  fix job assume r: "Reported job \<in> set (replies t)"
  from new_replies [OF assms(1) r assms(2)]
  show "\<exists>job'. lookup_job (lib t) (ID job) = Some job' \<and> job_evolves job job'"
  proof
    assume "Reported job \<in> set (replies s)"
    then obtain k where k: "lookup_job (lib s) (ID job) = Some k" "job_evolves job k"
      using assms(3) by (auto simp: replies_inv_def)
    with lib_step_lookup [OF assms(1,2) k(1)] job_evolves_trans show ?thesis by blast
  qed auto
qed

lemma lib_reachable_replies: "lib_reachable os s \<Longrightarrow> replies_inv s"
proof (induction rule: lib_reachable.induct)
  case (init j w)
  then show ?case by (simp add: replies_inv_def)
next
  case (step s t)
  then show ?case using lib_step_replies lib_reachable_inv by blast
qed

text \<open>
  Property C17: what \<open>Status\<close> or \<open>StreamOutputSetup\<close> has ever returned stays true: at any later time the
  job with that identifier is the one reported or has evolved from it, so its owner, command and
  process are those reported, and a job reported as Completed is still exactly as reported.
\<close>

theorem reports_stay_true:
  assumes "lib_reachable os s" and "Reported job \<in> set (replies s)"
  shows "\<exists>job'. lookup_job (lib s) (ID job) = Some job' \<and> job_evolves job job' \<and>
    (JState job = Completed \<longrightarrow> job' = job)"
  using lib_reachable_replies [OF assms(1)] assms(2) by (auto simp: replies_inv_def job_evolves_def)

section \<open>Well-formed jobs\<close>

text \<open>
  A job as its record promises: named, owned, with a command, in one of the three states a started
  job can have, and with the fields that only the end of a job sets untouched while it runs.
\<close>

definition well_formed :: "Job \<Rightarrow> bool" where
  "well_formed job \<longleftrightarrow> ID job \<noteq> '''' \<and> ClientName job \<noteq> '''' \<and> Command job \<noteq> '''' \<and>
     (fresh_job job \<or> job_ended job)"

lemma well_formed_intros [intro]:
  "fresh_job job \<Longrightarrow> well_formed job"
  "well_formed job \<Longrightarrow> well_formed (stop_fields t job)"
  by (auto simp: well_formed_def fresh_job_def stop_fields_def job_ended_def)

lemma finish_well_formed:
  assumes "run_state (finish_job os j a oc) w = (j', w')" and "\<forall>job \<in> set (heap j). well_formed job"
  shows "\<forall>job \<in> set (heap j'). well_formed job"
proof -
  obtain t where j': "heap j' = (heap j)[a := (let job = finish_fields oc (heap j ! a) in
      if JState (heap j ! a) = TerminatedByAPI then job else job\<lparr>JState := Completed, EndedUnixMilli := t\<rparr>)]"
    using finish_job_run [of os j a oc w] assms(1) by auto
  show ?thesis
  proof (cases "a < length (heap j)")
    case True
    then have "well_formed (heap j ! a)" using assms(2) by simp
    then have "well_formed (let job = finish_fields oc (heap j ! a) in
      if JState (heap j ! a) = TerminatedByAPI then job else job\<lparr>JState := Completed, EndedUnixMilli := t\<rparr>)"
      by (auto simp: well_formed_def finish_fields_def job_ended_def Let_def)
    then show ?thesis unfolding j' using assms(2) by (auto dest!: set_update_subset_insert [THEN subsetD])
  next
    case False
    then show ?thesis using assms(2) by (simp add: j' list_update_beyond)
  qed
qed

fun reply_typed :: "reply \<Rightarrow> bool" where
  "reply_typed (Started i) \<longleftrightarrow> i \<noteq> ''''"
| "reply_typed (Stopped job) \<longleftrightarrow> well_formed job"
| "reply_typed (Reported job) \<longleftrightarrow> well_formed job"

definition typed_inv :: "'w system \<Rightarrow> bool" where
  "typed_inv s \<longleftrightarrow> (\<forall>job \<in> set (heap (lib s)). well_formed job) \<and>
     (\<forall>sc \<in> set (stopping s) \<union> set_option (mutex s). well_formed (sc_retval sc)) \<and>
     (\<forall>r \<in> set (replies s). reply_typed r)"

lemma Stop_enter_result:
  "run_state (Stop_enter os j c i ovr a retval) w = (Some r, w') \<Longrightarrow> r = Inr job \<Longrightarrow> job = retval"
  by (auto simp: Stop_enter_def Let_def go_run split: go_split if_splits)

lemma registered_typed:
  "lib_inv s \<Longrightarrow> typed_inv s \<Longrightarrow> jobs (lib s) i = Some a \<Longrightarrow> well_formed (heap (lib s) ! a)"
  by (auto simp: typed_inv_def lib_inv_def sys_inv_def dest: store_invD(1))

lemma lib_step_typed:
  assumes "lib_step os s t" and "lib_inv s" and "typed_inv s"
  shows "typed_inv t"
  using assms
proof (induction rule: lib_step.induct)
  case (start_commit st s)
  then have "fresh_job (st_job st)" by (simp add: lib_inv_def sys_inv_def launched_inv_def)
  with start_commit(4) show ?case
    by (auto simp: typed_inv_def Start_locked_def Let_def) (simp add: fresh_job_def)
next
  case (finish_commit a oc s j' w')
  with finish_well_formed [OF finish_commit(3)] show ?case by (simp add: typed_inv_def)
next
  case stop_call
  note p = Stop_unlocked_pointer [OF stop_call(2)]
  with registered_typed [OF stop_call(3,4)] stop_call(4) show ?case by (auto simp: typed_inv_def)
next
  case (stop_return sc s r w')
  then have "well_formed (sc_retval sc)" by (simp add: typed_inv_def)
  then have "\<forall>x \<in> set (reply_of r). reply_typed x"
    using Stop_enter_result [OF stop_return(3)] by (cases r) (auto simp: reply_of_def)
  then show ?case using stop_return(5) set_remove1_subset [of sc "stopping s"]
    by (auto simp: typed_inv_def)
next
  case (stop_enter sc s w')
  then show ?case using set_remove1_subset [of sc "stopping s"] by (auto simp: typed_inv_def)
next
  case (stop_done s sc perr w1 r j' w')
  then have v: "well_formed (sc_retval sc)" by (simp add: typed_inv_def)
  have p: "jobs (lib s) (sc_jobID sc) = Some (sc_job sc)" using stop_done(1,4) by (simp add: lib_inv_def holder_inv_def)
  note a = registered_typed [OF stop_done(4,5) p]
  have "\<forall>job \<in> set (heap j'). well_formed job"
    using Stop_mark_lib [OF stop_done(3)] stop_done(5) a
    by (auto simp: typed_inv_def dest!: set_update_subset_insert [THEN subsetD])
  moreover have "\<forall>x \<in> set (reply_of r). reply_typed x"
    using Stop_mark_run [of os "lib s" "sc_client sc" "sc_jobID sc" "sc_job sc" "sc_retval sc" w1] stop_done(3) v
    by (auto simp: reply_of_def)
  ultimately show ?case using stop_done(5) by (auto simp: typed_inv_def)
next
  case status_call
  from status.access [OF status_call(2)] registered_typed [OF status_call(3,4)] status_call(4)
  show ?case by (auto simp: typed_inv_def may_access_def)
next
  case stream_call
  from stream_setup.access [OF stream_call(2)] registered_typed [OF stream_call(3,4)] stream_call(4)
  show ?case by (auto simp: typed_inv_def may_access_def)
qed (auto simp: typed_inv_def)

lemma lib_reachable_typed: "lib_reachable os s \<Longrightarrow> typed_inv s"
proof (induction rule: lib_reachable.induct)
  case (init j w)
  then show ?case by (simp add: typed_inv_def)
next
  case (step s t)
  then show ?case using lib_step_typed lib_reachable_inv by blast
qed

text \<open>
  Property C18: the library and what it gives out are well typed.  In every reachable state each registered
  job, and each job any call has returned, has an identifier, an owner and a command and is in one of
  the states Running, TerminatedByAPI and Completed; while it is Running its exit code, signal,
  message and end time are unset.
\<close>

theorem jobs_well_formed:
  assumes "lib_reachable os s"
  shows "(\<forall>i job. lookup_job (lib s) i = Some job \<longrightarrow> well_formed job) \<and>
    (\<forall>job. Reported job \<in> set (replies s) \<or> Stopped job \<in> set (replies s) \<longrightarrow> well_formed job) \<and>
    (\<forall>i. Started i \<in> set (replies s) \<longrightarrow> i \<noteq> '''')"
proof -
  note t = lib_reachable_typed [OF assms]
  have "well_formed job" if "lookup_job (lib s) i = Some job" for i job
    using that registered_typed [OF lib_reachable_inv [OF assms] t] by (auto simp: lookup_job_def)
  with t show ?thesis by (force simp: typed_inv_def)
qed

section \<open>The mutex\<close>

definition still_polling :: "'w os \<Rightarrow> stop_call \<Rightarrow> 'w system \<Rightarrow> 'w system \<Rightarrow> bool" where
  "still_polling os sc s t \<longleftrightarrow> lib_step os s t \<and>
     fst (run_state (sig_probe os (stop_pid (lib s) sc)) (world s)) = None"

lemma polling_step:
  "lib_step os s t \<Longrightarrow> mutex s = Some sc \<Longrightarrow>
     fst (run_state (sig_probe os (stop_pid (lib s) sc)) (world s)) = None \<Longrightarrow>
     mutex t = Some sc \<and> lib t = lib s \<and> replies t = replies s"
  by (induction rule: lib_step.induct) auto


section \<open>A run\<close>

text \<open>
  A client starts a job and asks to stop it; before the call gets the mutex the process ends and
  its goroutine records that.
\<close>

definition demo_lib :: JobsLib where
  "demo_lib = \<lparr>jobs = Map.empty, heap = [], clientToJobID = Map.empty, clientList = [''client1''],
     outputDir = ''/tmp'', ioDevMajorMinor = ''8:0''\<rparr>"

definition demo_st :: started where
  "demo_st = \<lparr>st_job = zero_Job\<lparr>ID := ''job100'', ClientName := ''client1'', PID := 103, JState := Running,
       Command := ''ls'', OutputFilePath := ''/tmp/job100.log'', StartedUnixMilli := 103\<rparr>,
     st_cgfd = 101, st_joFile = 102, st_pid = 103\<rparr>"

definition demo_world :: memw where
  "demo_world = \<lparr>m_dirs = [''/sys/fs/cgroup/jobmaster/client1/job100'', ''/sys/fs/cgroup/jobmaster/client1'',
       ''/sys/fs/cgroup/jobmaster'', ''/sys/fs/cgroup'', ''/tmp''],
     m_files = [(''/tmp/job100.log'', ''''),
       (''/sys/fs/cgroup/jobmaster/client1/job100/cpu.max'', ''10000 10000''),
       (''/sys/fs/cgroup/jobmaster/client1/job100/memory.oom.group'', ''1''),
       (''/sys/fs/cgroup/jobmaster/client1/job100/memory.max'', ''1048576''),
       (''/sys/fs/cgroup/jobmaster/client1/job100/io.max'', ''8:0 rbps=4096 wbps=4096 riops=10 wiops=10'')],
     m_procs = [(103, ''/sys/fs/cgroup/jobmaster/client1/job100'')],
     m_fds = [(102, ''/tmp/job100.log''), (101, ''/sys/fs/cgroup/jobmaster/client1/job100'')],
     m_next = 104, m_deny = []\<rparr>"

definition demo_running :: JobsLib where
  "demo_running = Start_locked demo_lib (st_job demo_st)"

definition demo_dead :: memw where
  "demo_dead = demo_world\<lparr>m_procs := []\<rparr>"

definition demo_waited :: "outcome \<times> memw" where
  "demo_waited = run_state (wait_job mem_os ''job100'' ''client1'' (st_pid demo_st)) demo_dead"

definition demo_finished :: "JobsLib \<times> memw" where
  "demo_finished = run_state (finish_job mem_os demo_running 0 (fst demo_waited)) (snd demo_waited)"

definition demo_call :: stop_call where
  "demo_call = \<lparr>sc_client = ''client1'', sc_jobID = ''job100'', sc_override = False, sc_job = 0,
     sc_retval = st_job demo_st\<rparr>"

definition demo_after_start :: "memw system" where
  "demo_after_start = \<lparr>lib = demo_running, world = demo_world, launched = [],
     waiting = [(0, st_pid demo_st)], finishing = [], stopping = [], mutex = None,
     replies = [Started ''job100'']\<rparr>"

definition demo_end :: "memw system" where
  "demo_end = \<lparr>lib = fst demo_finished, world = snd demo_finished, launched = [], waiting = [],
     finishing = [], stopping = [demo_call], mutex = None,
     replies = [Reported (st_job demo_st), Started ''job100'']\<rparr>"

lemma demo_started:
  "run_state (Start_unlocked mem_os ''/tmp'' ''8:0'' 0 ''client1'' ''ls'' []) mem_one_client = (Inr demo_st, demo_world)"
  by code_simp

lemma demo_st: "ID (st_job demo_st) = ''job100''"
  "ClientName (st_job demo_st) = ''client1''" "JState (st_job demo_st) = Running"
  by (simp_all add: demo_st_def)

lemma demo_running_simps:
  "jobs demo_running = [''job100'' \<mapsto> 0]" "heap demo_running = [st_job demo_st]"
  "outputDir demo_lib = ''/tmp''" "ioDevMajorMinor demo_lib = ''8:0''" "jobs demo_lib = Map.empty" "heap demo_lib = []"
  by (simp_all add: demo_running_def Start_locked_def Let_def demo_lib_def demo_st)

lemma demo_start_reachable: "lib_reachable mem_os demo_after_start"
proof -
  let ?s0 = "\<lparr>lib = demo_lib, world = mem_one_client, launched = [], waiting = [], finishing = [], stopping = [],
      mutex = None, replies = []\<rparr>"
  have r0: "lib_reachable mem_os ?s0" by (rule lib_reachable.init) (simp_all add: demo_lib_def)
  have "lib_step mem_os ?s0 (?s0\<lparr>world := demo_world, launched := demo_st # launched ?s0\<rparr>)"
    by (rule lib_step.start_call [where ctx = 0 and c = "''client1''" and cmd = "''ls''" and args = "[]"])
      (simp_all add: demo_running_simps demo_started)
  then have r1: "lib_reachable mem_os (?s0\<lparr>world := demo_world, launched := [demo_st]\<rparr>)"
    using lib_reachable.step [OF r0] by simp
  show ?thesis
    using lib_reachable.step [OF r1 lib_step.start_commit [of demo_st]]
    by (simp add: demo_after_start_def demo_running_simps demo_running_def demo_st)
qed

lemma demo_run: "(lib_step mem_os)\<^sup>*\<^sup>* demo_after_start demo_end"
proof -
  let ?s0 = "demo_after_start\<lparr>replies := [Reported (st_job demo_st), Started ''job100'']\<rparr>"
  let ?s1 = "?s0\<lparr>stopping := [demo_call]\<rparr>"
  let ?s2 = "?s1\<lparr>world := demo_dead\<rparr>"
  let ?s3 = "?s2\<lparr>world := snd demo_waited, waiting := [], finishing := [(0, fst demo_waited)]\<rparr>"
  have "run_state (Stop_unlocked mem_os demo_running 0 ''client1'' ''job100'' False) demo_world
      = (Inr (0, st_job demo_st), demo_world)"
    by code_simp
  then have "lib_step mem_os ?s0
      (?s0\<lparr>world := demo_world, stopping := demo_call # stopping ?s0\<rparr>)"
    unfolding demo_call_def
    by (intro lib_step.stop_call [where ctx = 0]) (simp_all add: demo_after_start_def)
  then have "lib_step mem_os ?s0 ?s1" by (simp add: demo_after_start_def)
  moreover have "run_state (Status mem_os demo_running 0 ''client1'' ''job100'' False) demo_world
      = (Inr (st_job demo_st), demo_world)"
    by (simp add: Status_def query_defs copy_Job_def go_run mem_os_run demo_running_simps demo_st)
  then have "lib_step mem_os demo_after_start
      (demo_after_start\<lparr>world := demo_world, replies := Reported (st_job demo_st) # replies demo_after_start\<rparr>)"
    by (intro lib_step.status_call [where ctx = 0]) (simp_all add: demo_after_start_def)
  then have "lib_step mem_os demo_after_start ?s0" by (simp add: demo_after_start_def)
  moreover have "lib_step mem_os ?s1 ?s2" by (rule lib_step.environment)
  moreover have "lib_step mem_os ?s2 (?s2\<lparr>world := snd demo_waited,
      waiting := remove1 (0, st_pid demo_st) (waiting ?s2), finishing := (0, fst demo_waited) # finishing ?s2\<rparr>)"
    by (rule lib_step.wait_call)
      (simp_all add: demo_after_start_def demo_running_simps demo_st demo_waited_def)
  then have "lib_step mem_os ?s2 ?s3" by (simp add: demo_after_start_def)
  moreover have "lib_step mem_os ?s3 (?s3\<lparr>lib := fst demo_finished, world := snd demo_finished,
      finishing := remove1 (0, fst demo_waited) (finishing ?s3)\<rparr>)"
    by (rule lib_step.finish_commit) (simp_all add: demo_after_start_def demo_finished_def)
  then have "lib_step mem_os ?s3 demo_end" by (simp add: demo_after_start_def demo_end_def)
  ultimately show ?thesis
    by (meson converse_rtranclp_into_rtranclp rtranclp.rtrancl_refl)
qed

lemma demo_end_reachable: "lib_reachable mem_os demo_end"
  using lib_steps_object [OF demo_run demo_start_reachable, of "''job100''" 0]
  by (simp add: demo_after_start_def demo_running_simps)

lemma demo_end_job:
  "jobs (lib demo_end) ''job100'' = Some 0" "length (heap (lib demo_end)) = 1"
  "JState (heap (lib demo_end) ! 0) = Completed" "ClientName (heap (lib demo_end) ! 0) = ''client1''"
proof -
  obtain t where "lib demo_end = demo_running\<lparr>heap := (heap demo_running)[0 :=
      (let job = finish_fields (fst demo_waited) (heap demo_running ! 0) in
       if JState (heap demo_running ! 0) = TerminatedByAPI then job
       else job\<lparr>JState := Completed, EndedUnixMilli := t\<rparr>)]\<rparr>"
    using finish_job_run [of mem_os demo_running 0 "fst demo_waited" "snd demo_waited"]
    by (auto simp: demo_end_def demo_finished_def)
  then show "jobs (lib demo_end) ''job100'' = Some 0" "length (heap (lib demo_end)) = 1"
    "JState (heap (lib demo_end) ! 0) = Completed" "ClientName (heap (lib demo_end) ! 0) = ''client1''"
    by (simp_all add: demo_running_simps demo_st Let_def finish_fields_def)
qed

theorem job_lifecycle_witness:
  "\<exists>job'. lookup_job (lib demo_end) ''job100'' = Some job' \<and> job_evolves (st_job demo_st) job'"
  by (rule job_lifecycle [OF demo_start_reachable demo_run])
    (simp add: lookup_job_def demo_after_start_def demo_running_simps)

theorem client_index_exact_witness: "''job100'' \<in> set (jobs_of_client (lib demo_end) ''client1'')"
proof -
  have inv: "store_inv (lib demo_end)" using lib_reachable_inv [OF demo_end_reachable] by (simp add: lib_inv_def sys_inv_def)
  show ?thesis
    using client_index_exact [OF demo_end_reachable, of "''client1''"] demo_end_job
      store_invD(2) [OF inv demo_end_job(1)] by (auto simp: lookup_job_def)
qed

theorem running_job_has_goroutine_witness: "count_list (pending demo_after_start) 0 = 1"
proof -
  have "jobs (lib demo_after_start) ''job100'' = Some 0"
    by (simp add: demo_after_start_def demo_running_simps)
  from running_job_has_goroutine [OF demo_start_reachable this] show ?thesis
    by (simp add: demo_after_start_def demo_running_simps demo_st)
qed

text \<open>
  Fact: \<open>Stop\<close> can report success with a stale copy: it copies the job before it takes the
  mutex, and when the job ended in between it returns that copy, which says Running, although the
  job is Completed.
\<close>

theorem Stop_returns_stale_copy:
  "\<exists>s sc job w'. lib_reachable mem_os s \<and> sc \<in> set (stopping s) \<and>
     Stop_locked mem_os (lib s) (sc_client sc) (sc_jobID sc) (sc_override sc) (sc_job sc) (sc_retval sc) (world s)
       = Some ((Inr job, lib s), w') \<and>
     JState job = Running \<and> EndedUnixMilli job = 0 \<and>
     JState (heap (lib s) ! sc_job sc) = Completed \<and> jobs (lib s) (sc_jobID sc) = Some (sc_job sc)"
proof (intro exI conjI)
  show "lib_reachable mem_os demo_end" by (rule demo_end_reachable)
  show "demo_call \<in> set (stopping demo_end)" by (simp add: demo_end_def)
  show "Stop_locked mem_os (lib demo_end) (sc_client demo_call) (sc_jobID demo_call) (sc_override demo_call)
      (sc_job demo_call) (sc_retval demo_call) (world demo_end) = Some ((Inr (st_job demo_st), lib demo_end), world demo_end)"
    using demo_end_job by (simp add: Stop_locked_eq Let_def demo_call_def job_ended_def)
  show "EndedUnixMilli (st_job demo_st) = 0" by code_simp
qed (simp_all add: demo_st demo_end_job demo_call_def)

theorem reports_stay_true_witness:
  "\<exists>job'. lookup_job (lib demo_end) ''job100'' = Some job' \<and> job_evolves (st_job demo_st) job' \<and> JState job' = Completed"
proof -
  have "Reported (st_job demo_st) \<in> set (replies demo_end)" by (simp add: demo_end_def)
  from reports_stay_true [OF demo_end_reachable this] show ?thesis
    using demo_end_job by (auto simp: demo_st lookup_job_def)
qed

theorem jobs_well_formed_witness: "well_formed (st_job demo_st) \<and> well_formed (heap (lib demo_end) ! 0)"
proof -
  have "lookup_job (lib demo_end) ''job100'' = Some (heap (lib demo_end) ! 0)"
    using demo_end_job by (simp add: lookup_job_def)
  moreover have "Reported (st_job demo_st) \<in> set (replies demo_end)" by (simp add: demo_end_def)
  ultimately show ?thesis using jobs_well_formed [OF demo_end_reachable] by blast
qed

text \<open>The superuser stops the job of client1: nothing is killed, and the call polls.\<close>

definition hang_call :: stop_call where
  "hang_call = \<lparr>sc_client = ''superuser'', sc_jobID = ''job100'', sc_override = True, sc_job = 0,
     sc_retval = st_job demo_st\<rparr>"

definition hang_world :: memw where
  "hang_world = demo_world\<lparr>m_dirs := client_dir ''superuser'' # m_dirs demo_world\<rparr>"

definition hang_state :: "memw system" where
  "hang_state = demo_after_start\<lparr>world := hang_world, mutex := Some hang_call\<rparr>"

lemma hang_reachable: "lib_reachable mem_os hang_state"
proof -
  let ?s1 = "demo_after_start\<lparr>world := hang_world\<rparr>"
  let ?s2 = "?s1\<lparr>stopping := [hang_call]\<rparr>"
  have "run_state (Stop_unlocked mem_os demo_running 0 ''superuser'' ''job100'' True) hang_world
      = (Inr (0, st_job demo_st), hang_world)"
    by code_simp
  then have "lib_step mem_os ?s1 (?s1\<lparr>world := hang_world, stopping := hang_call # stopping ?s1\<rparr>)"
    unfolding hang_call_def
    by (intro lib_step.stop_call [where ctx = 0]) (simp_all add: demo_after_start_def)
  then have c: "lib_step mem_os ?s1 ?s2" by (simp add: demo_after_start_def)
  have "run_state (Stop_enter mem_os demo_running ''superuser'' ''job100'' True 0 (st_job demo_st)) hang_world
      = (None, hang_world)"
    by code_simp
  then have "lib_step mem_os ?s2 (?s2\<lparr>world := hang_world, stopping := remove1 hang_call (stopping ?s2),
      mutex := Some hang_call\<rparr>)"
    by (intro lib_step.stop_enter) (simp_all add: demo_after_start_def hang_call_def)
  then have e: "lib_step mem_os ?s2 hang_state" by (simp add: demo_after_start_def hang_state_def)
  have "lib_step mem_os demo_after_start ?s1" by (rule lib_step.environment)
  from lib_reachable.step [OF lib_reachable.step [OF lib_reachable.step [OF demo_start_reachable this] c] e]
  show ?thesis .
qed


end
