(* ===== verification/Registry.thy ===== *)
theory Registry
  imports JobsLibRun
begin

text \<open>
  What the job library promises its callers, as an abstract machine: a registry that maps the
  identifiers of jobs to their owner and their state.  Jobs are registered as running, a running job
  is stopped by its owner or by a caller with the override, or it completes; nothing else happens.
  The interleaved library of theory \<open>JobsLibRun\<close> refines this machine, by a simulation with stuttering.
\<close>

section \<open>The abstract machine\<close>

type_synonym registry = "string \<Rightarrow> (string \<times> JobState) option"

datatype action = Registers string | Stops string bool | Completes

inductive registry_step :: "registry \<Rightarrow> action \<Rightarrow> registry \<Rightarrow> bool" where
  registers: "R i = None \<Longrightarrow> i \<noteq> '''' \<Longrightarrow> c \<noteq> '''' \<Longrightarrow> registry_step R (Registers c) (R(i \<mapsto> (c, Running)))"
| stops: "R i = Some (owner, Running) \<Longrightarrow> ovr \<or> owner = c \<Longrightarrow>
    registry_step R (Stops c ovr) (R(i \<mapsto> (owner, TerminatedByAPI)))"
| completes: "R i = Some (owner, Running) \<Longrightarrow> registry_step R Completes (R(i \<mapsto> (owner, Completed)))"

inductive_cases registry_stepE: "registry_step R act R'"

definition registry_next :: "registry \<Rightarrow> registry \<Rightarrow> bool" where
  "registry_next R R' \<longleftrightarrow> (\<exists>act. registry_step R act R')"

text \<open>A job of the registry is never lost, keeps its owner, and once ended keeps its state.\<close>

lemma registry_next_keeps:
  "registry_next R R' \<Longrightarrow> R i = Some (owner, st) \<Longrightarrow>
     \<exists>st'. R' i = Some (owner, st') \<and> (st \<noteq> Running \<longrightarrow> st' = st)"
  by (auto simp: registry_next_def elim!: registry_stepE)

lemma registry_run_keeps:
  "registry_next\<^sup>*\<^sup>* R R' \<Longrightarrow> R i = Some (owner, st) \<Longrightarrow>
     \<exists>st'. R' i = Some (owner, st') \<and> (st \<noteq> Running \<longrightarrow> st' = st)"
proof (induction rule: rtranclp_induct)
  case base
  then show ?case by simp
next
  case (step S T)
  then show ?case using registry_next_keeps [of S T i owner] by metis
qed

section \<open>Simulations\<close>

locale stuttering_simulation =
  fixes cinit :: "'c \<Rightarrow> bool" and cstep :: "'c \<Rightarrow> 'c \<Rightarrow> bool" and invar :: "'c \<Rightarrow> bool"
    and abstr :: "'c \<Rightarrow> 'a" and ainit :: 'a and astep :: "'a \<Rightarrow> 'a \<Rightarrow> bool"
  assumes invar_init: "cinit s \<Longrightarrow> invar s"
    and abstr_init: "cinit s \<Longrightarrow> abstr s = ainit"
    and invar_step: "cstep s t \<Longrightarrow> invar s \<Longrightarrow> invar t"
    and abstr_step: "cstep s t \<Longrightarrow> invar s \<Longrightarrow> abstr t = abstr s \<or> astep (abstr s) (abstr t)"
begin

lemma steps: "cstep\<^sup>*\<^sup>* s t \<Longrightarrow> invar s \<Longrightarrow> invar t \<and> astep\<^sup>*\<^sup>* (abstr s) (abstr t)"
proof (induction rule: rtranclp_induct)
  case base
  then show ?case by simp
next
  case (step t u)
  then show ?case using invar_step abstr_step by (metis rtranclp.rtrancl_into_rtrancl)
qed

lemma reachable: "cinit s \<Longrightarrow> cstep\<^sup>*\<^sup>* s t \<Longrightarrow> astep\<^sup>*\<^sup>* ainit (abstr t)"
  using steps [of s t] invar_init abstr_init by metis

text \<open>What holds of all reachable abstract states holds of the abstraction of concrete ones.\<close>

lemma transfer: "cinit s \<Longrightarrow> cstep\<^sup>*\<^sup>* s t \<Longrightarrow> (\<And>a. astep\<^sup>*\<^sup>* ainit a \<Longrightarrow> P a) \<Longrightarrow> P (abstr t)"
  using reachable by blast

end

section \<open>The library simulates the registry\<close>

definition registry :: "JobsLib \<Rightarrow> registry" where
  "registry j i = map_option (\<lambda>job. (ClientName job, JState job)) (lookup_job j i)"

definition lib_init :: "'w system \<Rightarrow> bool" where
  "lib_init s \<longleftrightarrow> jobs (lib s) = Map.empty \<and> heap (lib s) = [] \<and> clientToJobID (lib s) = Map.empty \<and>
     launched s = [] \<and> waiting s = [] \<and> finishing s = [] \<and> stopping s = [] \<and> mutex s = None \<and> replies s = []"

lemma registry_add:
  assumes "store_inv j" and "jobs j (ID job) = None"
  shows "registry (Start_locked j job) = (registry j)(ID job \<mapsto> (ClientName job, JState job))"
  using store.lookup_add [OF assms(1), of job] assms(2)
  by (auto simp: registry_def lookup_job_def fun_eq_iff)

lemma registry_heap_update:
  assumes inv: "store_inv j" and a: "a < length (heap j)" and "ID job = ID (heap j ! a)"
  shows "registry (j\<lparr>heap := (heap j)[a := job]\<rparr>) = (registry j)(ID job \<mapsto> (ClientName job, JState job))"
proof
  fix i
  have j: "jobs j (ID job) = Some a" using store_invD(3) [OF inv a] assms(3) by simp
  have o: "b \<noteq> a" if "jobs j i = Some b" "i \<noteq> ID job" for b
    using store_invD(2) [OF inv that(1)] that(2) assms(3) by auto
  show "registry (j\<lparr>heap := (heap j)[a := job]\<rparr>) i
      = ((registry j)(ID job \<mapsto> (ClientName job, JState job))) i"
  proof (cases "i = ID job")
    case True
    then show ?thesis using j a by (simp add: registry_def lookup_job_def)
  next
    case False
    then show ?thesis using o by (cases "jobs j i") (simp_all add: registry_def lookup_job_def)
  qed
qed

lemma registry_at:
  "store_inv j \<Longrightarrow> a < length (heap j) \<Longrightarrow>
     registry j (ID (heap j ! a)) = Some (ClientName (heap j ! a), JState (heap j ! a))"
  using store_invD(3) by (simp add: registry_def lookup_job_def)

text \<open>The action of a step: which call, if any, it is the critical section of.\<close>

definition acts :: "'w system \<Rightarrow> action \<Rightarrow> bool" where
  "acts s act = (case act of
     Registers c \<Rightarrow> \<exists>st \<in> set (launched s). ClientName (st_job st) = c
   | Stops c ovr \<Rightarrow> \<exists>sc. mutex s = Some sc \<and> sc_client sc = c \<and> sc_override sc = ovr
   | Completes \<Rightarrow> finishing s \<noteq> [])"

lemma finish_job_registry:
  assumes "run_state (finish_job os j a oc) w = (j', w')" and "store_inv j" and "a < length (heap j)"
    and "JState (heap j ! a) = Running \<or> JState (heap j ! a) = TerminatedByAPI"
  shows "registry j' = registry j \<or> registry_step (registry j) Completes (registry j')"
proof -
  let ?f = "finish_fields oc (heap j ! a)"
  obtain t where "j' = j\<lparr>heap := (heap j)[a := (let job = ?f in
      if JState (heap j ! a) = TerminatedByAPI then job
      else job\<lparr>JState := Completed, EndedUnixMilli := t\<rparr>)]\<rparr>"
    using finish_job_run [of os j a oc w] assms(1) by auto
  then obtain job where j': "j' = j\<lparr>heap := (heap j)[a := job]\<rparr>" and id: "ID job = ID (heap j ! a)"
    and c: "ClientName job = ClientName (heap j ! a)"
    and st: "JState job = (if JState (heap j ! a) = TerminatedByAPI then TerminatedByAPI else Completed)"
    by (cases "JState (heap j ! a) = TerminatedByAPI") (auto simp: finish_fields_def Let_def)
  note at = registry_at [OF assms(2,3)]
  note up = registry_heap_update [OF assms(2,3) id, folded j']
  show ?thesis
  proof (cases "JState (heap j ! a)")
    case Running
    then show ?thesis
      using registry_step.completes [of "registry j" "ID job"] at up id c st by simp
  qed (use assms(4) at up id c st in \<open>simp_all add: fun_upd_idem\<close>)
qed

lemma lib_step_registry:
  assumes "lib_step os s t" and "lib_inv s"
  shows "registry (lib t) = registry (lib s) \<or>
    (\<exists>act. registry_step (registry (lib s)) act (registry (lib t)) \<and> acts s act)"
  using assms
proof (induction rule: lib_step.induct)
  case (start_commit st s)
  then have j: "store_inv (lib s)" "fresh_job (st_job st)" "jobs (lib s) (ID (st_job st)) = None"
    by (auto simp: lib_inv_def sys_inv_def launched_inv_def)
  then have "registry_step (registry (lib s)) (Registers (ClientName (st_job st)))
      (registry (Start_locked (lib s) (st_job st)))"
    using registry_step.registers [of "registry (lib s)" "ID (st_job st)" "ClientName (st_job st)"]
    by (simp add: registry_add fresh_job_def registry_def lookup_job_def)
  then show ?case using start_commit(1) by (auto simp: acts_def intro!: exI)
next
  case (finish_commit a oc s j' w')
  then have inv: "store_inv (lib s)" and g: "goroutine_inv (heap (lib s)) (pending s)"
    by (simp_all add: lib_inv_def sys_inv_def)
  have "a \<in> set (pending s)" using finish_commit(1) by (force simp: pending_def)
  then have "a < length (heap (lib s))" "JState (heap (lib s) ! a) \<noteq> Completed"
    using goroutine_inv_D(2,5) [OF g] by blast+
  moreover from this(1) have "job_ok (heap (lib s) ! a)" by (rule goroutine_inv_D(3) [OF g])
  ultimately have "registry j' = registry (lib s) \<or> registry_step (registry (lib s)) Completes (registry j')"
    by (intro finish_job_registry [OF finish_commit(3) inv]) (auto simp: job_ok_def fresh_job_def job_ended_def)
  moreover have "acts s Completes" using finish_commit(1) by (auto simp: acts_def)
  ultimately show ?case by auto
next
  case (stop_done s sc perr w1 r j' w')
  then have inv: "store_inv (lib s)" and p: "jobs (lib s) (sc_jobID sc) = Some (sc_job sc)"
    and "\<not> job_ended (heap (lib s) ! sc_job sc)"
    and acc: "sc_override sc \<or> ClientName (heap (lib s) ! sc_job sc) = sc_client sc"
    by (auto simp: lib_inv_def sys_inv_def holder_inv_def)
  note a = store_invD(1) [OF inv p]
  let ?job = "heap (lib s) ! sc_job sc"
  have "job_ok ?job"
    using goroutine_inv_D(3) [OF _ a] stop_done(4) by (auto simp: lib_inv_def sys_inv_def)
  with \<open>\<not> job_ended ?job\<close> have run: "JState ?job = Running" by (simp add: job_ok_def fresh_job_def)
  have "acts s (Stops (sc_client sc) (sc_override sc))" using stop_done(1) by (auto simp: acts_def)
  moreover have "registry_step (registry (lib s)) (Stops (sc_client sc) (sc_override sc)) (registry j')"
    if "j' = (lib s)\<lparr>heap := (heap (lib s))[sc_job sc := stop_fields t ?job]\<rparr>" for t
    using registry_step.stops [of "registry (lib s)" "ID ?job" "ClientName ?job"]
      registry_at [OF inv a] run acc unfolding that by (simp add: registry_heap_update [OF inv a])
  ultimately show ?case using Stop_mark_lib [OF stop_done(3)] by auto
qed simp_all

interpretation library: stuttering_simulation lib_init "lib_step os" lib_inv
    "\<lambda>s. registry (lib s)" Map.empty registry_next for os :: "'w os"
proof
  fix s t :: "'w system"
  show "lib_init s \<Longrightarrow> lib_inv s"
    by (simp add: lib_init_def lib_inv_def sys_inv_def store_inv_def jobs_of_client_def pending_def
        launched_inv_def goroutine_inv_def stopping_inv_def)
  show "lib_init s \<Longrightarrow> registry (lib s) = Map.empty"
    by (simp add: lib_init_def registry_def lookup_job_def fun_eq_iff)
  assume st: "lib_step os s t" and inv: "lib_inv s"
  show "lib_inv t" using lib_step_inv [OF st] inv .
  show "registry (lib t) = registry (lib s) \<or> registry_next (registry (lib s)) (registry (lib t))"
    using lib_step_registry [OF st inv] by (auto simp: registry_next_def)
qed

lemma lib_reachable_run: "lib_reachable os s \<Longrightarrow> \<exists>s0. lib_init s0 \<and> (lib_step os)\<^sup>*\<^sup>* s0 s"
proof (induction rule: lib_reachable.induct)
  case (init j w)
  then show ?case by (intro exI [of _ "\<lparr>lib = j, world = w, launched = [], waiting = [], finishing = [], stopping = [],
      mutex = None, replies = []\<rparr>"])
    (simp add: lib_init_def)
next
  case (step s t)
  then show ?case by (meson rtranclp.rtrancl_into_rtrancl)
qed

section \<open>Properties\<close>

text \<open>
  Property C2: the library refines the registry: every step of the interleaved library is
  invisible in the registry or is one of its actions, the one the step's call asks for (registering
  for its client, stopping by its client with its override, completing); a library that starts empty
  so only passes through registries the abstract machine can reach.
\<close>

theorem library_refines_registry:
  assumes "lib_init s0" and "(lib_step os)\<^sup>*\<^sup>* s0 s" and "lib_step os s t"
  shows "registry_next\<^sup>*\<^sup>* Map.empty (registry (lib s)) \<and>
    (registry (lib t) = registry (lib s) \<or>
     (\<exists>act. registry_step (registry (lib s)) act (registry (lib t)) \<and> acts s act))"
  using library.reachable [OF assms(1,2)] lib_step_registry [OF assms(3)]
    library.steps [OF assms(2)] library.invar_init [OF assms(1)] by blast

text \<open>
  Fact: \<open>Status\<close> reports what the registry says: the owner and the state of the job it
  returns are the registry's, now and, if the job has ended, after any further steps.
\<close>

theorem Status_reports_registry:
  assumes "lib_reachable os s" and "run_state (Status os (lib s) ctx c i ovr) w = (Inr job, w')"
    and "(lib_step os)\<^sup>*\<^sup>* s t"
  shows "registry (lib s) i = Some (ClientName job, JState job) \<and>
    (ovr \<or> ClientName job = c) \<and>
    (\<exists>st. registry (lib t) i = Some (ClientName job, st) \<and> (job_ended job \<longrightarrow> st = JState job))"
proof -
  have m: "may_access (lib s) c i ovr job" using status.access [OF assms(2)] .
  then have r: "registry (lib s) i = Some (ClientName job, JState job)"
    by (auto simp: may_access_def registry_def lookup_job_def)
  have "registry_next\<^sup>*\<^sup>* (registry (lib s)) (registry (lib t))"
    using library.steps [OF assms(3)] lib_reachable_inv [OF assms(1)] by blast
  from registry_run_keeps [OF this r] m r show ?thesis
    by (auto simp: may_access_def job_ended_def)
qed

theorem library_refines_registry_witness:
  "\<exists>s0. lib_init s0 \<and> (lib_step mem_os)\<^sup>*\<^sup>* s0 demo_end \<and>
     registry (lib demo_end) ''job100'' = Some (''client1'', Completed) \<and>
     registry_next\<^sup>*\<^sup>* Map.empty (registry (lib demo_end))"
proof -
  obtain s0 where s0: "lib_init s0" "(lib_step mem_os)\<^sup>*\<^sup>* s0 demo_end"
    using lib_reachable_run [OF demo_end_reachable] by blast
  have "lib_step mem_os demo_end (demo_end\<lparr>world := demo_dead\<rparr>)" by (rule lib_step.environment)
  from library_refines_registry [OF s0 this] s0 demo_end_job show ?thesis
    by (auto simp: registry_def lookup_job_def)
qed

theorem Status_reports_registry_witness:
  "registry (lib demo_after_start) ''job100'' = Some (''client1'', Running)"
proof -
  have l: "lib demo_after_start = demo_running" by (simp add: demo_after_start_def)
  have "fst (run_state (Status mem_os demo_running 0 ''client1'' ''job100'' False) mem_boot) = Inr (st_job demo_st)"
    by code_simp
  then have "run_state (Status mem_os (lib demo_after_start) 0 ''client1'' ''job100'' False) mem_boot
      = (Inr (st_job demo_st), snd (run_state (Status mem_os demo_running 0 ''client1'' ''job100'' False) mem_boot))"
    unfolding l by (metis prod.collapse)
  from Status_reports_registry [OF demo_start_reachable this rtranclp.rtrancl_refl] show ?thesis
    by (simp add: demo_st)
qed

end
