(* ===== verification/Authz.thy ===== *)
theory Authz
  imports GoBase
begin

text \<open>
  \<open>api/authz/authz.go\<close>: the table of clients and their roles.  A \<open>Role\<close> is a string type in the
  code and stays one here, so that the zero value of a missing key is visible.  A Go map has no
  order: the order in which \<open>range\<close> visits the keys is the argument \<open>ks\<close> of
  \<open>GetAuthorizedClientNames\<close>, constrained by \<open>map_order\<close>.
\<close>

type_synonym Role = string

definition Unauthorized :: Role where "Unauthorized = ''Unauthorized''"
definition Admin :: Role where "Admin = ''Admin''"
definition User :: Role where "User = ''User''"

lemmas role_defs = Unauthorized_def Admin_def User_def

definition authorizedClients :: "string \<rightharpoonup> Role" where
  "authorizedClients = [''client1'' \<mapsto> User, ''client2'' \<mapsto> User, ''client3'' \<mapsto> User, ''superuser'' \<mapsto> Admin]"

text \<open>Reading a map: a missing key gives the zero value.\<close>

definition map_get :: "(string \<rightharpoonup> string) \<Rightarrow> string \<Rightarrow> string" where
  "map_get m k = (case m k of None \<Rightarrow> '''' | Some v \<Rightarrow> v)"

definition IsClientAuthorized :: "unicode \<Rightarrow> string \<Rightarrow> bool \<times> Role" where
  "IsClientAuthorized u clientName =
     (let crole = map_get authorizedClients (ToLower u clientName);
          crole = (if crole = '''' then Unauthorized else crole)
      in (crole \<noteq> Unauthorized, crole))"

definition RoleStrToRole :: "unicode \<Rightarrow> string \<Rightarrow> Role" where
  "RoleStrToRole u roleStr =
     (let r = ToUpper u roleStr in
      if r = ''ADMIN'' then Admin else if r = ''USER'' then User else Unauthorized)"

definition map_order :: "(string \<rightharpoonup> 'v) \<Rightarrow> string list \<Rightarrow> bool" where
  "map_order m ks \<longleftrightarrow> distinct ks \<and> set ks = dom m"

fun fill_names :: "string list \<Rightarrow> nat \<Rightarrow> string list \<Rightarrow> string list" where
  "fill_names clientNames i [] = clientNames"
| "fill_names clientNames i (key # ks) = fill_names (clientNames[i := key]) (Suc i) ks"

definition GetAuthorizedClientNames :: "string list \<Rightarrow> string list" where
  "GetAuthorizedClientNames ks = fill_names (replicate (length ks) '''') 0 ks"

definition GetAuthorizedClientsWithRoles :: "string \<rightharpoonup> Role" where
  "GetAuthorizedClientsWithRoles = authorizedClients"

section \<open>Properties\<close>

lemma fill_names_eq:
  "i + length ks = length xs \<Longrightarrow> fill_names xs i ks = take i xs @ ks"
proof (induction ks arbitrary: xs i)
  case Nil
  then show ?case by simp
next
  case (Cons k ks)
  then have "take (Suc i) (xs[i := k]) = take i xs @ [k]"
    by (simp add: take_Suc_conv_app_nth)
  with Cons show ?case by simp
qed

lemma GetAuthorizedClientNames_eq [simp]: "GetAuthorizedClientNames ks = ks"
  by (simp add: GetAuthorizedClientNames_def fill_names_eq)

lemma authorizedClients_cases:
  "authorizedClients nm = Some r \<longleftrightarrow>
     nm \<in> {''client1'', ''client2'', ''client3''} \<and> r = User \<or> nm = ''superuser'' \<and> r = Admin"
  by (auto simp: authorizedClients_def split: if_splits)

lemma IsClientAuthorized_snd:
  "snd (IsClientAuthorized u nm) = (case authorizedClients (ToLower u nm) of None \<Rightarrow> Unauthorized | Some r \<Rightarrow> r)"
  by (simp add: IsClientAuthorized_def map_get_def Let_def authorizedClients_def role_defs)

lemma IsClientAuthorized_fst:
  "fst (IsClientAuthorized u nm) \<longleftrightarrow> ToLower u nm \<in> dom authorizedClients"
  by (simp add: IsClientAuthorized_def map_get_def Let_def authorizedClients_def role_defs)

lemma IsClientAuthorized_True:
  "IsClientAuthorized u nm = (True, role) \<longleftrightarrow> authorizedClients (ToLower u nm) = Some role"
  by (simp add: IsClientAuthorized_def map_get_def Let_def authorizedClients_def role_defs)

lemma RoleStrToRole_simps [simp]:
  "RoleStrToRole u Admin = Admin" "RoleStrToRole u User = User" "RoleStrToRole u Unauthorized = Unauthorized"
  by code_simp+

lemma role_neq [simp]: "Admin \<noteq> Unauthorized" "User \<noteq> Unauthorized" "Admin \<noteq> User"
  "Unauthorized \<noteq> Admin" "Unauthorized \<noteq> User" "User \<noteq> Admin"
  by (simp_all add: role_defs)

lemma ascii_lower_upper: "ascii_lower (ascii_upper c) = ascii_lower c"
proof -
  have "ascii_lower (ascii_upper (char_of n)) = ascii_lower (char_of n)" if "n < 256" for n :: nat
    using that
    by (auto simp: ascii_lower_def ascii_upper_def byte_val_def of_char_of)
  from this [of "of_char c"] show ?thesis by simp
qed

lemma byte_upper: "byte_val c < 128 \<Longrightarrow> byte_val (ascii_upper c) < 128"
  by (auto simp: ascii_upper_def byte_val_def)

text \<open>
  Fact: \<open>IsClientAuthorized\<close> says yes to just the names that are, after lower-casing, one of
  client1, client2, client3 and superuser; only superuser is an Admin, and a name it refuses has the
  role Unauthorized.
\<close>

theorem IsClientAuthorized_iff:
  "(fst (IsClientAuthorized u nm) \<longleftrightarrow>
      ToLower u nm \<in> {''client1'', ''client2'', ''client3'', ''superuser''}) \<and>
   (snd (IsClientAuthorized u nm) = Admin \<longleftrightarrow> ToLower u nm = ''superuser'') \<and>
   (snd (IsClientAuthorized u nm) = Unauthorized \<longleftrightarrow> \<not> fst (IsClientAuthorized u nm))"
  by (auto simp: IsClientAuthorized_def map_get_def Let_def authorizedClients_def role_defs)

text \<open>
  Fact: a role survives its rendering as a string: parsing the role that
  \<open>IsClientAuthorized\<close> gives any name gives that role back, so the role check of a request context
  compares equal roles.
\<close>

theorem role_roundtrip:
  "RoleStrToRole u (snd (IsClientAuthorized u nm)) = snd (IsClientAuthorized u nm)"
  by (auto simp: IsClientAuthorized_snd authorizedClients_cases split: option.split)

text \<open>
  Fact: the check is case-insensitive: upper-casing an ASCII client name changes neither
  the answer nor the role.
\<close>

theorem IsClientAuthorized_case_insensitive:
  assumes "is_ascii nm"
  shows "IsClientAuthorized u (ToUpper u nm) = IsClientAuthorized u nm"
proof -
  have "is_ascii (map ascii_upper nm)" using assms by (auto simp: is_ascii_def byte_upper)
  then have "ToLower u (ToUpper u nm) = ToLower u nm"
    using assms by (simp add: ToLower_def ToUpper_def ascii_lower_upper comp_def)
  then show ?thesis by (simp add: IsClientAuthorized_def)
qed

theorem IsClientAuthorized_case_insensitive_witness:
  "IsClientAuthorized \<lparr>u_lower = id, u_upper = id, u_quote = id\<rparr> (ToUpper \<lparr>u_lower = id, u_upper = id, u_quote = id\<rparr> ''client1'')
     = (True, User)"
  using IsClientAuthorized_case_insensitive [of "''client1''" "\<lparr>u_lower = id, u_upper = id, u_quote = id\<rparr>"]
  by (simp add: is_ascii_def byte_val_def IsClientAuthorized_def ToLower_def ascii_lower_def map_get_def
      authorizedClients_def Let_def role_defs)

text \<open>
  Fact: whatever order the map is visited in, \<open>GetAuthorizedClientNames\<close> lists every
  authorized client exactly once, in that order.
\<close>

theorem GetAuthorizedClientNames_exact:
  assumes "map_order GetAuthorizedClientsWithRoles ks"
  shows "GetAuthorizedClientNames ks = ks \<and> distinct (GetAuthorizedClientNames ks) \<and>
    set (GetAuthorizedClientNames ks) = {''client1'', ''client2'', ''client3'', ''superuser''}"
  using assms
  by (simp add: map_order_def GetAuthorizedClientsWithRoles_def authorizedClients_def) auto

theorem GetAuthorizedClientNames_exact_witness:
  "GetAuthorizedClientNames [''superuser'', ''client2'', ''client1'', ''client3'']
     = [''superuser'', ''client2'', ''client1'', ''client3'']"
  using GetAuthorizedClientNames_exact [of "[''superuser'', ''client2'', ''client1'', ''client3'']"]
  by (auto simp: map_order_def GetAuthorizedClientsWithRoles_def authorizedClients_def)

end
