(* ===== verification/Authn.thy ===== *)
theory Authn
  imports GoBase
begin

text \<open>
  \<open>api/authn/authn.go\<close>: the checks on a client certificate.  A certificate is the fields of
  \<open>x509.Certificate\<close> the code reads; \<open>SignatureAlgorithm\<close> and \<open>PublicKeyAlgorithm\<close> are the
  enumerations of the x509 package with their \<open>String\<close> methods (a number outside the table is
  printed as a number).  The validity dates are only logged.
\<close>

datatype SignatureAlgorithm =
    MD5WithRSA | SHA1WithRSA | SHA256WithRSA | SHA384WithRSA | SHA512WithRSA
  | DSAWithSHA1 | DSAWithSHA256
  | ECDSAWithSHA1 | ECDSAWithSHA256 | ECDSAWithSHA384 | ECDSAWithSHA512
  | SHA256WithRSAPSS | SHA384WithRSAPSS | SHA512WithRSAPSS
  | PureEd25519 | OtherSignatureAlgorithm int

datatype PublicKeyAlgorithm = RSA | DSA | ECDSA | Ed25519 | OtherPublicKeyAlgorithm int

primrec SignatureAlgorithm_String :: "SignatureAlgorithm \<Rightarrow> string" where
  "SignatureAlgorithm_String MD5WithRSA = ''MD5-RSA''"
| "SignatureAlgorithm_String SHA1WithRSA = ''SHA1-RSA''"
| "SignatureAlgorithm_String SHA256WithRSA = ''SHA256-RSA''"
| "SignatureAlgorithm_String SHA384WithRSA = ''SHA384-RSA''"
| "SignatureAlgorithm_String SHA512WithRSA = ''SHA512-RSA''"
| "SignatureAlgorithm_String DSAWithSHA1 = ''DSA-SHA1''"
| "SignatureAlgorithm_String DSAWithSHA256 = ''DSA-SHA256''"
| "SignatureAlgorithm_String ECDSAWithSHA1 = ''ECDSA-SHA1''"
| "SignatureAlgorithm_String ECDSAWithSHA256 = ''ECDSA-SHA256''"
| "SignatureAlgorithm_String ECDSAWithSHA384 = ''ECDSA-SHA384''"
| "SignatureAlgorithm_String ECDSAWithSHA512 = ''ECDSA-SHA512''"
| "SignatureAlgorithm_String SHA256WithRSAPSS = ''SHA256-RSAPSS''"
| "SignatureAlgorithm_String SHA384WithRSAPSS = ''SHA384-RSAPSS''"
| "SignatureAlgorithm_String SHA512WithRSAPSS = ''SHA512-RSAPSS''"
| "SignatureAlgorithm_String PureEd25519 = ''Ed25519''"
| "SignatureAlgorithm_String (OtherSignatureAlgorithm n) = Itoa n"

primrec PublicKeyAlgorithm_String :: "PublicKeyAlgorithm \<Rightarrow> string" where
  "PublicKeyAlgorithm_String RSA = ''RSA''"
| "PublicKeyAlgorithm_String DSA = ''DSA''"
| "PublicKeyAlgorithm_String ECDSA = ''ECDSA''"
| "PublicKeyAlgorithm_String Ed25519 = ''Ed25519''"
| "PublicKeyAlgorithm_String (OtherPublicKeyAlgorithm n) = Itoa n"

record Certificate =
  SigAlgo :: SignatureAlgorithm
  PKAlgo :: PublicKeyAlgorithm
  CommonName :: string

definition AllowedX509SigAlgos :: "string list" where
  "AllowedX509SigAlgos = map SignatureAlgorithm_String [ECDSAWithSHA256, ECDSAWithSHA384, ECDSAWithSHA512]"

definition AllowedX509PKAlgos :: "string list" where
  "AllowedX509PKAlgos = map PublicKeyAlgorithm_String [ECDSA]"

definition JobmasterEntityCNPrefix :: string where
  "JobmasterEntityCNPrefix = ''jobmaster-''"

definition ValidateCertCryptoAndValidity :: "Certificate option \<Rightarrow> goerr option" where
  "ValidateCertCryptoAndValidity cert =
     (case cert of
        None \<Rightarrow> Some (New ''cannot validate a nil certificate'')
      | Some cert \<Rightarrow>
          (let sigAlgo = SignatureAlgorithm_String (SigAlgo cert);
               pkAlgo = PublicKeyAlgorithm_String (PKAlgo cert) in
           if \<not> List.member AllowedX509SigAlgos sigAlgo
           then Some (Errorf ''certificate signature algorithm %q is not permitted'' [sigAlgo] [])
           else if \<not> List.member AllowedX509PKAlgos pkAlgo
           then Some (Errorf ''certificate public key algorithm %q is not permitted'' [pkAlgo] [])
           else None))"

definition GetCertCommonName :: "Certificate \<Rightarrow> goerr + string" where
  "GetCertCommonName cert =
     (let cn = CommonName cert in
      if cn = '''' \<or> TrimSpace cn = '''' then Inl (New ''certicate CN attribute is empty'')
      else Inr cn)"

definition GetJobmasterEntityNameFromCertCN :: "Certificate \<Rightarrow> goerr + string" where
  "GetJobmasterEntityNameFromCertCN cert =
     (case GetCertCommonName cert of
        Inl err \<Rightarrow> Inl err
      | Inr cn \<Rightarrow>
          if \<not> HasPrefix cn JobmasterEntityCNPrefix
          then Inl (New ''certificate invalid: Does not contain expected CN prefix'')
          else
            (let nm = TrimPrefix cn JobmasterEntityCNPrefix in
             if nm = '''' then Inl (New ''certificate invalid: Does not contain expected CN field part'')
             else Inr nm))"

section \<open>Properties\<close>

lemma dec_digits_first: "\<exists>d ds. dec_digits n = d # ds \<and> byte_val d < 58"
proof (induction n rule: dec_digits.induct)
  case (1 n)
  show ?case
  proof (cases "n < 10")
    case True
    then show ?thesis by (simp add: dec_digits.simps [of n] byte_val_def)
  next
    case False
    with 1 obtain d ds where "dec_digits (n div 10) = d # ds" "byte_val d < 58" by blast
    with False show ?thesis by (simp add: dec_digits.simps [of n])
  qed
qed

text \<open>A number never prints as the name of an algorithm.\<close>

lemma Itoa_no_name: "Itoa i \<noteq> CHR ''E'' # s"
  using dec_digits_first [of "nat i"] by (auto simp: Itoa_def byte_val_def)

text \<open>
  Fact: the crypto check accepts exactly the certificates signed with ECDSA and SHA-256,
  SHA-384 or SHA-512 whose key is an ECDSA key; a nil certificate is refused.
\<close>

theorem ValidateCertCryptoAndValidity_iff:
  "ValidateCertCryptoAndValidity cert = None \<longleftrightarrow>
     (\<exists>c. cert = Some c \<and> SigAlgo c \<in> {ECDSAWithSHA256, ECDSAWithSHA384, ECDSAWithSHA512} \<and> PKAlgo c = ECDSA)"
proof (cases cert)
  case None
  then show ?thesis by (simp add: ValidateCertCryptoAndValidity_def)
next
  case (Some c)
  have "List.member AllowedX509SigAlgos (SignatureAlgorithm_String (SigAlgo c)) \<longleftrightarrow>
      SigAlgo c \<in> {ECDSAWithSHA256, ECDSAWithSHA384, ECDSAWithSHA512}"
    by (cases "SigAlgo c") (simp_all add: AllowedX509SigAlgos_def Itoa_no_name)
  moreover have "List.member AllowedX509PKAlgos (PublicKeyAlgorithm_String (PKAlgo c)) \<longleftrightarrow> PKAlgo c = ECDSA"
    by (cases "PKAlgo c") (simp_all add: AllowedX509PKAlgos_def Itoa_no_name)
  ultimately show ?thesis using Some by (simp add: ValidateCertCryptoAndValidity_def Let_def)
qed

text \<open>
  Property C35: the name extracted from a certificate is exactly what follows the prefix
  \<open>jobmaster-\<close> of its common name: extraction succeeds with \<open>nm\<close> if and only if the common name is
  the prefix followed by the non-empty name \<open>nm\<close>.
\<close>

theorem entity_name_iff:
  "GetJobmasterEntityNameFromCertCN cert = Inr nm \<longleftrightarrow>
     nm \<noteq> '''' \<and> CommonName cert = JobmasterEntityCNPrefix @ nm"
proof
  assume "GetJobmasterEntityNameFromCertCN cert = Inr nm"
  then show "nm \<noteq> '''' \<and> CommonName cert = JobmasterEntityCNPrefix @ nm"
    by (auto simp: GetJobmasterEntityNameFromCertCN_def GetCertCommonName_def Let_def HasPrefix_iff
        split: sum.splits if_splits)
next
  assume a: "nm \<noteq> '''' \<and> CommonName cert = JobmasterEntityCNPrefix @ nm"
  have "TrimSpace (JobmasterEntityCNPrefix @ nm) \<noteq> ''''"
    by (rule TrimSpace_visible [of "CHR ''j''"]) (simp_all add: JobmasterEntityCNPrefix_def space_runes_def)
  with a show "GetJobmasterEntityNameFromCertCN cert = Inr nm"
    by (simp add: GetJobmasterEntityNameFromCertCN_def GetCertCommonName_def Let_def HasPrefix_iff)
qed

lemma crypto_nil: "ValidateCertCryptoAndValidity None \<noteq> None"
  by (simp add: ValidateCertCryptoAndValidity_def)

lemma entity_name_nonempty: "GetJobmasterEntityNameFromCertCN c = Inr nm \<Longrightarrow> nm \<noteq> ''''"
  by (auto simp: GetJobmasterEntityNameFromCertCN_def Let_def split: sum.splits if_splits)

end
