(* ===== verification/ValidateClient.thy ===== *)
theory ValidateClient
  imports Authz Authn MemKernel
begin

text \<open>
  \<open>api/server/validate_client.go\<close>: the interceptors that authenticate the caller of every RPC and
  hand the handlers a context with the caller's name and role.

  A request context is the identity of its cancellation (\<open>ctx_err_of\<close> of theory \<open>Kernel\<close>
  decides whether it is done), the peer the transport put into it, and its values.  A type assertion
  \<open>.(string)\<close> on a missing value panics.  A handler may also never return, so handlers map a world
  to an optional result and world.
\<close>

section \<open>Contexts and streams\<close>

datatype auth_info = TLSInfo "Certificate option list" | OtherAuthInfo

datatype ctxKey = clientNameCtxKey | clientRoleCtxKey

record request_ctx =
  ctx_id :: nat
  ctx_peer :: "auth_info option"
  ctx_value :: "ctxKey \<rightharpoonup> string"

definition WithValue :: "request_ctx \<Rightarrow> ctxKey \<Rightarrow> string \<Rightarrow> request_ctx" where
  "WithValue ctx k v = ctx\<lparr>ctx_value := (ctx_value ctx)(k \<mapsto> v)\<rparr>"

type_synonym ('w, 'a) proc = "'w \<Rightarrow> ('a call \<times> 'w) option"

text \<open>A server stream is its own context and a handle for \<open>Send\<close>.\<close>

record server_stream =
  ss_handle :: nat
  ss_ctx :: request_ctx

datatype wrappedStream = WrappedStream server_stream request_ctx

primrec wrapped_Context :: "wrappedStream \<Rightarrow> request_ctx" where
  "wrapped_Context (WrappedStream ss ctx) = ctx"

primrec wrapped_stream :: "wrappedStream \<Rightarrow> server_stream" where
  "wrapped_stream (WrappedStream ss ctx) = ss"

definition newWrappedStream :: "request_ctx \<Rightarrow> server_stream \<Rightarrow> wrappedStream" where
  "newWrappedStream ctx ss = WrappedStream ss ctx"

section \<open>The caller's certificates\<close>

text \<open>The loop over the peer certificates, with the variables the code assigns.\<close>

fun validate_certs :: "unicode \<Rightarrow> string \<Rightarrow> Role \<Rightarrow> Certificate option list \<Rightarrow> goerr + (string \<times> Role)" where
  "validate_certs u clientName clientRole [] = Inr (clientName, clientRole)"
| "validate_certs u clientName clientRole (item # items) =
     (case ValidateCertCryptoAndValidity item of
        Some err \<Rightarrow> Inl (StatusErr Unauthenticated
          (''client certificate validity check error: '' @ error_text u err))
      | None \<Rightarrow>
          (case GetJobmasterEntityNameFromCertCN (the item) of
             Inl err \<Rightarrow> Inl (StatusErr Unauthenticated
               (''client certificate parse error: '' @ error_text u err))
           | Inr clientName \<Rightarrow>
               (let clientRole = snd (IsClientAuthorized u clientName) in
                if clientRole = Unauthorized
                then Inl (StatusErr Unauthenticated (clientName @ '' is not authorized''))
                else validate_certs u clientName clientRole items)))"

definition ValidateClientFromTLSInfo :: "unicode \<Rightarrow> Certificate option list \<Rightarrow> goerr + (string \<times> Role)" where
  "ValidateClientFromTLSInfo u certs = validate_certs u '''' Unauthorized certs"

definition validateClient :: "'w os \<Rightarrow> request_ctx \<Rightarrow> ('w, goerr + request_ctx) state" where
  "validateClient os ctx =
     iferr (ctx_err_of os (ctx_id ctx))
       (\<lambda>_. State_Monad.return (Inl (StatusErr CodeCanceled ''interceptor: context was canceled'')))
       (State_Monad.return
          (case (case ctx_peer ctx of
                   Some (TLSInfo certs) \<Rightarrow> ValidateClientFromTLSInfo (os_unicode os) certs
                 | _ \<Rightarrow> Inr ('''', Unauthorized)) of
             Inl err \<Rightarrow> Inl err
           | Inr (clientName, clientRole) \<Rightarrow>
               if clientName = '''' \<or> clientRole = Unauthorized
               then Inl (StatusErr Unauthenticated ''did not find an authorized client'')
               else Inr (WithValue (WithValue ctx clientNameCtxKey clientName) clientRoleCtxKey clientRole)))"

definition validateClientUnaryInterceptor ::
  "'w os \<Rightarrow> request_ctx \<Rightarrow> 'req \<Rightarrow> (request_ctx \<Rightarrow> 'req \<Rightarrow> ('w, goerr + 'resp) proc) \<Rightarrow> ('w, goerr + 'resp) proc" where
  "validateClientUnaryInterceptor os ctx req handler w =
     (case run_state (validateClient os ctx) w of
        (Inl err, w') \<Rightarrow> Some (Returned (Inl err), w')
      | (Inr newctx, w') \<Rightarrow> handler newctx req w')"

definition validateClientStreamInterceptor ::
  "'w os \<Rightarrow> server_stream \<Rightarrow> (wrappedStream \<Rightarrow> ('w, goerr option) proc) \<Rightarrow> ('w, goerr option) proc" where
  "validateClientStreamInterceptor os ss handler w =
     (case run_state (validateClient os (ss_ctx ss)) w of
        (Inl err, w') \<Rightarrow> Some (Returned (Some err), w')
      | (Inr newctx, w') \<Rightarrow> handler (newWrappedStream newctx ss) w')"

section \<open>Reading the identity back\<close>

definition ClientInfoFromContext :: "unicode \<Rightarrow> request_ctx \<Rightarrow> (goerr + string \<times> string) call" where
  "ClientInfoFromContext u ctx =
     (case ctx_value ctx clientNameCtxKey of
        None \<Rightarrow> Panicked
      | Some clientName \<Rightarrow>
          if clientName = '''' \<or> TrimSpace clientName = ''''
          then Returned (Inl (New ''client name in context is empty''))
          else
            (let (isAuth, cRole) = IsClientAuthorized u clientName in
             if \<not> isAuth
             then Returned (Inl (Errorf ''client %q is not authorized'' [clientName] []))
             else
               (case ctx_value ctx clientRoleCtxKey of
                  None \<Rightarrow> Panicked
                | Some clientRoleStr \<Rightarrow>
                    if clientRoleStr = '''' \<or> TrimSpace clientRoleStr = ''''
                    then Returned (Inl (New ''client role in context is empty''))
                    else
                      (let clientRole = RoleStrToRole u clientRoleStr in
                       if clientRole = Unauthorized
                       then Returned (Inl (Errorf (''client %q context role is '' @ [CHR 0x27] @ ''Unauthorized'' @ [CHR 0x27])
                                               [clientName] []))
                       else if clientRole \<noteq> cRole then Returned (Inl (New ''client role mismatch''))
                       else Returned (Inr (clientName, clientRoleStr))))))"

section \<open>The identity of a request\<close>

text \<open>What one certificate proves: the client \<open>nm\<close> with its role.\<close>

definition cert_identifies :: "unicode \<Rightarrow> Certificate option \<Rightarrow> string \<Rightarrow> Role \<Rightarrow> bool" where
  "cert_identifies u item nm role \<longleftrightarrow>
     (\<exists>cert. item = Some cert \<and> ValidateCertCryptoAndValidity item = None \<and>
        GetJobmasterEntityNameFromCertCN cert = Inr nm \<and>
        role = snd (IsClientAuthorized u nm) \<and> role \<noteq> Unauthorized)"

lemma cert_step:
  "validate_certs u n0 r0 (item # items) = Inr p \<longleftrightarrow>
     (\<exists>nm role. cert_identifies u item nm role \<and> validate_certs u nm role items = Inr p)"
proof (cases item)
  case None
  then show ?thesis
    using crypto_nil by (cases "ValidateCertCryptoAndValidity None") (auto simp: cert_identifies_def)
next
  case (Some cert)
  then show ?thesis
    by (cases "ValidateCertCryptoAndValidity (Some cert)"; cases "GetJobmasterEntityNameFromCertCN cert")
      (auto simp: cert_identifies_def Let_def)
qed

declare validate_certs.simps(2) [simp del]

lemma cert_identifies_unique:
  "cert_identifies u item nm role \<Longrightarrow> cert_identifies u item nm' role' \<Longrightarrow> nm' = nm \<and> role' = role"
  by (auto simp: cert_identifies_def)

lemma validate_certs_iff:
  "items \<noteq> [] \<Longrightarrow> validate_certs u n0 r0 items = Inr (nm, role) \<longleftrightarrow>
     (\<forall>item \<in> set items. \<exists>n r. cert_identifies u item n r) \<and> cert_identifies u (last items) nm role"
proof (induction items arbitrary: n0 r0)
  case Nil
  then show ?case by simp
next
  case (Cons item items)
  show ?case
  proof (cases "items = []")
    case True
    then show ?thesis by (auto simp: cert_step dest: cert_identifies_unique)
  next
    case False
    then show ?thesis by (auto simp: cert_step Cons.IH)
  qed
qed

text \<open>
  Property C30: \<open>ValidateClientFromTLSInfo\<close> accepts a chain of certificates exactly when every
  certificate of it passes the crypto check and names an authorized client, and then the identity it
  reports is that of the last certificate of the chain, with that client's role.
\<close>

theorem ValidateClientFromTLSInfo_iff:
  assumes "certs \<noteq> []"
  shows "ValidateClientFromTLSInfo u certs = Inr (nm, role) \<longleftrightarrow>
     (\<forall>item \<in> set certs. \<exists>n r. cert_identifies u item n r) \<and> cert_identifies u (last certs) nm role"
  using validate_certs_iff [OF assms] by (simp add: ValidateClientFromTLSInfo_def)

lemma cert_identifiesI:
  "item = Some cert \<Longrightarrow> ValidateCertCryptoAndValidity item = None \<Longrightarrow>
   GetJobmasterEntityNameFromCertCN cert = Inr nm \<Longrightarrow> snd (IsClientAuthorized u nm) = role \<Longrightarrow>
   role \<noteq> Unauthorized \<Longrightarrow> cert_identifies u item nm role"
  by (auto simp: cert_identifies_def)

definition sample_cert :: "string \<Rightarrow> Certificate option" where
  "sample_cert nm = Some \<lparr>SigAlgo = ECDSAWithSHA256, PKAlgo = ECDSA, CommonName = ''jobmaster-'' @ nm\<rparr>"

theorem ValidateClientFromTLSInfo_iff_witness:
  "cert_identifies mem_unicode (sample_cert ''client1'') ''client1'' User"
proof -
  have "ValidateClientFromTLSInfo mem_unicode [sample_cert ''client1''] = Inr (''client1'', User)"
    by code_simp
  with ValidateClientFromTLSInfo_iff [of "[sample_cert ''client1'']"] show ?thesis by simp
qed


section \<open>What the handlers rely on\<close>

text \<open>
  The contract between the interceptors and the handlers: a context that was admitted carries a name
  and a role that reading it back accepts, and is cancelled with the request.
\<close>

locale identity_provider =
  fixes admit :: "request_ctx \<Rightarrow> ('w, goerr + request_ctx) state"
    and info :: "request_ctx \<Rightarrow> (goerr + string \<times> string) call"
    and known :: "string \<Rightarrow> Role \<Rightarrow> bool"
  assumes admitted: "run_state (admit ctx) w = (Inr ctx', w')
      \<Longrightarrow> \<exists>nm role. info ctx' = Returned (Inr (nm, role)) \<and> known nm role"
    and same_request: "run_state (admit ctx) w = (Inr ctx', w') \<Longrightarrow> ctx_id ctx' = ctx_id ctx"
begin

definition admissible :: "request_ctx \<Rightarrow> bool" where
  "admissible ctx' \<longleftrightarrow> (\<exists>ctx w w'. run_state (admit ctx) w = (Inr ctx', w'))"

lemma no_panic: "admissible ctx \<Longrightarrow> info ctx \<noteq> Panicked"
  using admitted by (fastforce simp: admissible_def)

lemma info_known: "admissible ctx \<Longrightarrow> \<exists>nm role. info ctx = Returned (Inr (nm, role)) \<and> known nm role"
  using admitted by (fastforce simp: admissible_def)

end

text \<open>
  Lower-casing works rune by rune and leaves white space alone, so a blank text stays blank.
\<close>

definition unicode_ok :: "unicode \<Rightarrow> bool" where
  "unicode_ok u \<longleftrightarrow> (\<forall>s. \<not> is_ascii s \<longrightarrow> TrimSpace s = '''' \<longrightarrow> TrimSpace (u_lower u s) = '''')"

lemma blank_lower:
  assumes "unicode_ok u" and "TrimSpace s = ''''"
  shows "TrimSpace (ToLower u s) = ''''"
proof (cases "is_ascii s")
  case True
  have "\<forall>c \<in> set (concat space_runes). ascii_lower c = c" by code_simp
  moreover have "c \<in> set (concat space_runes)" if "c \<in> set s" for c
    using TrimSpace_visible [OF that] assms(2) by (simp only: visible_iff) blast
  ultimately have "map ascii_lower s = s" by (intro map_idI) blast
  with True assms(2) show ?thesis by (simp add: ToLower_def)
next
  case False
  with assms show ?thesis by (simp add: ToLower_def unicode_ok_def)
qed

lemma authorized_not_blank:
  assumes "unicode_ok u" and "fst (IsClientAuthorized u nm)"
  shows "nm \<noteq> '''' \<and> TrimSpace nm \<noteq> ''''"
proof -
  have "ToLower u nm \<in> {''client1'', ''client2'', ''client3'', ''superuser''}"
    using assms(2) by (auto simp: IsClientAuthorized_fst dom_def authorizedClients_cases)
  moreover have "TrimSpace ''client1'' \<noteq> ''''" "TrimSpace ''client2'' \<noteq> ''''"
    "TrimSpace ''client3'' \<noteq> ''''" "TrimSpace ''superuser'' \<noteq> ''''"
    by code_simp+
  ultimately have "TrimSpace (ToLower u nm) \<noteq> ''''" by auto
  then have "TrimSpace nm \<noteq> ''''" using blank_lower [OF assms(1)] by blast
  then show ?thesis by auto
qed

definition known_client :: "unicode \<Rightarrow> string \<Rightarrow> Role \<Rightarrow> bool" where
  "known_client u nm role \<longleftrightarrow> IsClientAuthorized u nm = (True, role)"

lemma known_client_role:
  assumes "known_client u nm role"
  shows "role \<in> {User, Admin}" "RoleStrToRole u role = role" "role \<noteq> Unauthorized"
proof -
  show *: "role \<in> {User, Admin}"
    using assms by (auto simp: known_client_def IsClientAuthorized_True authorizedClients_cases)
  then show "RoleStrToRole u role = role" "role \<noteq> Unauthorized" by auto
qed

lemma cert_known: "cert_identifies u item nm role \<Longrightarrow> known_client u nm role \<and> nm \<noteq> ''''"
  by (auto simp: cert_identifies_def known_client_def IsClientAuthorized_def Let_def
      dest: entity_name_nonempty)

lemma validateClient_run:
  assumes "run_state (validateClient os ctx) w = (Inr ctx', w')"
  shows "\<exists>certs nm role. ctx_peer ctx = Some (TLSInfo certs) \<and> certs \<noteq> [] \<and>
    validate_certs (os_unicode os) '''' Unauthorized certs = Inr (nm, role) \<and>
    ctx' = WithValue (WithValue ctx clientNameCtxKey nm) clientRoleCtxKey role"
  using assms
  by (auto simp: validateClient_def go_run ValidateClientFromTLSInfo_def
      split: go_split auth_info.splits intro!: exI)

lemma info_of_values:
  assumes "unicode_ok u" and "known_client u nm role"
  shows "ClientInfoFromContext u (WithValue (WithValue ctx clientNameCtxKey nm) clientRoleCtxKey role)
    = Returned (Inr (nm, role))"
proof -
  have "TrimSpace User \<noteq> ''''" "TrimSpace Admin \<noteq> ''''" by code_simp+
  moreover have "User \<noteq> ''''" "Admin \<noteq> ''''" by (simp_all add: role_defs)
  ultimately have r: "TrimSpace role \<noteq> ''''" "role \<noteq> ''''"
    using known_client_role(1) [OF assms(2)] by auto
  have n: "nm \<noteq> ''''" "TrimSpace nm \<noteq> ''''"
    using authorized_not_blank [OF assms(1), of nm] assms(2) by (simp_all add: known_client_def)
  show ?thesis
    using assms(2) r n known_client_role(2,3) [OF assms(2)]
    by (simp add: ClientInfoFromContext_def WithValue_def known_client_def Let_def)
qed

locale lawful_unicode =
  fixes os :: "'w os"
  assumes lawful: "unicode_ok (os_unicode os)"

sublocale lawful_unicode \<subseteq> client: identity_provider "validateClient os" "ClientInfoFromContext (os_unicode os)"
  "known_client (os_unicode os)"
proof unfold_locales
  fix ctx ctx' :: request_ctx and w w' :: 'w
  assume "run_state (validateClient os ctx) w = (Inr ctx', w')"
  then obtain certs nm role where c: "certs \<noteq> []"
    "validate_certs (os_unicode os) '''' Unauthorized certs = Inr (nm, role)"
    and ctx': "ctx' = WithValue (WithValue ctx clientNameCtxKey nm) clientRoleCtxKey role"
    using validateClient_run [of os ctx w ctx' w'] by blast
  have k: "known_client (os_unicode os) nm role"
    using validate_certs_iff [OF c(1)] c(2) cert_known [of "os_unicode os" "last certs" nm role] by simp
  then show "\<exists>nm role. ClientInfoFromContext (os_unicode os) ctx' = Returned (Inr (nm, role)) \<and>
      known_client (os_unicode os) nm role"
    unfolding ctx' using info_of_values [OF lawful k] by blast
  show "ctx_id ctx' = ctx_id ctx" by (simp add: ctx' WithValue_def)
qed

lemma mem_unicode_ok [simp]: "unicode_ok (os_unicode mem_os)"
  by (simp add: unicode_ok_def mem_os_def mem_unicode_def)

interpretation mem_client: lawful_unicode mem_os
  by unfold_locales simp

lemma admitted_identity:
  assumes "unicode_ok (os_unicode os)" and "run_state (validateClient os ctx) w = (Inr ctx', w')"
  shows "\<exists>certs nm role. ctx_peer ctx = Some (TLSInfo certs) \<and> certs \<noteq> [] \<and>
    (\<forall>item \<in> set certs. \<exists>n r. cert_identifies (os_unicode os) item n r) \<and>
    cert_identifies (os_unicode os) (last certs) nm role \<and>
    ClientInfoFromContext (os_unicode os) ctx' = Returned (Inr (nm, role)) \<and>
    ctx_id ctx' = ctx_id ctx \<and> ctx_peer ctx' = ctx_peer ctx"
proof -
  obtain certs nm role where c: "ctx_peer ctx = Some (TLSInfo certs)" "certs \<noteq> []"
    "validate_certs (os_unicode os) '''' Unauthorized certs = Inr (nm, role)"
    and ctx': "ctx' = WithValue (WithValue ctx clientNameCtxKey nm) clientRoleCtxKey role"
    using validateClient_run [OF assms(2)] by blast
  have v: "\<forall>item \<in> set certs. \<exists>n r. cert_identifies (os_unicode os) item n r"
    "cert_identifies (os_unicode os) (last certs) nm role"
    using validate_certs_iff [OF c(2)] c(3) by simp_all
  have "ClientInfoFromContext (os_unicode os) ctx' = Returned (Inr (nm, role))"
    unfolding ctx' using info_of_values [OF assms(1)] cert_known [OF v(2)] by blast
  with c v show ?thesis by (auto simp: ctx' WithValue_def)
qed

text \<open>
  Property C23: \<open>validateClient\<close> admits a request only if its peer showed at least one certificate
  over TLS and every certificate names an authorized client; the context it returns keeps the
  request's cancellation and peer, and \<open>ClientInfoFromContext\<close> reads the identity of the last
  certificate back from it: it neither panics nor fails.
\<close>

theorem admitted_context_identifies:
  assumes "unicode_ok (os_unicode os)" and "run_state (validateClient os ctx) w = (Inr ctx', w')"
  shows "\<exists>certs nm role. ctx_peer ctx = Some (TLSInfo certs) \<and> certs \<noteq> [] \<and>
    (\<forall>item \<in> set certs. \<exists>n r. cert_identifies (os_unicode os) item n r) \<and>
    cert_identifies (os_unicode os) (last certs) nm role \<and>
    ClientInfoFromContext (os_unicode os) ctx' = Returned (Inr (nm, role)) \<and>
    ctx_id ctx' = ctx_id ctx \<and> ctx_peer ctx' = ctx_peer ctx"
  by (rule admitted_identity [OF assms])

definition sample_ctx :: "string \<Rightarrow> request_ctx" where
  "sample_ctx nm = \<lparr>ctx_id = 0, ctx_peer = Some (TLSInfo [sample_cert nm]), ctx_value = Map.empty\<rparr>"

definition sample_admitted :: "string \<Rightarrow> Role \<Rightarrow> request_ctx" where
  "sample_admitted nm role = WithValue (WithValue (sample_ctx nm) clientNameCtxKey nm) clientRoleCtxKey role"

lemma sample_validated:
  "run_state (validateClient mem_os (sample_ctx ''client1'')) w = (Inr (sample_admitted ''client1'' User), w)"
proof -
  have "ValidateClientFromTLSInfo (os_unicode mem_os) [sample_cert ''client1''] = Inr (''client1'', User)"
    by code_simp
  then show ?thesis by (simp add: validateClient_def go_run mem_os_run sample_ctx_def sample_admitted_def)
qed

theorem admitted_context_identifies_witness:
  "ClientInfoFromContext mem_unicode (sample_admitted ''client1'' User) = Returned (Inr (''client1'', User))"
proof -
  have "os_unicode mem_os = mem_unicode" by (simp add: mem_os_def)
  moreover have "GetJobmasterEntityNameFromCertCN (the (sample_cert ''client1'')) = Inr ''client1''" by code_simp
  moreover have "snd (IsClientAuthorized mem_unicode ''client1'') = User" by code_simp
  ultimately show ?thesis
    using admitted_context_identifies [OF mem_unicode_ok sample_validated [of mem_boot]]
    by (auto simp: sample_ctx_def cert_identifies_def)
qed

definition admits :: "'w os \<Rightarrow> request_ctx \<Rightarrow> request_ctx \<Rightarrow> bool" where
  "admits os ctx ctx' \<longleftrightarrow> (\<exists>w w'. run_state (validateClient os ctx) w = (Inr ctx', w'))"

lemma admitsI: "run_state (validateClient os ctx) w = (Inr ctx', w') \<Longrightarrow> admits os ctx ctx'"
  by (auto simp: admits_def)

context lawful_unicode
begin

lemma admissible_admits: "admits os ctx0 ctx \<Longrightarrow> client.admissible ctx"
  unfolding client.admissible_def admits_def by blast

lemma admitted_info:
  assumes "admits os ctx0 ctx"
  shows "\<exists>nm role. ClientInfoFromContext (os_unicode os) ctx = Returned (Inr (nm, role)) \<and>
    known_client (os_unicode os) nm role"
  by (rule client.info_known [OF admissible_admits [OF assms]])

lemma admitted_no_panic: "admits os ctx0 ctx \<Longrightarrow> ClientInfoFromContext (os_unicode os) ctx \<noteq> Panicked"
  by (rule client.no_panic [OF admissible_admits])

end

lemma unary_guard:
  assumes "\<forall>ctx'. admits os ctx ctx' \<longrightarrow> h ctx' = h' ctx'"
  shows "validateClientUnaryInterceptor os ctx req h w = validateClientUnaryInterceptor os ctx req h' w"
proof (cases "run_state (validateClient os ctx) w")
  case (Pair r w')
  with assms show ?thesis
    by (cases r) (auto simp: validateClientUnaryInterceptor_def dest: admitsI)
qed

lemma stream_guard:
  assumes "\<forall>ctx'. admits os (ss_ctx ss) ctx' \<longrightarrow> g (newWrappedStream ctx' ss) = g' (newWrappedStream ctx' ss)"
  shows "validateClientStreamInterceptor os ss g w = validateClientStreamInterceptor os ss g' w"
proof (cases "run_state (validateClient os (ss_ctx ss)) w")
  case (Pair r w')
  with assms show ?thesis
    by (cases r) (auto simp: validateClientStreamInterceptor_def dest: admitsI)
qed

text \<open>
  Fact: a request without an authorized client never reaches a handler.  What an interceptor
  returns depends on the handler only through the contexts \<open>validateClient\<close> admits: two handlers that
  agree on those give the same answers, unary and streaming, and if validation fails the answer is
  its error whatever the handler is.
\<close>

theorem interceptors_guard:
  "((\<forall>ctx'. admits os ctx ctx' \<longrightarrow> h ctx' = h' ctx') \<longrightarrow>
      validateClientUnaryInterceptor os ctx req h w = validateClientUnaryInterceptor os ctx req h' w) \<and>
   ((\<forall>ctx'. admits os (ss_ctx ss) ctx' \<longrightarrow> g (newWrappedStream ctx' ss) = g' (newWrappedStream ctx' ss)) \<longrightarrow>
      validateClientStreamInterceptor os ss g w = validateClientStreamInterceptor os ss g' w) \<and>
   (run_state (validateClient os ctx) w = (Inl err, w') \<longrightarrow>
      validateClientUnaryInterceptor os ctx req h w = Some (Returned (Inl err), w')) \<and>
   (run_state (validateClient os (ss_ctx ss)) w = (Inl err, w') \<longrightarrow>
      validateClientStreamInterceptor os ss g w = Some (Returned (Some err), w'))"
proof (intro conjI impI)
  assume "\<forall>ctx'. admits os ctx ctx' \<longrightarrow> h ctx' = h' ctx'"
  then show "validateClientUnaryInterceptor os ctx req h w = validateClientUnaryInterceptor os ctx req h' w"
    by (rule unary_guard)
next
  assume "\<forall>ctx'. admits os (ss_ctx ss) ctx' \<longrightarrow> g (newWrappedStream ctx' ss) = g' (newWrappedStream ctx' ss)"
  then show "validateClientStreamInterceptor os ss g w = validateClientStreamInterceptor os ss g' w"
    by (rule stream_guard)
qed (simp_all add: validateClientUnaryInterceptor_def validateClientStreamInterceptor_def)

theorem interceptors_guard_witness:
  "validateClientUnaryInterceptor mem_os (sample_ctx ''mallory'') () (\<lambda>c r w. Some (Panicked, w)) mem_boot =
     Some (Returned (Inl (StatusErr Unauthenticated ''mallory is not authorized'') :: goerr + unit), mem_boot)"
proof -
  have "ValidateClientFromTLSInfo (os_unicode mem_os) [sample_cert ''mallory''] =
      Inl (StatusErr Unauthenticated ''mallory is not authorized'')"
    by code_simp
  then have "run_state (validateClient mem_os (sample_ctx ''mallory'')) mem_boot =
      (Inl (StatusErr Unauthenticated ''mallory is not authorized''), mem_boot)"
    by (simp add: validateClient_def go_run mem_os_run sample_ctx_def)
  with interceptors_guard [where os = mem_os and ctx = "sample_ctx ''mallory''" and req = "()" and w = mem_boot
      and w' = mem_boot and h = "\<lambda>c r w. Some (Panicked, w)" and err = "StatusErr Unauthenticated ''mallory is not authorized''"]
  show ?thesis by blast
qed

text \<open>
  Fact: a handler reached without an interceptor crashes the server instead of answering:
  without the context values the type assertion in \<open>ClientInfoFromContext\<close> panics.
\<close>

theorem bare_context_panics:
  "ctx_value ctx clientNameCtxKey = None \<Longrightarrow> ClientInfoFromContext u ctx = Panicked"
  by (simp add: ClientInfoFromContext_def)

theorem bare_context_panics_witness: "ClientInfoFromContext mem_unicode (sample_ctx ''client1'') = Panicked"
  by (rule bare_context_panics) (simp add: sample_ctx_def)

end
