(* ===== verification/Messages.thy ===== *)
theory Messages
  imports Job "HOL-Library.Signed_Division"
begin

text \<open>
  The messages of the service, as \<open>api/gen/proto/go/jobs/v1/jobs.pb.go\<close> declares them: the fields the
  program uses, and the accessors, which accept a nil pointer (\<open>None\<close>) and then give the zero value.
  \<open>int32\<close> fields keep their width.  Wire encoding and reflection belong to the protobuf library.

  A timestamp is made from milliseconds by \<open>time.UnixMilli\<close> and \<open>timestamppb.New\<close>: \<open>int64\<close>
  divisions of Go, which truncate, followed by the normalisation of \<open>time.Unix\<close>.
\<close>

section \<open>Enumeration of states\<close>

definition JOBSTATE_UNSPECIFIED :: "32 word" where "JOBSTATE_UNSPECIFIED = 0"
definition JOBSTATE_RUNNING :: "32 word" where "JOBSTATE_RUNNING = 1"
definition JOBSTATE_TERMINATED_BY_API :: "32 word" where "JOBSTATE_TERMINATED_BY_API = 2"
definition JOBSTATE_COMPLETED :: "32 word" where "JOBSTATE_COMPLETED = 3"

definition JobState_name :: "32 word \<rightharpoonup> string" where
  "JobState_name = [0 \<mapsto> ''JOBSTATE_UNSPECIFIED'', 1 \<mapsto> ''JOBSTATE_RUNNING'',
     2 \<mapsto> ''JOBSTATE_TERMINATED_BY_API'', 3 \<mapsto> ''JOBSTATE_COMPLETED'']"

definition JobState_value :: "string \<rightharpoonup> 32 word" where
  "JobState_value = [''JOBSTATE_UNSPECIFIED'' \<mapsto> 0, ''JOBSTATE_RUNNING'' \<mapsto> 1,
     ''JOBSTATE_TERMINATED_BY_API'' \<mapsto> 2, ''JOBSTATE_COMPLETED'' \<mapsto> 3]"

text \<open>The conversion \<open>jobsv1.JobState(job.State)\<close>.\<close>

definition pb_state :: "JobState \<Rightarrow> 32 word" where
  "pb_state s = word_of_nat (JobState_num s)"

section \<open>Messages and accessors\<close>

record JobID =
  f_JobID :: string

record JobCreateRequest =
  f_Command :: string
  f_Args :: "string list"

record JobIDRequest =
  f_JobIDRequest :: "JobID option"

record Timestamp =
  ts_seconds :: int
  ts_nanos :: int

record JobResponse =
  f_JobIDResponse :: "JobID option"
  f_JobMsg :: string
  f_Client :: string
  f_Pid :: "32 word"
  f_State :: "32 word"
  f_ExitCode :: "32 word"
  f_SignalStr :: string
  f_Cmd :: "JobCreateRequest option"
  f_Started :: "Timestamp option"
  f_Ended :: "Timestamp option"

record JobOutputResponse =
  f_Output :: string

definition getter :: "('m \<Rightarrow> 'v) \<Rightarrow> 'v \<Rightarrow> 'm option \<Rightarrow> 'v" where
  "getter f z x = (case x of None \<Rightarrow> z | Some m \<Rightarrow> f m)"

definition GetJobID :: "JobID option \<Rightarrow> string" where "GetJobID = getter f_JobID ''''"
definition GetCommand :: "JobCreateRequest option \<Rightarrow> string" where "GetCommand = getter f_Command ''''"
definition GetArgs :: "JobCreateRequest option \<Rightarrow> string list" where "GetArgs = getter f_Args []"
definition GetJobIDRequest :: "JobIDRequest option \<Rightarrow> JobID option" where
  "GetJobIDRequest = getter f_JobIDRequest None"
definition GetJobIDResponse :: "JobResponse option \<Rightarrow> JobID option" where
  "GetJobIDResponse = getter f_JobIDResponse None"
definition GetJobMsg :: "JobResponse option \<Rightarrow> string" where "GetJobMsg = getter f_JobMsg ''''"
definition GetClient :: "JobResponse option \<Rightarrow> string" where "GetClient = getter f_Client ''''"
definition GetPid :: "JobResponse option \<Rightarrow> 32 word" where "GetPid = getter f_Pid 0"
definition GetState :: "JobResponse option \<Rightarrow> 32 word" where "GetState = getter f_State JOBSTATE_UNSPECIFIED"
definition GetExitCode :: "JobResponse option \<Rightarrow> 32 word" where "GetExitCode = getter f_ExitCode 0"
definition GetSignalStr :: "JobResponse option \<Rightarrow> string" where "GetSignalStr = getter f_SignalStr ''''"
definition GetCmd :: "JobResponse option \<Rightarrow> JobCreateRequest option" where "GetCmd = getter f_Cmd None"
definition GetStarted :: "JobResponse option \<Rightarrow> Timestamp option" where "GetStarted = getter f_Started None"
definition GetEnded :: "JobResponse option \<Rightarrow> Timestamp option" where "GetEnded = getter f_Ended None"
definition GetOutput :: "JobOutputResponse option \<Rightarrow> string" where "GetOutput = getter f_Output ''''"

lemmas getter_defs = getter_def GetJobID_def GetCommand_def GetArgs_def GetJobIDRequest_def
  GetJobIDResponse_def GetJobMsg_def GetClient_def GetPid_def GetState_def GetExitCode_def
  GetSignalStr_def GetCmd_def GetStarted_def GetEnded_def GetOutput_def

section \<open>Times\<close>

definition time_Unix :: "int \<Rightarrow> int \<Rightarrow> int \<times> int" where
  "time_Unix sec nsec =
     (if nsec < 0 \<or> nsec \<ge> 1000000000
      then
        (let n = nsec sdiv 1000000000; sec = sec + n; nsec = nsec - n * 1000000000 in
         if nsec < 0 then (sec - 1, nsec + 1000000000) else (sec, nsec))
      else (sec, nsec))"

definition time_UnixMilli :: "int \<Rightarrow> int \<times> int" where
  "time_UnixMilli msec = time_Unix (msec sdiv 1000) ((msec smod 1000) * 1000000)"

definition timestamppb_New :: "int \<times> int \<Rightarrow> Timestamp" where
  "timestamppb_New t = \<lparr>ts_seconds = fst t, ts_nanos = snd t\<rparr>"

section \<open>A job as a response\<close>

definition job_response :: "JobID option \<Rightarrow> Job \<Rightarrow> JobResponse" where
  "job_response jobIDObj job =
     \<lparr>f_JobIDResponse = jobIDObj, f_JobMsg = Mesg job, f_Client = ClientName job, f_Pid = PID job,
      f_State = pb_state (JState job), f_ExitCode = word_of_int (ExitCode job),
      f_SignalStr = SignalStr job,
      f_Cmd = Some \<lparr>f_Command = Command job, f_Args = CmdArgs job\<rparr>,
      f_Started = Some (timestamppb_New (time_UnixMilli (StartedUnixMilli job))),
      f_Ended = Some (timestamppb_New (time_UnixMilli (EndedUnixMilli job)))\<rparr>"

section \<open>Properties\<close>

lemma time_Unix_normal:
  assumes "- 1000000000 < nsec" and "nsec < 1000000000"
  shows "fst (time_Unix sec nsec) * 1000000000 + snd (time_Unix sec nsec) = sec * 1000000000 + nsec"
    "0 \<le> snd (time_Unix sec nsec)" "snd (time_Unix sec nsec) < 1000000000"
proof -
  have "nsec sdiv 1000000000 = 0" if "nsec < 0"
    using that assms by (simp add: signed_divide_int_def sgn_if)
  then show "fst (time_Unix sec nsec) * 1000000000 + snd (time_Unix sec nsec) = sec * 1000000000 + nsec"
    "0 \<le> snd (time_Unix sec nsec)" "snd (time_Unix sec nsec) < 1000000000"
    using assms by (auto simp: time_Unix_def Let_def)
qed

lemma smod_range: "- 1000 < m smod 1000" "m smod 1000 < (1000 :: int)"
proof -
  have "\<bar>m\<bar> mod 1000 < 1000" "0 \<le> \<bar>m\<bar> mod 1000" by simp_all
  moreover have "m smod 1000 = sgn m * (\<bar>m\<bar> mod 1000)" by (simp add: signed_modulo_int_def)
  ultimately show "- 1000 < m smod 1000" "m smod 1000 < (1000 :: int)"
    by (cases m "0 :: int" rule: linorder_cases; simp)+
qed




text \<open>
  Fact: a response for a job that is still running has an end time, the Unix epoch, where
  the service description promises none.
\<close>

theorem running_job_has_end_time:
  "EndedUnixMilli job = 0 \<Longrightarrow>
     GetEnded (Some (job_response i job)) = Some \<lparr>ts_seconds = 0, ts_nanos = 0\<rparr>"
  by (simp add: job_response_def getter_defs timestamppb_New_def time_UnixMilli_def time_Unix_def)

end
