(* ===== verification/Watcher.thy ===== *)
theory Watcher
  imports MemKernel
begin

text \<open>
  \<open>jobslib/watcher.go\<close>: waiting for an output file to appear, and the goroutine that turns inotify
  events on it into broadcasts of the condition variable.

  The inotify calls and the two locks (\<open>WatcherLock\<close> and the lock of \<open>CvEvent\<close>) are the
  parameter \<open>notify\<close>.  An operation that may block forever gives an option.  The events are read
  from the bytes the kernel wrote, with the 32-bit offset arithmetic of the code.
\<close>

section \<open>Waiting for the file\<close>

text \<open>The variable \<open>i\<close> counts the rounds; the round that would be number 200 gives up.\<close>

function wait_file_round :: "'w os \<Rightarrow> nat \<Rightarrow> string \<Rightarrow> nat \<Rightarrow> ('w, goerr option) state" where
  "wait_file_round os ctx logfile i =
     iferr (ctx_err_of os ctx)
       (\<lambda>err. State_Monad.return (Some (CtxErr err)))
     (if i + 1 \<ge> 200
      then State_Monad.return (Some (Errorf
             ''WaitForFile (%s): Did not find logfile after %d cycles of %d millisecs each''
             [logfile, Itoa 200, Itoa 5] []))
      else unless_err (os_Stat os logfile)
        (\<lambda>err. if IsNotExist err
           then do { _ \<leftarrow> sleep_ms os 5; wait_file_round os ctx logfile (i + 1) }
           else State_Monad.return (Some err))
        (\<lambda>_. State_Monad.return None))"
  by pat_completeness auto
termination
  by (relation "measure (\<lambda>(os, ctx, logfile, i). 200 - i)") auto

declare wait_file_round.simps [simp del]

definition WaitForFile :: "'w os \<Rightarrow> nat \<Rightarrow> string \<Rightarrow> ('w, goerr option) state" where
  "WaitForFile os ctx logfile = wait_file_round os ctx logfile 0"

section \<open>Events\<close>

definition SizeofInotifyEvent :: nat where "SizeofInotifyEvent = 16"
definition IN_MODIFY :: "32 word" where "IN_MODIFY = 2"
definition IN_CLOSE_WRITE :: "32 word" where "IN_CLOSE_WRITE = 8"

text \<open>A field of the struct \<open>InotifyEvent\<close> (Wd, Mask, Cookie, Len), little-endian.\<close>

definition le32 :: "8 word list \<Rightarrow> nat \<Rightarrow> 32 word" where
  "le32 buf p = word_of_nat (foldr (\<lambda>b acc. unat b + 256 * acc) (take 4 (drop p buf)) 0)"

text \<open>
  The loop over the events in the buffer: how often \<open>CvEvent\<close> is broadcast and whether the
  close of the file was seen.  Indexing the buffer outside its length panics.
\<close>

partial_function (option) scan_events ::
  "8 word list \<Rightarrow> 32 word \<Rightarrow> 32 word \<Rightarrow> nat \<Rightarrow> nat \<Rightarrow> (nat \<times> bool) call option" where
  "scan_events ebuf limit offset remainingEvents broadcasts =
     (if offset \<le> limit
      then if length ebuf \<le> unat offset then Some Panicked
        else
          (let mask = le32 ebuf (unat offset + 4); len = le32 ebuf (unat offset + 12) in
           if and mask IN_CLOSE_WRITE = IN_CLOSE_WRITE
           then Some (Returned (broadcasts + 1 + (remainingEvents + 11), True))
           else scan_events ebuf limit (offset + (word_of_nat SizeofInotifyEvent + len))
                  (remainingEvents + 1) (broadcasts + 1))
      else Some (Returned (broadcasts, False)))"

declare scan_events.simps [code]

section \<open>The watcher\<close>

record 'w notify =
  InotifyInit :: "('w, goerr + int) state"
  InotifyAddWatch :: "int \<Rightarrow> string \<Rightarrow> 32 word \<Rightarrow> ('w, goerr + int) state"
  InotifyRmWatch :: "int \<Rightarrow> int \<Rightarrow> ('w, unit) state"                     \<comment> \<open>its failure is only logged\<close>
  inotify_Read :: "int \<Rightarrow> nat \<Rightarrow> 'w \<Rightarrow> ((goerr + 8 word list) \<times> 'w) option"
  WatcherLock_Lock :: "'w \<Rightarrow> 'w option"
  WatcherLock_Unlock :: "('w, unit) state"
  WatcherLock_TryLock :: "('w, bool) state"
  Cv_Lock :: "'w \<Rightarrow> 'w option"
  Cv_Unlock :: "('w, unit) state"
  Cv_Wait :: "'w \<Rightarrow> 'w option"
  Cv_Broadcast :: "('w, unit) state"

definition exec :: "('w, unit) state \<Rightarrow> 'w \<Rightarrow> 'w" where
  "exec m w = snd (run_state m w)"

definition broadcast_times :: "'w notify \<Rightarrow> nat \<Rightarrow> 'w \<Rightarrow> 'w" where
  "broadcast_times nt n w = (exec (Cv_Broadcast nt) ^^ n) w"

text \<open>
  One round of the main loop; \<open>ebuf\<close> is the buffer with what earlier reads left in it.
\<close>

definition watch_round ::
  "'w os \<Rightarrow> 'w notify \<Rightarrow> nat \<Rightarrow> int \<Rightarrow> 8 word list \<times> 'w
     \<Rightarrow> ((8 word list \<times> 'w) + (goerr option call \<times> 'w)) option" where
  "watch_round os nt ctx ifd = (\<lambda>(ebuf, w).
     case run_state (ctx_err_of os ctx) w of
       (Some err, w) \<Rightarrow> Some (Inr (Returned None, w))
     | (None, w) \<Rightarrow>
         (case Cv_Lock nt w of
            None \<Rightarrow> None
          | Some w \<Rightarrow>
              (case inotify_Read nt ifd (length ebuf) w of
                 None \<Rightarrow> None
               | Some (Inl err, w) \<Rightarrow> Some (Inl (ebuf, exec (Cv_Unlock nt) w))
               | Some (Inr bytes, w) \<Rightarrow>
                   (let w = exec (Cv_Unlock nt) w; bytesread = length bytes;
                        ebuf = bytes @ drop bytesread ebuf in
                    if bytesread = 0 then Some (Inr (Returned None, w))
                    else if bytesread < SizeofInotifyEvent then Some (Inl (ebuf, w))
                    else
                      (case scan_events ebuf (word_of_nat (bytesread - SizeofInotifyEvent)) 0 0 0 of
                         None \<Rightarrow> None
                       | Some Panicked \<Rightarrow> Some (Inr (Panicked, w))
                       | Some (Returned (n, closed)) \<Rightarrow>
                           Some (if closed then Inr (Returned None, broadcast_times nt n w)
                                 else Inl (ebuf, broadcast_times nt n w)))))))"

definition watch_loop ::
  "'w os \<Rightarrow> 'w notify \<Rightarrow> nat \<Rightarrow> int \<Rightarrow> 8 word list \<Rightarrow> 'w \<Rightarrow> (goerr option call \<times> 'w) option" where
  "watch_loop os nt ctx ifd ebuf w = forever (watch_round os nt ctx ifd) (ebuf, w)"

definition Watcher :: "'w os \<Rightarrow> 'w notify \<Rightarrow> nat \<Rightarrow> string \<Rightarrow> 'w \<Rightarrow> (goerr option call \<times> 'w) option" where
  "Watcher os nt ctx logfile w =
     (case run_state (WaitForFile os ctx logfile) w of
        (Some err, w) \<Rightarrow> Some (Returned (Some err), w)
      | (None, w) \<Rightarrow>
          (case run_state (InotifyInit nt) w of
             (Inl err, w) \<Rightarrow> Some (Returned (Some err), w)
           | (Inr ifd, w) \<Rightarrow>
               (case run_state (InotifyAddWatch nt ifd logfile (or IN_MODIFY IN_CLOSE_WRITE)) w of
                  (Inl err, w) \<Rightarrow> Some (Returned (Some err), exec (sys_Close os ifd) w)
                | (Inr iwd, w) \<Rightarrow>
                    (case WatcherLock_Lock nt w of
                       None \<Rightarrow> None
                     | Some w \<Rightarrow>
                         (case watch_loop os nt ctx ifd (replicate (SizeofInotifyEvent * 100) 0) w of
                            None \<Rightarrow> None
                          | Some (r, w) \<Rightarrow>
                              Some (r, exec (sys_Close os ifd)
                                        (exec (InotifyRmWatch nt ifd iwd)
                                          (exec (Cv_Broadcast nt)
                                            (exec (WatcherLock_Unlock nt) w)))))))))"

section \<open>Reading events back\<close>

text \<open>What the kernel puts into the buffer: the fixed part of an event, then its name.\<close>

record inotify_event =
  ie_wd :: "32 word"
  ie_mask :: "32 word"
  ie_cookie :: "32 word"
  ie_name :: "8 word list"

definition le_bytes :: "32 word \<Rightarrow> 8 word list" where
  "le_bytes v = map (\<lambda>k. word_of_nat (unat v div 256 ^ k)) [0, 1, 2, 3]"

definition event_bytes :: "inotify_event \<Rightarrow> 8 word list" where
  "event_bytes e = le_bytes (ie_wd e) @ le_bytes (ie_mask e) @ le_bytes (ie_cookie e) @
     le_bytes (word_of_nat (length (ie_name e))) @ ie_name e"

definition events_bytes :: "inotify_event list \<Rightarrow> 8 word list" where
  "events_bytes es = concat (map event_bytes es)"

lemma length_le_bytes [simp]: "length (le_bytes v) = 4"
  by (simp add: le_bytes_def)

lemma length_event_bytes [simp]: "length (event_bytes e) = 16 + length (ie_name e)"
  by (simp add: event_bytes_def)

lemma digits_256:
  assumes "n < 4294967296"
  shows "n mod 256 + 256 * (n div 256 mod 256 + 256 * (n div 65536 mod 256 + 256 * (n div 16777216 mod 256))) = (n :: nat)"
proof -
  have "n div 16777216 mod 256 = n div 16777216" using assms by (simp add: less_mult_imp_div_less)
  moreover have "n div 65536 = n div 256 div 256" "n div 16777216 = n div 256 div 256 div 256"
    by (simp_all add: div_mult2_eq [symmetric])
  ultimately show ?thesis using mod_mult_div_eq [of _ 256] by (simp del: div_mult2_eq)
qed

lemma unat_word32: "n < 4294967296 \<Longrightarrow> unat (word_of_nat n :: 32 word) = n"
  by (simp add: unsigned_of_nat take_bit_nat_eq_self)

lemma word32_le: "p < 4294967296 \<Longrightarrow> q < 4294967296 \<Longrightarrow>
    (word_of_nat p :: 32 word) \<le> word_of_nat q \<longleftrightarrow> p \<le> q"
  by (simp add: word_le_nat_alt unat_word32)

lemma le32_at: "length pre = p \<Longrightarrow> le32 (pre @ le_bytes v @ post) p = v"
proof -
  have u: "unat v < 4294967296" using unsigned_less [of v, where ?'a = nat] by simp
  have b: "unat (word_of_nat n :: 8 word) = n mod 256" for n by (simp add: unat_of_nat)
  have c: "unat (ucast v :: 8 word) = unat v mod 256" by (simp add: unsigned_ucast_eq take_bit_eq_mod)
  assume "length pre = p"
  then have "take 4 (drop p (pre @ le_bytes v @ post)) = le_bytes v" by simp
  moreover have "foldr (\<lambda>b acc. unat b + 256 * acc) (le_bytes v) 0 = unat v"
    using digits_256 [OF u] u by (simp add: le_bytes_def b c less_mult_imp_div_less)
  ultimately show ?thesis unfolding le32_def by simp
qed

lemma event_fields:
  assumes "length pre = p"
  shows "le32 (pre @ event_bytes e @ post) (p + 4) = ie_mask e"
    "le32 (pre @ event_bytes e @ post) (p + 12) = word_of_nat (length (ie_name e))"
  using le32_at [of "pre @ le_bytes (ie_wd e)" "p + 4"]
    le32_at [of "pre @ le_bytes (ie_wd e) @ le_bytes (ie_mask e) @ le_bytes (ie_cookie e)" "p + 12"] assms
  by (simp_all add: event_bytes_def)

definition is_close :: "inotify_event \<Rightarrow> bool" where
  "is_close e \<longleftrightarrow> and (ie_mask e) IN_CLOSE_WRITE = IN_CLOSE_WRITE"

text \<open>What the scan should give: one broadcast per event, and eleven more than there were events before the close.\<close>

definition scan_spec :: "inotify_event list \<Rightarrow> nat \<times> bool" where
  "scan_spec es =
     (let k = length (takeWhile (\<lambda>e. \<not> is_close e) es) in
      if k < length es then (2 * k + 12, True) else (k, False))"

lemma scan_from:
  assumes "length pre = p" and "p + length (events_bytes es) = T" and "16 \<le> T" and "T \<le> 65536"
    and "p \<le> T - 16 \<longrightarrow> es \<noteq> []"
  shows "scan_events (pre @ events_bytes es @ post) (word_of_nat (T - 16)) (word_of_nat p) r b =
    (let k = length (takeWhile (\<lambda>e. \<not> is_close e) es) in
     Some (Returned (if k < length es then (b + k + 1 + (r + k + 11), True) else (b + k, False))))"
  using assms
proof (induction es arbitrary: pre p r b)
  case Nil
  then have "\<not> (word_of_nat p \<le> (word_of_nat (T - 16) :: 32 word))"
    by (subst word32_le) (auto simp: events_bytes_def)
  then show ?case by (subst scan_events.simps) simp
next
  case (Cons e es)
  let ?buf = "pre @ events_bytes (e # es) @ post"
  have split: "?buf = pre @ event_bytes e @ (events_bytes es @ post)"
    "?buf = (pre @ event_bytes e) @ events_bytes es @ post"
    by (simp_all add: events_bytes_def)
  have len: "p + 16 + length (ie_name e) + length (events_bytes es) = T"
    using Cons.prems(2) by (simp add: events_bytes_def)
  have p: "unat (word_of_nat p :: 32 word) = p" using len Cons.prems(4) by (simp add: unat_word32)
  have le: "word_of_nat p \<le> (word_of_nat (T - 16) :: 32 word)"
    using len Cons.prems(4) by (subst word32_le) simp_all
  have inb: "p < length ?buf" using Cons.prems(1) by (simp add: events_bytes_def)
  have mask: "le32 ?buf (p + 4) = ie_mask e"
    and ln: "le32 ?buf (p + 12) = word_of_nat (length (ie_name e))"
    unfolding split(1) using event_fields [OF Cons.prems(1)] by simp_all
  show ?case
  proof (cases "is_close e")
    case True
    then show ?thesis using p le inb mask
      by (simp add: scan_events.simps [of ?buf] is_close_def Let_def)
  next
    case False
    have ne: "p + 16 + length (ie_name e) \<le> T - 16 \<longrightarrow> es \<noteq> []"
      using len Cons.prems(3) by (auto simp: events_bytes_def)
    have "scan_events ?buf (word_of_nat (T - 16)) (word_of_nat p) r b
        = scan_events ?buf (word_of_nat (T - 16)) (word_of_nat (p + 16 + length (ie_name e))) (r + 1) (b + 1)"
      using p le inb mask ln False
      by (subst scan_events.simps) (simp add: is_close_def Let_def add.assoc SizeofInotifyEvent_def)
    also have "\<dots> = (let k = length (takeWhile (\<lambda>e. \<not> is_close e) es) in
     Some (Returned (if k < length es then (b + 1 + k + 1 + (r + 1 + k + 11), True) else (b + 1 + k, False))))"
      unfolding split(2)
      by (rule Cons.IH) (use len Cons.prems ne in simp_all)
    finally show ?thesis using False by (simp add: Let_def)
  qed
qed

lemma scan_complete:
  assumes "es \<noteq> []" and "length (events_bytes es @ rest) \<le> 1600"
  shows "scan_events (events_bytes es @ rest) (word_of_nat (length (events_bytes es) - SizeofInotifyEvent)) 0 0 0
    = Some (Returned (scan_spec es))"
proof -
  have "16 \<le> length (events_bytes es)" using assms(1) by (cases es) (simp_all add: events_bytes_def)
  with scan_from [of "[]" 0 es "length (events_bytes es)" rest 0 0] assms
  show ?thesis by (simp add: scan_spec_def SizeofInotifyEvent_def Let_def)
qed

lemma watch_round_events:
  assumes "run_state (ctx_err_of os ctx) w = (None, w1)" and "Cv_Lock nt w1 = Some w2"
    and "inotify_Read nt ifd (length ebuf) w2 = Some (Inr (events_bytes es), w3)"
    and "es \<noteq> []" and "length ebuf = 1600" and "length (events_bytes es) \<le> 1600"
  shows "watch_round os nt ctx ifd (ebuf, w) = Some
    (let (n, closed) = scan_spec es; w' = broadcast_times nt n (exec (Cv_Unlock nt) w3) in
     if closed then Inr (Returned None, w')
     else Inl (events_bytes es @ drop (length (events_bytes es)) ebuf, w'))"
proof -
  have "16 \<le> length (events_bytes es)" using assms(4) by (cases es) (simp_all add: events_bytes_def)
  then have n: "events_bytes es \<noteq> []" "\<not> length (events_bytes es) < SizeofInotifyEvent"
    by (auto simp: SizeofInotifyEvent_def)
  have "scan_events (events_bytes es @ drop (length (events_bytes es)) ebuf)
      (word_of_nat (length (events_bytes es) - SizeofInotifyEvent)) 0 0 0 = Some (Returned (scan_spec es))"
    by (rule scan_complete) (use assms(4-6) in simp_all)
  with assms(1-3) n show ?thesis
    by (simp add: watch_round_def Let_def split: prod.split)
qed

text \<open>
  Property C37: the scan of a buffer with complete events is total, stays inside the buffer, and does
  what it should whatever follows the events: one broadcast per event up to the first close of the
  file, which ends the watch with extra broadcasts; without a close all events are visited.
\<close>

theorem scan_events_exact:
  assumes "es \<noteq> []" and "length (events_bytes es @ rest) \<le> 1600"
  shows "scan_events (events_bytes es @ rest) (word_of_nat (length (events_bytes es) - SizeofInotifyEvent)) 0 0 0
    = Some (Returned (scan_spec es))"
  by (rule scan_complete [OF assms])

theorem scan_events_exact_witness:
  "scan_events (events_bytes [\<lparr>ie_wd = 1, ie_mask = 2, ie_cookie = 0, ie_name = []\<rparr>,
      \<lparr>ie_wd = 1, ie_mask = 8, ie_cookie = 0, ie_name = []\<rparr>] @ []) 16 0 0 0 = Some (Returned (14, True))"
proof -
  let ?es = "[\<lparr>ie_wd = 1, ie_mask = 2, ie_cookie = 0, ie_name = []\<rparr>,
      \<lparr>ie_wd = 1, ie_mask = 8, ie_cookie = 0, ie_name = []\<rparr>]"
  have "length (events_bytes ?es) = 32" by (simp add: events_bytes_def)
  moreover have "scan_spec ?es = (14, True)"
    by (simp add: scan_spec_def is_close_def IN_CLOSE_WRITE_def)
  ultimately show ?thesis using scan_events_exact [of ?es "[]"] by (simp add: SizeofInotifyEvent_def)
qed

section \<open>Waiting ends\<close>

text \<open>A file that does not appear while nothing but the wait happens; \<open>probes\<close> counts the stats.\<close>

definition stays_absent :: "'w os \<Rightarrow> nat \<Rightarrow> string \<Rightarrow> ('w \<Rightarrow> bool) \<Rightarrow> ('w \<Rightarrow> nat) \<Rightarrow> bool" where
  "stays_absent os ctx f absent probes \<longleftrightarrow> (\<forall>w. absent w \<longrightarrow>
     (\<exists>w'. run_state (ctx_err_of os ctx) w = (None, w') \<and> absent w' \<and> probes w' = probes w) \<and>
     (\<exists>e w'. run_state (os_Stat os f) w = (Inl e, w') \<and> IsNotExist e \<and> absent w' \<and> probes w' = probes w + 1) \<and>
     (\<exists>w'. run_state (sleep_ms os 5) w = ((), w') \<and> absent w' \<and> probes w' = probes w))"

lemma wait_file_absent:
  assumes "stays_absent os ctx f absent probes" and "absent w" and "i \<le> 199"
  shows "\<exists>w'. run_state (wait_file_round os ctx f i) w = (Some (Errorf
      ''WaitForFile (%s): Did not find logfile after %d cycles of %d millisecs each'' [f, Itoa 200, Itoa 5] []), w')
    \<and> probes w' = probes w + (199 - i)"
  using assms(2,3)
proof (induction "199 - i" arbitrary: i w)
  case 0
  obtain w1 where "run_state (ctx_err_of os ctx) w = (None, w1)" "absent w1" "probes w1 = probes w"
    using assms(1) 0(2) unfolding stays_absent_def by blast
  with 0 show ?case by (subst wait_file_round.simps) (simp add: go_run)
next
  case (Suc n)
  obtain w1 where w1: "run_state (ctx_err_of os ctx) w = (None, w1)" "absent w1" "probes w1 = probes w"
    using assms(1) Suc(3) unfolding stays_absent_def by blast
  obtain e w2 where w2: "run_state (os_Stat os f) w1 = (Inl e, w2)" "IsNotExist e" "absent w2"
    "probes w2 = probes w1 + 1"
    using assms(1) w1(2) unfolding stays_absent_def by blast
  obtain w3 where w3: "run_state (sleep_ms os 5) w2 = ((), w3)" "absent w3" "probes w3 = probes w2"
    using assms(1) w2(3) unfolding stays_absent_def by blast
  have "n = 199 - (i + 1)" "i + 1 \<le> 199" using Suc(2,4) by simp_all
  from Suc(1) [OF this(1) w3(2) this(2)] Suc(2,4) w1 w2 w3 show ?case
    by (subst wait_file_round.simps) (auto simp: go_run)
qed

lemma wait_file_found:
  "run_state (wait_file_round os ctx f i) w = (None, w') \<Longrightarrow> \<exists>w1 d. run_state (os_Stat os f) w1 = (Inr d, w')"
proof (induction os ctx f i arbitrary: w rule: wait_file_round.induct)
  case (1 os ctx f i)
  then show ?case
    by (subst (asm) wait_file_round.simps) (auto simp: go_run split: go_split)
qed

text \<open>
  Property C38: \<open>WaitForFile\<close> always returns.  It returns no error only right after a successful
  stat of the file; if the file never appears it gives up with its error after 199 stats, one fewer
  than the 200 cycles the error text reports.
\<close>

theorem WaitForFile_bounded:
  "(run_state (WaitForFile os ctx f) w = (None, w') \<longrightarrow>
      (\<exists>w1 d. run_state (os_Stat os f) w1 = (Inr d, w'))) \<and>
   (stays_absent os ctx f absent probes \<and> absent w \<longrightarrow>
      (\<exists>w'. run_state (WaitForFile os ctx f) w = (Some (Errorf
         ''WaitForFile (%s): Did not find logfile after %d cycles of %d millisecs each'' [f, Itoa 200, Itoa 5] []), w')
       \<and> probes w' = probes w + 199))"
  using wait_file_found [of os ctx f 0 w w'] wait_file_absent [of os ctx f absent probes w 0]
  by (simp add: WaitForFile_def)

definition count_os :: "memw os" where
  "count_os = mem_os\<lparr>os_Stat := (\<lambda>p. State (\<lambda>w. (Inl (PathError ''stat'' p ENOENT), w\<lparr>m_next := m_next w + 1\<rparr>)))\<rparr>"

theorem WaitForFile_bounded_witness:
  "\<exists>w'. run_state (WaitForFile count_os 0 ''/tmp/x.log'') mem_boot = (Some (Errorf
      ''WaitForFile (%s): Did not find logfile after %d cycles of %d millisecs each''
      [''/tmp/x.log'', Itoa 200, Itoa 5] []), w') \<and> nat (m_next w') = nat (m_next mem_boot) + 199"
proof -
  have "stays_absent count_os 0 ''/tmp/x.log'' (\<lambda>w. 0 \<le> m_next w) (\<lambda>w. nat (m_next w))"
    by (auto simp: stays_absent_def count_os_def mem_os_def)
  with WaitForFile_bounded [of count_os 0 "''/tmp/x.log''" mem_boot mem_boot "\<lambda>w. 0 \<le> m_next w" "\<lambda>w. nat (m_next w)"]
  show ?thesis by (simp add: mem_boot_def)
qed

section \<open>The watcher's lock\<close>

text \<open>
  What \<open>Watcher\<close> needs of the lock: \<open>held\<close> says that this goroutine holds \<open>WatcherLock\<close>; only its own
  calls of \<open>Lock\<close> and \<open>Unlock\<close> change that.
\<close>

locale watch_lock =
  fixes os :: "'w os" and nt :: "'w notify" and held :: "'w \<Rightarrow> bool"
  assumes lock: "WatcherLock_Lock nt w = Some w' \<Longrightarrow> held w'"
    and unlock: "\<not> held (exec (WatcherLock_Unlock nt) w)"
    and cv_lock: "Cv_Lock nt w = Some w' \<Longrightarrow> held w' = held w"
    and cv_unlock: "held (exec (Cv_Unlock nt) w) = held w"
    and bcast: "held (exec (Cv_Broadcast nt) w) = held w"
    and rm: "held (exec (InotifyRmWatch nt a b) w) = held w"
    and read: "inotify_Read nt a n w = Some (r, w') \<Longrightarrow> held w' = held w"
    and add: "run_state (InotifyAddWatch nt a f m) w = (r2, w') \<Longrightarrow> held w' = held w"
    and init: "run_state (InotifyInit nt) w = (r2, w') \<Longrightarrow> held w' = held w"
    and close: "held (exec (sys_Close os a) w) = held w"
    and ctx: "run_state (ctx_err_of os c) w = (x, w') \<Longrightarrow> held w' = held w"
    and stat: "run_state (os_Stat os f) w = (s, w') \<Longrightarrow> held w' = held w"
    and sleep: "run_state (sleep_ms os n) w = (u, w') \<Longrightarrow> held w' = held w"
begin

lemma wait_file_held: "run_state (wait_file_round os c f i) w = (r, w') \<Longrightarrow> held w' = held w"
proof (induction "200 - i" arbitrary: i w rule: less_induct)
  case less
  have IH: "run_state (wait_file_round os c f (i + 1)) u = (r, w') \<Longrightarrow> held w' = held u" if "\<not> i + 1 \<ge> 200" for u
    using less(1) [of "i + 1"] that by auto
  show ?case
    using less(2) IH
    by (subst (asm) wait_file_round.simps) (auto simp: go_run split: go_split dest!: ctx stat sleep)
qed

lemma broadcast_held: "held (broadcast_times nt n w) = held w"
  by (induction n) (simp_all add: broadcast_times_def bcast)

lemma watch_round_held:
  assumes "watch_round os nt c ifd (ebuf, w) = Some r"
  shows "(\<forall>ebuf' w'. r = Inl (ebuf', w') \<longrightarrow> held w' = held w) \<and> (\<forall>x w'. r = Inr (x, w') \<longrightarrow> held w' = held w)"
  using assms
  by (auto simp: watch_round_def Let_def cv_unlock broadcast_held
      split: prod.splits option.splits sum.splits if_splits call.splits dest!: ctx cv_lock read)

lemma watch_loop_held:
  assumes "watch_loop os nt c ifd ebuf w = Some (x, w')" and "held w"
  shows "held w'"
proof -
  have "held (snd (x, w'))"
    by (rule forever_result [where P = "\<lambda>s. held (snd s)" and Q = "\<lambda>r. held (snd r)",
          OF assms(1) [unfolded watch_loop_def]])
      (use assms(2) watch_round_held in \<open>fastforce+\<close>)
  then show ?thesis by simp
qed

lemma Watcher_releases:
  assumes "Watcher os nt c f w = Some (x, w')" and "\<not> held w"
  shows "\<not> held w'"
  using assms
  by (auto simp: Watcher_def WaitForFile_def rm bcast unlock close
      split: prod.splits option.splits sum.splits dest!: wait_file_held init add)

end

text \<open>A concrete instance: a machine with the two locks and a queue of inotify reads.\<close>

record watchw =
  n_mem :: memw
  n_held :: bool
  n_queue :: "8 word list list"
  n_broadcasts :: nat

definition watch_os :: "watchw os" where
  "watch_os = lift_os n_mem (\<lambda>m w. w\<lparr>n_mem := m\<rparr>) mem_os"

definition mem_notify :: "watchw notify" where
  "mem_notify = \<lparr>
     InotifyInit = State_Monad.return (Inr 3),
     InotifyAddWatch = (\<lambda>fd f m. State_Monad.return (Inr 1)),
     InotifyRmWatch = (\<lambda>fd wd. State_Monad.return ()),
     inotify_Read = (\<lambda>fd n w. case n_queue w of [] \<Rightarrow> None | b # q \<Rightarrow> Some (Inr b, w\<lparr>n_queue := q\<rparr>)),
     WatcherLock_Lock = (\<lambda>w. if n_held w then None else Some (w\<lparr>n_held := True\<rparr>)),
     WatcherLock_Unlock = State (\<lambda>w. ((), w\<lparr>n_held := False\<rparr>)),
     WatcherLock_TryLock = State (\<lambda>w. (\<not> n_held w, w\<lparr>n_held := True\<rparr>)),
     Cv_Lock = Some,
     Cv_Unlock = State_Monad.return (),
     Cv_Wait = (\<lambda>w. None),
     Cv_Broadcast = State (\<lambda>w. ((), w\<lparr>n_broadcasts := n_broadcasts w + 1\<rparr>))\<rparr>"

interpretation mem_watch: watch_lock watch_os mem_notify n_held
  by unfold_locales
    (auto simp: watch_os_def mem_notify_def lift_os_def exec_def run_lift_st split: prod.splits list.splits if_splits)

text \<open>
  Fact: \<open>Watcher\<close> releases \<open>WatcherLock\<close> on every path on which it returns: whatever error
  or event ends it, a goroutine that did not hold the lock when it called \<open>Watcher\<close> does not hold it
  afterwards.
\<close>

theorem Watcher_releases_lock:
  assumes "watch_lock os nt held" and "Watcher os nt ctx logfile w = Some (r, w')" and "\<not> held w"
  shows "\<not> held w'"
  by (rule watch_lock.Watcher_releases [OF assms])

definition mem_watch_start :: watchw where
  "mem_watch_start = \<lparr>n_mem = mem_boot\<lparr>m_files := [(''/tmp/j1.log'', '''')]\<rparr>, n_held = False,
     n_queue = [events_bytes [\<lparr>ie_wd = 1, ie_mask = 2, ie_cookie = 0, ie_name = []\<rparr>],
                events_bytes [\<lparr>ie_wd = 1, ie_mask = 8, ie_cookie = 0, ie_name = []\<rparr>]],
     n_broadcasts = 0\<rparr>"

lemma mem_broadcasts: "broadcast_times mem_notify n w = w\<lparr>n_broadcasts := n_broadcasts w + n\<rparr>"
  by (induction n) (simp_all add: broadcast_times_def exec_def mem_notify_def)

lemma mem_watch_round:
  assumes "n_queue w = events_bytes es # q" and "es \<noteq> []" and "length ebuf = 1600"
    and "length (events_bytes es) \<le> 1600"
  shows "watch_round watch_os mem_notify 0 3 (ebuf, w) = Some
    (let (n, closed) = scan_spec es; w' = w\<lparr>n_queue := q, n_broadcasts := n_broadcasts w + n\<rparr> in
     if closed then Inr (Returned None, w')
     else Inl (events_bytes es @ drop (length (events_bytes es)) ebuf, w'))"
proof -
  have c: "run_state (ctx_err_of watch_os 0) w = (None, w)"
    by (simp add: watch_os_def lift_os_def go_run mem_os_run)
  have "Cv_Lock mem_notify w = Some w"
    and "inotify_Read mem_notify 3 1600 w = Some (Inr (events_bytes es), w\<lparr>n_queue := q\<rparr>)"
    and "exec (Cv_Unlock mem_notify) (w\<lparr>n_queue := q\<rparr>) = w\<lparr>n_queue := q\<rparr>"
    using assms(1) by (simp_all add: mem_notify_def exec_def)
  with watch_round_events [OF c _ _ assms(2-4), of mem_notify w 3 "w\<lparr>n_queue := q\<rparr>"] assms(3) show ?thesis
    by (simp add: mem_broadcasts Let_def split: prod.split)
qed

lemma mem_watch_run:
  "map_option (\<lambda>(r, w'). (r, n_broadcasts w'))
     (watch_loop watch_os mem_notify 0 3 (replicate 1600 0) (mem_watch_start\<lparr>n_held := True\<rparr>)) = Some (Returned None, 13)"
proof -
  let ?e1 = "[\<lparr>ie_wd = 1, ie_mask = 2, ie_cookie = 0, ie_name = []\<rparr>]"
  let ?e2 = "[\<lparr>ie_wd = 1, ie_mask = 8, ie_cookie = 0, ie_name = []\<rparr>]"
  let ?w = "mem_watch_start\<lparr>n_held := True\<rparr>"
  have l: "length (events_bytes ?e1) = 16" "length (events_bytes ?e2) = 16" by (simp_all add: events_bytes_def)
  have q: "n_queue ?w = events_bytes ?e1 # [events_bytes ?e2]" by (simp add: mem_watch_start_def)
  have sp: "scan_spec ?e1 = (1, False)" "scan_spec ?e2 = (12, True)"
    by (simp_all add: scan_spec_def is_close_def IN_CLOSE_WRITE_def)
  have r1: "watch_round watch_os mem_notify 0 3 (replicate 1600 0, ?w) =
      Some (Inl (events_bytes ?e1 @ drop 16 (replicate 1600 0), ?w\<lparr>n_queue := [events_bytes ?e2], n_broadcasts := 1\<rparr>))"
    by (subst mem_watch_round [OF q]) (simp_all add: l sp mem_watch_start_def)
  let ?w2 = "?w\<lparr>n_queue := [events_bytes ?e2], n_broadcasts := 1\<rparr>"
  have "watch_round watch_os mem_notify 0 3 (events_bytes ?e1 @ drop 16 (replicate 1600 0), ?w2) =
      Some (Inr (Returned None, ?w2\<lparr>n_queue := [], n_broadcasts := 13\<rparr>))"
    by (subst mem_watch_round [where es = ?e2 and q = "[]"]) (simp_all add: l sp)
  from forever_stops [where body = "watch_round watch_os mem_notify 0 3", OF this] show ?thesis
    unfolding watch_loop_def
    by (subst forever_steps [where body = "watch_round watch_os mem_notify 0 3", OF r1]) simp
qed

theorem Watcher_releases_lock_witness:
  "\<exists>w'. Watcher watch_os mem_notify 0 ''/tmp/j1.log'' mem_watch_start = Some (Returned None, w') \<and>
     n_broadcasts w' = 14 \<and> \<not> n_held w'"
proof -
  have "run_state (WaitForFile watch_os 0 ''/tmp/j1.log'') mem_watch_start = (None, mem_watch_start)"
    unfolding WaitForFile_def
    by (subst wait_file_round.simps)
      (simp add: go_run mem_os_run watch_os_def lift_os_def mem_stat_def mem_watch_start_def mem_boot_def)
  then have "Watcher watch_os mem_notify 0 ''/tmp/j1.log'' mem_watch_start =
      (case watch_loop watch_os mem_notify 0 3 (replicate 1600 0) (mem_watch_start\<lparr>n_held := True\<rparr>) of
         None \<Rightarrow> None
       | Some (r, w) \<Rightarrow> Some (r, w\<lparr>n_held := False, n_broadcasts := n_broadcasts w + 1\<rparr>))"
    by (simp add: Watcher_def mem_notify_def exec_def watch_os_def lift_os_def go_run mem_os_run
        SizeofInotifyEvent_def mem_watch_start_def split: option.split)
  moreover have "map_option (\<lambda>(r, w'). (r, n_broadcasts w'))
      (watch_loop watch_os mem_notify 0 3 (replicate 1600 0) (mem_watch_start\<lparr>n_held := True\<rparr>)) = Some (Returned None, 13)"
    by (rule mem_watch_run)
  ultimately have "map_option (\<lambda>(r, w'). (r, n_broadcasts w')) (Watcher watch_os mem_notify 0 ''/tmp/j1.log'' mem_watch_start)
      = Some (Returned None, 14)"
    by (auto split: option.splits)
  then obtain w' where w': "Watcher watch_os mem_notify 0 ''/tmp/j1.log'' mem_watch_start = Some (Returned None, w')"
    "n_broadcasts w' = 14" by auto
  with Watcher_releases_lock [OF mem_watch.watch_lock_axioms w'(1)] show ?thesis
    by (simp add: mem_watch_start_def)
qed

end
