(* ===== verification/ServerImpl.thy ===== *)
theory ServerImpl
  imports JobsLib ValidateClient Messages Watcher
begin

text \<open>
  \<open>api/server/server_impl.go\<close>: the four RPC handlers.  The state of the server is the job library, the
  world of the operating system and the goroutines that were started.  \<open>Stop\<close> may never return.

  \<open>StreamOutput\<close> only reads the library, in one locked access at its start, so it gets the library
  as an argument and works on the world alone: the output file, the stream and the two locks of the
  watcher are operations of it (\<open>stream_ops\<close>, \<open>notify\<close>).  Its loops are \<open>forever\<close>.  Calling the
  method \<open>Error\<close> of a nil error panics.
\<close>

section \<open>Unary handlers\<close>

record 'w server =
  s_lib :: JobsLib
  s_world :: 'w
  s_goroutines :: "(nat \<times> int) list"

definition server_os :: "'w os \<Rightarrow> 'w server os" where
  "server_os os = lift_os s_world (\<lambda>w s. s\<lparr>s_world := w\<rparr>) os"

text \<open>
  How every handler begins: the caller's identity is read from the context, then the context is
  checked; \<open>ret\<close> makes the result of the handler from an error.
\<close>

definition with_client ::
  "'w os \<Rightarrow> request_ctx \<Rightarrow> (goerr \<Rightarrow> 'r) \<Rightarrow> (string \<Rightarrow> string \<Rightarrow> ('w, 'r) proc) \<Rightarrow> ('w, 'r) proc" where
  "with_client os ctx ret k w =
     (case ClientInfoFromContext (os_unicode os) ctx of
        Panicked \<Rightarrow> Some (Panicked, w)
      | Returned (Inl err) \<Rightarrow>
          Some (Returned (ret (StatusErr PermissionDenied (error_text (os_unicode os) err))), w)
      | Returned (Inr (clientName, clientRole)) \<Rightarrow>
          (case run_state (ctx_err_of os (ctx_id ctx)) w of
             (Some e, w) \<Rightarrow> Some (Returned (ret (StatusErr Aborted (ctx_text e))), w)
           | (None, w) \<Rightarrow> k clientName clientRole w))"

definition internal_error :: "'w os \<Rightarrow> goerr \<Rightarrow> goerr" where
  "internal_error os err = StatusErr Internal (error_text (os_unicode os) err)"

definition is_admin :: "'w os \<Rightarrow> string \<Rightarrow> bool" where
  "is_admin os clientRole \<longleftrightarrow> RoleStrToRole (os_unicode os) clientRole = Admin"

definition rpc_Start ::
  "'w os \<Rightarrow> request_ctx \<Rightarrow> JobCreateRequest option \<Rightarrow> ('w server, goerr + JobID) proc" where
  "rpc_Start os ctx inp = with_client (server_os os) ctx Inl (\<lambda>clientName clientRole s.
     let command = GetCommand inp; args = GetArgs inp in
     case run_state (Start os (s_lib s) (ctx_id ctx) clientName command args) (s_world s) of
       ((Inl err, j, g), w) \<Rightarrow>
         Some (Returned (Inl (internal_error os err)), s\<lparr>s_lib := j, s_world := w\<rparr>)
     | ((Inr jobID, j, g), w) \<Rightarrow>
         Some (Returned (Inr \<lparr>f_JobID = jobID\<rparr>),
               s\<lparr>s_lib := j, s_world := w,
                 s_goroutines := (case g of None \<Rightarrow> [] | Some x \<Rightarrow> [x]) @ s_goroutines s\<rparr>))"

definition rpc_Stop ::
  "'w os \<Rightarrow> request_ctx \<Rightarrow> JobIDRequest option \<Rightarrow> ('w server, goerr + JobResponse) proc" where
  "rpc_Stop os ctx inp = with_client (server_os os) ctx Inl (\<lambda>clientName clientRole s.
     let jobID = GetJobID (GetJobIDRequest inp); adminRole = is_admin os clientRole in
     case Stop os (s_lib s) (ctx_id ctx) clientName jobID adminRole (s_world s) of
       None \<Rightarrow> None
     | Some ((Inl err, j), w) \<Rightarrow>
         Some (Returned (Inl (internal_error os err)), s\<lparr>s_lib := j, s_world := w\<rparr>)
     | Some ((Inr job, j), w) \<Rightarrow>
         Some (Returned (Inr (job_response (GetJobIDRequest inp) job)), s\<lparr>s_lib := j, s_world := w\<rparr>))"

definition rpc_Status ::
  "'w os \<Rightarrow> request_ctx \<Rightarrow> JobIDRequest option \<Rightarrow> ('w server, goerr + JobResponse) proc" where
  "rpc_Status os ctx inp = with_client (server_os os) ctx Inl (\<lambda>clientName clientRole s.
     let jobIDObj = GetJobIDRequest inp; jobID = GetJobID jobIDObj; adminRole = is_admin os clientRole in
     case run_state (Status os (s_lib s) (ctx_id ctx) clientName jobID adminRole) (s_world s) of
       (Inl err, w) \<Rightarrow> Some (Returned (Inl (internal_error os err)), s\<lparr>s_world := w\<rparr>)
     | (Inr job, w) \<Rightarrow> Some (Returned (Inr (job_response jobIDObj job)), s\<lparr>s_world := w\<rparr>))"

section \<open>Streaming\<close>

record 'w stream_ops =
  OpenFile :: "string \<Rightarrow> ('w, goerr + int) state"
  ReadAt :: "int \<Rightarrow> nat \<Rightarrow> nat \<Rightarrow> ('w, string \<times> goerr option) state"   \<comment> \<open>file, length of the buffer, offset\<close>
  Send :: "nat \<Rightarrow> JobOutputResponse \<Rightarrow> ('w, goerr option) state"

definition chunklenBytes :: nat where "chunklenBytes = 1024"

definition canceled :: "ctx_err \<Rightarrow> goerr" where
  "canceled e = StatusErr CodeCanceled (ctx_text e)"

text \<open>\<open>status.Error(codes.Internal, err.Error())\<close> for an \<open>err\<close> that may be nil.\<close>

definition internal_of :: "'w os \<Rightarrow> goerr option \<Rightarrow> goerr option call" where
  "internal_of os err = (case err of None \<Rightarrow> Panicked | Some e \<Rightarrow> Returned (Some (internal_error os e)))"

text \<open>A round of the loop for a job that has ended.\<close>

definition finished_round ::
  "'w os \<Rightarrow> 'w stream_ops \<Rightarrow> nat \<Rightarrow> nat \<Rightarrow> int \<Rightarrow> nat \<times> 'w
     \<Rightarrow> ((nat \<times> 'w) + (goerr option call \<times> 'w)) option" where
  "finished_round os st ctx ss fp = (\<lambda>(currPos, w).
     case run_state (ctx_err_of os ctx) w of
       (Some e, w) \<Rightarrow> Some (Inr (Returned (Some (canceled e)), w))
     | (None, w) \<Rightarrow>
         (case run_state (ReadAt st fp chunklenBytes currPos) w of
            ((output, err), w) \<Rightarrow>
              let next = (\<lambda>w. case err of
                  Some e \<Rightarrow> if e = EOF then Inr (Returned None, w) else Inl (currPos + length output, w)
                | None \<Rightarrow> Inr (internal_of os err, w)) in
              if output \<noteq> ''''
              then (case run_state (Send st ss \<lparr>f_Output = output\<rparr>) w of
                      (Some serr, w) \<Rightarrow> Some (Inr (internal_of os err, w))
                    | (None, w) \<Rightarrow> Some (next w))
              else Some (next w)))"

text \<open>
  The inner loop for a running job: until data was read, or the watcher's lock is free.  Its state
  is the data last read, the variable \<open>err\<close> and the world.
\<close>

definition wait_data_round ::
  "'w stream_ops \<Rightarrow> 'w notify \<Rightarrow> int \<Rightarrow> nat \<Rightarrow> string \<times> goerr option \<times> 'w
     \<Rightarrow> ((string \<times> goerr option \<times> 'w) + (string \<times> goerr option \<times> 'w)) option" where
  "wait_data_round st nt fp currPos = (\<lambda>(output, err, w).
     if output \<noteq> '''' then Some (Inr (output, err, w))
     else
       (case run_state (WatcherLock_TryLock nt) w of
          (True, w) \<Rightarrow> Some (Inr (output, err, exec (WatcherLock_Unlock nt) w))
        | (False, w) \<Rightarrow>
            (case Cv_Wait nt w of
               None \<Rightarrow> None
             | Some w \<Rightarrow>
                 (case run_state (ReadAt st fp chunklenBytes currPos) w of
                    ((output, err), w) \<Rightarrow> Some (Inl (output, err, w))))))"

definition wait_data ::
  "'w stream_ops \<Rightarrow> 'w notify \<Rightarrow> int \<Rightarrow> nat \<Rightarrow> goerr option \<Rightarrow> 'w \<Rightarrow> (string \<times> goerr option \<times> 'w) option" where
  "wait_data st nt fp currPos err w = forever (wait_data_round st nt fp currPos) ('''', err, w)"

definition send_chunk ::
  "'w os \<Rightarrow> 'w stream_ops \<Rightarrow> nat \<Rightarrow> nat \<Rightarrow> goerr option \<Rightarrow> string \<Rightarrow> 'w
     \<Rightarrow> (nat \<times> goerr option \<times> 'w) + (goerr option call \<times> 'w)" where
  "send_chunk os st ss currPos err output w =
     (if output \<noteq> ''''
      then (case run_state (Send st ss \<lparr>f_Output = output\<rparr>) w of
              (Some serr, w) \<Rightarrow> Inr (Returned (Some (internal_error os serr)), w)
            | (None, w) \<Rightarrow> Inl (currPos + length output, err, w))
      else Inl (currPos, err, w))"

text \<open>A round of the outer loop for a running job; \<open>err\<close> survives from round to round.\<close>

definition running_round ::
  "'w os \<Rightarrow> 'w stream_ops \<Rightarrow> 'w notify \<Rightarrow> nat \<Rightarrow> nat \<Rightarrow> int \<Rightarrow> nat \<times> goerr option \<times> 'w
     \<Rightarrow> ((nat \<times> goerr option \<times> 'w) + (goerr option call \<times> 'w)) option" where
  "running_round os st nt ctx ss fp = (\<lambda>(currPos, err, w).
     case run_state (ctx_err_of os ctx) w of
       (Some e, w) \<Rightarrow> Some (Inr (Returned (Some (canceled e)), w))
     | (None, w) \<Rightarrow>
         (case Cv_Lock nt w of
            None \<Rightarrow> None
          | Some w \<Rightarrow>
              (case wait_data st nt fp currPos err w of
                 None \<Rightarrow> None
               | Some (output, err, w) \<Rightarrow>
                   let w = exec (Cv_Unlock nt) w in
                   (case err of
                      None \<Rightarrow> Some (send_chunk os st ss currPos err output w)
                    | Some e \<Rightarrow>
                        if e \<noteq> EOF then Some (Inr (Returned (Some (internal_error os e)), w))
                        else
                          (case run_state (WatcherLock_TryLock nt) w of
                             (True, w) \<Rightarrow> Some (Inr (Returned None, exec (WatcherLock_Unlock nt) w))
                           | (False, w) \<Rightarrow> Some (send_chunk os st ss currPos err output w))))))"

definition close_file :: "'w os \<Rightarrow> int \<Rightarrow> (goerr option call \<times> 'w) option \<Rightarrow> (goerr option call \<times> 'w) option" where
  "close_file os fp r = (case r of None \<Rightarrow> None | Some (x, w) \<Rightarrow> Some (x, exec (file_Close os fp) w))"

definition stream_job ::
  "'w os \<Rightarrow> 'w stream_ops \<Rightarrow> 'w notify \<Rightarrow> nat \<Rightarrow> nat \<Rightarrow> Job \<Rightarrow> ('w, goerr option) proc" where
  "stream_job os st nt ctx ss theJob w =
     (let logfile = OutputFilePath theJob in
      case run_state (WaitForFile os ctx logfile) w of
        (Some err, w) \<Rightarrow> Some (Returned (Some (StatusErr NotFound (error_text (os_unicode os) err))), w)
      | (None, w) \<Rightarrow>
          (case run_state (OpenFile st logfile) w of
             (Inl err, w) \<Rightarrow> Some (Returned (Some (internal_error os err)), w)
           | (Inr fp, w) \<Rightarrow>
               let jstate = JobState_String (JState theJob) in
               close_file os fp
                 (if jstate = ''TerminatedByAPI'' \<or> jstate = ''Completed''
                  then forever (finished_round os st ctx ss fp) (0, w)
                  else forever (running_round os st nt ctx ss fp) (0, None, w))))"

definition rpc_StreamOutput ::
  "'w os \<Rightarrow> 'w stream_ops \<Rightarrow> 'w notify \<Rightarrow> JobsLib \<Rightarrow> JobIDRequest option \<Rightarrow> wrappedStream \<Rightarrow> ('w, goerr option) proc" where
  "rpc_StreamOutput os st nt j inp ws =
     (let ctx = wrapped_Context ws in
      with_client os ctx Some (\<lambda>clientName clientRole w.
        let jobID = GetJobID (GetJobIDRequest inp); adminRole = is_admin os clientRole in
        case run_state (StreamOutputSetup os j (ctx_id ctx) clientName jobID adminRole) w of
          (Inl err, w) \<Rightarrow> Some (Returned (Some (internal_error os err)), w)
        | (Inr theJob, w) \<Rightarrow> stream_job os st nt (ctx_id ctx) (ss_handle (wrapped_stream ws)) theJob w))"

section \<open>What is streamed is the file\<close>

text \<open>
  The file of a job only grows; reads return data at the offset asked for; a failed send may or may
  not have delivered the chunk.
\<close>

locale growing_file =
  fixes os :: "'w os" and st :: "'w stream_ops" and nt :: "'w notify"
    and logfile :: string and fp :: int and ss :: nat
    and content :: "'w \<Rightarrow> string" and sent :: "'w \<Rightarrow> string"
  assumes ctx: "run_state (ctx_err_of os c) w = (x, w') \<Longrightarrow> prefix (content w) (content w') \<and> sent w' = sent w"
    and stat: "run_state (os_Stat os f) w = (r, w') \<Longrightarrow> prefix (content w) (content w') \<and> sent w' = sent w"
    and sleep: "run_state (sleep_ms os n) w = (u, w') \<Longrightarrow> prefix (content w) (content w') \<and> sent w' = sent w"
    and close: "prefix (content w) (content (exec (file_Close os fd) w)) \<and> sent (exec (file_Close os fd) w) = sent w"
    and cv_lock: "Cv_Lock nt w = Some w' \<Longrightarrow> prefix (content w) (content w') \<and> sent w' = sent w"
    and cv_wait: "Cv_Wait nt w = Some w' \<Longrightarrow> prefix (content w) (content w') \<and> sent w' = sent w"
    and cv_unlock: "prefix (content w) (content (exec (Cv_Unlock nt) w)) \<and> sent (exec (Cv_Unlock nt) w) = sent w"
    and trylock: "run_state (WatcherLock_TryLock nt) w = (b, w') \<Longrightarrow> prefix (content w) (content w') \<and> sent w' = sent w"
    and unlock: "prefix (content w) (content (exec (WatcherLock_Unlock nt) w))
      \<and> sent (exec (WatcherLock_Unlock nt) w) = sent w"
    and open_file: "run_state (OpenFile st logfile) w = (o_r, w')
      \<Longrightarrow> prefix (content w) (content w') \<and> sent w' = sent w \<and> (\<forall>fd. o_r = Inr fd \<longrightarrow> fd = fp)"
    and read: "run_state (ReadAt st fp n pos) w = ((out, err), w')
      \<Longrightarrow> prefix (content w) (content w') \<and> sent w' = sent w \<and> prefix out (drop pos (content w'))"
    and send: "run_state (Send st ss m) w = (s_err, w')
      \<Longrightarrow> prefix (content w) (content w') \<and>
          (if s_err = None then sent w' = sent w @ f_Output m else sent w' \<in> {sent w, sent w @ f_Output m})"
begin

definition calm :: "'w \<Rightarrow> 'w \<Rightarrow> bool" where
  "calm w w' \<longleftrightarrow> prefix (content w) (content w') \<and> sent w' = sent w"

lemma calm_refl [simp]: "calm w w" by (simp add: calm_def)

lemma calm_trans: "calm u v \<Longrightarrow> calm v w \<Longrightarrow> calm u w"
  by (auto simp: calm_def)

lemma calm_steps:
  "run_state (ctx_err_of os c) w = (x, w') \<Longrightarrow> calm w w'"
  "run_state (os_Stat os f) w = (r, w') \<Longrightarrow> calm w w'"
  "run_state (sleep_ms os n) w = (u, w') \<Longrightarrow> calm w w'"
  "Cv_Lock nt w = Some w' \<Longrightarrow> calm w w'" "Cv_Wait nt w = Some w' \<Longrightarrow> calm w w'"
  "run_state (WatcherLock_TryLock nt) w = (b, w') \<Longrightarrow> calm w w'"
  "run_state (OpenFile st logfile) w = (o_r, w') \<Longrightarrow> calm w w'"
  by (simp_all add: calm_def ctx stat sleep cv_lock cv_wait trylock open_file)

lemma calm_exec:
  "calm w (exec (file_Close os fd) w)" "calm w (exec (Cv_Unlock nt) w)" "calm w (exec (WatcherLock_Unlock nt) w)"
  by (simp_all add: calm_def close cv_unlock unlock)

text \<open>The bytes sent are the first \<open>pos\<close> bytes of the file.\<close>

definition upto :: "nat \<Rightarrow> 'w \<Rightarrow> bool" where
  "upto pos w \<longleftrightarrow> pos \<le> length (content w) \<and> sent w = take pos (content w)"

lemma upto_calm: "upto pos w \<Longrightarrow> calm w w' \<Longrightarrow> upto pos w'"
  by (auto simp: upto_def calm_def prefix_def)

lemma upto_prefix: "upto pos w \<Longrightarrow> prefix (sent w) (content w)"
  by (simp add: upto_def take_is_prefix)

lemma upto_send:
  assumes "upto pos w" and "prefix out (drop pos (content w))"
    and "run_state (Send st ss \<lparr>f_Output = out\<rparr>) w = (s_err, w')"
  shows "prefix (sent w') (content w') \<and> (s_err = None \<longrightarrow> upto (pos + length out) w')"
proof -
  obtain rest where "drop pos (content w) = out @ rest" using assms(2) by (auto simp: prefix_def)
  moreover from assms(1) obtain pre where "content w = pre @ drop pos (content w)" "pre = sent w" "length pre = pos"
    by (metis append_take_drop_id length_take min.absorb2 upto_def)
  ultimately have c: "content w = sent w @ out @ rest" and l: "length (sent w) = pos" by simp_all
  with send [OF assms(3)] show ?thesis
    by (auto simp: upto_def prefix_def split: if_splits)
qed

lemma read_ahead:
  "run_state (ReadAt st fp n pos) w = ((out, err), w') \<Longrightarrow> calm w w' \<and> prefix out (drop pos (content w'))"
  using read [of n pos w out err w'] by (simp add: calm_def)

lemma ahead_calm:
  assumes "prefix out (drop pos (content w))" and "calm w w'"
  shows "prefix out (drop pos (content w'))"
proof -
  obtain r where "content w' = content w @ r" using assms(2) by (auto simp: calm_def prefix_def)
  with assms(1) show ?thesis by (auto simp: prefix_def)
qed

lemma wait_data_calm:
  assumes "wait_data st nt fp pos err w = Some (out, err', w')"
  shows "calm w w' \<and> prefix out (drop pos (content w'))"
proof -
  let ?P = "\<lambda>(out, err, u). calm w u \<and> prefix out (drop pos (content u))"
  have "?P (out, err', w')"
  proof (rule forever_result [where P = ?P and Q = ?P, OF assms [unfolded wait_data_def]])
    show "?P ('''', err, w)" by simp
    fix s s' :: "string \<times> goerr option \<times> 'w"
    assume p: "?P s"
    show "?P s'" if "wait_data_round st nt fp pos s = Some (Inl s')"
      using that p
      by (auto simp: wait_data_round_def split: prod.splits option.splits if_splits bool.splits
          dest!: calm_steps read_ahead intro: calm_trans)
    show "?P s'" if "wait_data_round st nt fp pos s = Some (Inr s')"
      using that p
      by (auto simp: wait_data_round_def split: prod.splits option.splits if_splits bool.splits
          dest!: calm_steps intro: calm_trans calm_exec)
  qed
  then show ?thesis by simp
qed

lemma finished_round_upto:
  assumes "upto pos w" and "finished_round os st c ss fp (pos, w) = Some r"
  shows "(\<forall>pos' w'. r = Inl (pos', w') \<longrightarrow> upto pos' w') \<and> (\<forall>x w'. r = Inr (x, w') \<longrightarrow> prefix (sent w') (content w'))"
proof -
  obtain x w1 where c: "run_state (ctx_err_of os c) w = (x, w1)" by fastforce
  have u1: "upto pos w1" using upto_calm [OF assms(1)] calm_steps(1) [OF c] by blast
  show ?thesis
  proof (cases x)
    case (Some e)
    with assms(2) c u1 show ?thesis by (auto simp: finished_round_def intro: upto_prefix)
  next
    case None
    obtain out err w2 where rd: "run_state (ReadAt st fp chunklenBytes pos) w1 = ((out, err), w2)"
      by (metis prod.collapse)
    have u2: "upto pos w2" and a2: "prefix out (drop pos (content w2))"
      using upto_calm [OF u1] read_ahead [OF rd] by blast+
    obtain e w3 where sd: "run_state (Send st ss \<lparr>f_Output = out\<rparr>) w2 = (e, w3)" by fastforce
    note u3 = upto_send [OF u2 a2 sd]
    show ?thesis
    proof (cases "out = ''''")
      case True
      with assms(2) c None rd u2 show ?thesis
        by (auto simp: finished_round_def Let_def split: option.splits if_splits intro: upto_prefix)
    next
      case False
      with assms(2) c None rd sd u3 show ?thesis
        by (auto simp: finished_round_def Let_def split: option.splits if_splits)
    qed
  qed
qed

lemma send_chunk_upto:
  assumes "upto pos w" and "prefix out (drop pos (content w))" and "send_chunk os st ss pos err out w = r"
  shows "(\<forall>pos' err' w'. r = Inl (pos', err', w') \<longrightarrow> upto pos' w') \<and> (\<forall>x w'. r = Inr (x, w') \<longrightarrow> prefix (sent w') (content w'))"
proof -
  obtain e w' where "run_state (Send st ss \<lparr>f_Output = out\<rparr>) w = (e, w')" by fastforce
  with assms upto_send [OF assms(1,2) this] show ?thesis
    by (auto simp: send_chunk_def split: option.splits if_splits)
qed

lemma running_round_upto:
  assumes "upto pos w" and "running_round os st nt c ss fp (pos, err, w) = Some r"
  shows "(\<forall>pos' err' w'. r = Inl (pos', err', w') \<longrightarrow> upto pos' w') \<and> (\<forall>x w'. r = Inr (x, w') \<longrightarrow> prefix (sent w') (content w'))"
proof -
  obtain x w1 where c: "run_state (ctx_err_of os c) w = (x, w1)" by fastforce
  have u1: "upto pos w1" using upto_calm [OF assms(1)] calm_steps(1) [OF c] by blast
  show ?thesis
  proof (cases x)
    case (Some e)
    with assms(2) c u1 show ?thesis by (auto simp: running_round_def intro: upto_prefix)
  next
    case None
    then obtain w2 where l: "Cv_Lock nt w1 = Some w2"
      using assms(2) c by (auto simp: running_round_def split: option.splits)
    then obtain out err' w3 where wd: "wait_data st nt fp pos err w2 = Some (out, err', w3)"
      using assms(2) c None by (auto simp: running_round_def split: option.splits)
    let ?w4 = "exec (Cv_Unlock nt) w3"
    have m: "calm w1 ?w4" "prefix out (drop pos (content ?w4))"
      using wait_data_calm [OF wd] calm_steps(4) [OF l] calm_exec(2) calm_trans ahead_calm by blast+
    have u4: "upto pos ?w4" using upto_calm [OF u1 m(1)] .
    obtain b w5 where t: "run_state (WatcherLock_TryLock nt) ?w4 = (b, w5)" by fastforce
    have u5: "upto pos w5" "prefix out (drop pos (content w5))" "upto pos (exec (WatcherLock_Unlock nt) w5)"
      using calm_steps(6) [OF t] upto_calm u4 ahead_calm m(2) calm_exec(3) by blast+
    from assms(2) c None l wd t
    have "r = send_chunk os st ss pos err' out ?w4 \<or> r = send_chunk os st ss pos err' out w5 \<or>
        (\<exists>e. r = Inr (e, ?w4)) \<or> (\<exists>e. r = Inr (e, exec (WatcherLock_Unlock nt) w5))"
      by (auto simp: running_round_def Let_def split: option.splits if_splits bool.splits)
    then show ?thesis
      using send_chunk_upto [OF u4 m(2)] send_chunk_upto [OF u5(1,2)] upto_prefix [OF u4] upto_prefix [OF u5(3)]
      by auto
  qed
qed

lemma wait_file_calm: "run_state (wait_file_round os c f i) w = (r, w') \<Longrightarrow> calm w w'"
proof (induction "200 - i" arbitrary: i w rule: less_induct)
  case less
  have IH: "run_state (wait_file_round os c f (i + 1)) u = (r, w') \<Longrightarrow> calm u w'" if "\<not> i + 1 \<ge> 200" for u
    using less(1) [of "i + 1"] that by auto
  show ?case
    using less(2) IH
    by (subst (asm) wait_file_round.simps)
      (auto simp: go_run split: go_split dest!: calm_steps intro: calm_trans)
qed

lemma stream_job_prefix:
  assumes "stream_job os st nt c ss job w = Some (r, w')" and "OutputFilePath job = logfile" and "sent w = ''''"
  shows "prefix (sent w') (content w')"
proof -
  have u: "upto 0 w" using assms(3) by (simp add: upto_def)
  obtain x w1 where wf: "run_state (WaitForFile os c logfile) w = (x, w1)" by fastforce
  have u1: "upto 0 w1"
    using upto_calm [OF u wait_file_calm] wf by (simp add: WaitForFile_def)
  obtain y w2 where op: "run_state (OpenFile st logfile) w1 = (y, w2)" by fastforce
  have u2: "upto 0 w2" and fp: "\<forall>fd. y = Inr fd \<longrightarrow> fd = fp"
    using upto_calm [OF u1 calm_steps(7) [OF op]] open_file [OF op] by blast+
  let ?Q = "\<lambda>r. prefix (sent (snd r)) (content (snd r))"
  have close: "prefix (sent (exec (file_Close os fp) v)) (content (exec (file_Close os fp) v))"
    if "prefix (sent v) (content v)" for v
    using that calm_exec(1) [of v fp] by (auto simp: calm_def intro: prefix_order.trans)
  have fin: "?Q q" if "forever (finished_round os st c ss fp) (0, w2) = Some q" for q
    by (rule forever_result [OF that, where P = "\<lambda>s. upto (fst s) (snd s)"])
      (use u2 finished_round_upto in \<open>fastforce+\<close>)
  have run: "?Q q" if "forever (running_round os st nt c ss fp) (0, None, w2) = Some q" for q
    by (rule forever_result [OF that, where P = "\<lambda>s. upto (fst s) (snd (snd s))"])
      (use u2 running_round_upto in \<open>fastforce+\<close>)
  show ?thesis
    using assms(1,2) wf op upto_prefix [OF u1] upto_prefix [OF u2] fp fin run close
    by (auto simp: stream_job_def Let_def close_file_def split: option.splits sum.splits if_splits)
qed

end

text \<open>A concrete server side: a file, the chunks sent, and scripts for the lock and for the writer.\<close>

record streamw =
  sw_mem :: memw
  sw_file :: string
  sw_sent :: "string list"
  sw_locks :: "bool list"     \<comment> \<open>results of \<open>TryLock\<close>; free afterwards\<close>
  sw_writes :: "string list"  \<comment> \<open>what the job writes before each wake-up\<close>

definition stream_os :: "streamw os" where
  "stream_os = lift_os sw_mem (\<lambda>m w. w\<lparr>sw_mem := m\<rparr>) mem_os"

definition mem_stream :: "streamw stream_ops" where
  "mem_stream = \<lparr>
     OpenFile = (\<lambda>p. State_Monad.return (Inr 7)),
     ReadAt = (\<lambda>fd n pos. State (\<lambda>w. let rest = drop pos (sw_file w) in
        ((take n rest, if length rest < n then Some EOF else None), w))),
     Send = (\<lambda>h m. State (\<lambda>w. (None, w\<lparr>sw_sent := sw_sent w @ [f_Output m]\<rparr>)))\<rparr>"

definition mem_locks :: "streamw notify" where
  "mem_locks = \<lparr>
     InotifyInit = State_Monad.return (Inr 3),
     InotifyAddWatch = (\<lambda>fd f m. State_Monad.return (Inr 1)),
     InotifyRmWatch = (\<lambda>fd wd. State_Monad.return ()),
     inotify_Read = (\<lambda>fd n w. None),
     WatcherLock_Lock = Some,
     WatcherLock_Unlock = State_Monad.return (),
     WatcherLock_TryLock = State (\<lambda>w. case sw_locks w of
        [] \<Rightarrow> (True, w) | b # bs \<Rightarrow> (b, w\<lparr>sw_locks := bs\<rparr>)),
     Cv_Lock = Some,
     Cv_Unlock = State_Monad.return (),
     Cv_Wait = (\<lambda>w. case sw_writes w of
        [] \<Rightarrow> None | x # xs \<Rightarrow> Some (w\<lparr>sw_file := sw_file w @ x, sw_writes := xs\<rparr>)),
     Cv_Broadcast = State_Monad.return ()\<rparr>"

lemma stream_run [go_run]:
  "run_state (ctx_err_of stream_os c) w = (None, w)"
  "run_state (os_Stat stream_os p) w = (case mem_stat p (sw_mem w) of (r, m) \<Rightarrow> (r, w\<lparr>sw_mem := m\<rparr>))"
  "run_state (sleep_ms stream_os n) w = ((), w)"
  "exec (file_Close stream_os fd) w = w"
  "run_state (OpenFile mem_stream p) w = (Inr 7, w)"
  "run_state (ReadAt mem_stream fd k pos) w =
     ((take k (drop pos (sw_file w)), if length (drop pos (sw_file w)) < k then Some EOF else None), w)"
  "run_state (Send mem_stream h m) w = (None, w\<lparr>sw_sent := sw_sent w @ [f_Output m]\<rparr>)"
  "Cv_Lock mem_locks w = Some w" "exec (Cv_Unlock mem_locks) w = w" "exec (WatcherLock_Unlock mem_locks) w = w"
  "run_state (WatcherLock_TryLock mem_locks) w =
     (case sw_locks w of [] \<Rightarrow> (True, w) | b # bs \<Rightarrow> (b, w\<lparr>sw_locks := bs\<rparr>))"
  "Cv_Wait mem_locks w =
     (case sw_writes w of [] \<Rightarrow> None | x # xs \<Rightarrow> Some (w\<lparr>sw_file := sw_file w @ x, sw_writes := xs\<rparr>))"
  by (simp_all add: stream_os_def lift_os_def run_lift_st mem_os_run mem_stream_def mem_locks_def exec_def Let_def)

interpretation mem_file: growing_file stream_os mem_stream mem_locks logfile 7 ss sw_file
  "\<lambda>w. concat (sw_sent w)" for logfile ss
  by unfold_locales (auto simp: stream_run split: prod.splits list.splits option.splits intro: take_is_prefix)

text \<open>
  Property C19: whatever the kernel, the watcher and the client do, when \<open>StreamOutput\<close> ends the bytes
  it has sent are a prefix of the job's output file: nothing is reordered, repeated, skipped or made
  up, for ended and for running jobs alike.
\<close>

theorem stream_sends_prefix:
  assumes "growing_file os st nt (OutputFilePath job) fp ss content sent"
    and "stream_job os st nt ctx ss job w = Some (r, w')" and "sent w = ''''"
  shows "prefix (sent w') (content w')"
  by (rule growing_file.stream_job_prefix [OF assms(1,2) refl assms(3)])

section \<open>Streaming an ended job\<close>

text \<open>The file of an ended job does not change; reads at an offset are short only at its end.\<close>

locale static_file =
  fixes os :: "'w os" and st :: "'w stream_ops" and ctx :: nat and ss :: nat
    and logfile :: string and content :: string and sent :: "'w \<Rightarrow> string list" and ok :: "'w \<Rightarrow> bool"
  assumes live: "ok w \<Longrightarrow> \<exists>w'. run_state (ctx_err_of os ctx) w = (None, w') \<and> ok w' \<and> sent w' = sent w"
    and stat: "ok w \<Longrightarrow> \<exists>d w'. run_state (os_Stat os logfile) w = (Inr d, w') \<and> ok w' \<and> sent w' = sent w"
    and open_file: "ok w \<Longrightarrow> \<exists>fp w'. run_state (OpenFile st logfile) w = (Inr fp, w') \<and> ok w' \<and> sent w' = sent w"
    and read: "ok w \<Longrightarrow> \<exists>w'. run_state (ReadAt st fp n pos) w =
        ((take n (drop pos content), if length (drop pos content) < n then Some EOF else None), w')
        \<and> ok w' \<and> sent w' = sent w"
    and send: "ok w \<Longrightarrow> \<exists>w'. run_state (Send st ss m) w = (None, w') \<and> ok w' \<and> sent w' = sent w @ [f_Output m]"
    and close: "ok w \<Longrightarrow> sent (exec (file_Close os fp) w) = sent w"
begin

lemma finished_loop:
  assumes "ok w"
  shows "\<exists>w'. forever (finished_round os st ctx ss fp) (0, w) =
      Some (if length content < chunklenBytes then Returned None else Panicked, w') \<and> ok w' \<and>
    sent w' = sent w @ (if content = '''' then [] else [take chunklenBytes content])"
proof -
  obtain w1 where c: "run_state (ctx_err_of os ctx) w = (None, w1)" "ok w1" "sent w1 = sent w"
    using live [OF assms] by blast
  obtain w2 where r: "run_state (ReadAt st fp chunklenBytes 0) w1 = ((take chunklenBytes content,
      if length content < chunklenBytes then Some EOF else None), w2)" "ok w2" "sent w2 = sent w"
    using read [OF c(2), of fp chunklenBytes 0] c(3) by auto
  obtain w3 where s: "run_state (Send st ss \<lparr>f_Output = take chunklenBytes content\<rparr>) w2 = (None, w3)"
    "ok w3" "sent w3 = sent w @ [take chunklenBytes content]"
    using send [OF r(2)] r(3) by fastforce
  have t: "take chunklenBytes content = '''' \<longleftrightarrow> content = ''''" by (simp add: chunklenBytes_def)
  have "finished_round os st ctx ss fp (0, w) = Some (Inr
      (if length content < chunklenBytes then Returned None else Panicked, if content = '''' then w2 else w3))"
    using c(1) r(1) s(1) t by (auto simp: finished_round_def Let_def internal_of_def)
  from forever_stops [where body = "finished_round os st ctx ss fp", OF this] r(2,3) s(2,3) show ?thesis by simp
qed

lemma stream_ended_job:
  assumes "ok w" and "OutputFilePath job = logfile" and "job_ended job"
  shows "\<exists>w'. stream_job os st nt ctx ss job w =
      Some (if length content < chunklenBytes then Returned None else Panicked, w') \<and>
    sent w' = sent w @ (if content = '''' then [] else [take chunklenBytes content])"
proof -
  obtain w1 where c: "run_state (ctx_err_of os ctx) w = (None, w1)" "ok w1" "sent w1 = sent w"
    using live [OF assms(1)] by blast
  obtain d w2 where s: "run_state (os_Stat os logfile) w1 = (Inr d, w2)" "ok w2" "sent w2 = sent w"
    using stat [OF c(2)] c(3) by auto
  have wf: "run_state (WaitForFile os ctx logfile) w = (None, w2)"
    unfolding WaitForFile_def by (subst wait_file_round.simps) (simp add: go_run c s)
  obtain fp w3 where o: "run_state (OpenFile st logfile) w2 = (Inr fp, w3)" "ok w3" "sent w3 = sent w"
    using open_file [OF s(2)] s(3) by auto
  obtain w4 where f: "forever (finished_round os st ctx ss fp) (0, w3) =
      Some (if length content < chunklenBytes then Returned None else Panicked, w4)" "ok w4"
    "sent w4 = sent w @ (if content = '''' then [] else [take chunklenBytes content])"
    using finished_loop [OF o(2), of fp] o(3) by auto
  have e: "JobState_String (JState job) = ''TerminatedByAPI'' \<or> JobState_String (JState job) = ''Completed''"
    using JobState_String_ended [of job] assms(3) by simp
  have "stream_job os st nt ctx ss job w =
      Some (if length content < chunklenBytes then Returned None else Panicked, exec (file_Close os fp) w4)"
    using wf o(1) f(1) e assms(2) by (simp add: stream_job_def Let_def close_file_def)
  with close [OF f(2)] f(3) show ?thesis by simp
qed

end

interpretation mem_static: static_file stream_os mem_stream ctx ss "''/tmp/j1.log''" content sw_sent
  "\<lambda>w. sw_file w = content \<and> m_files (sw_mem w) = [(''/tmp/j1.log'', '''')]" for ctx ss content
  by unfold_locales (auto simp: stream_run mem_stat_def)

text \<open>
  Property C28: streaming the output of an ended job works only for files shorter than one chunk of
  1024 bytes: those are sent whole in one message (none for an empty file) and the call returns
  success; for any longer file the first 1024 bytes are sent and then the handler panics, since a
  full read has no error and the code asks that nil error for its text.
\<close>

theorem stream_ended_job_panics:
  assumes "static_file os st ctx ss (OutputFilePath job) content sent ok" and "ok w" and "job_ended job"
  shows "\<exists>w'. stream_job os st nt ctx ss job w =
      Some (if length content < 1024 then Returned None else Panicked, w') \<and>
    sent w' = sent w @ (if content = '''' then [] else [take 1024 content])"
  using static_file.stream_ended_job [OF assms(1,2) refl assms(3), of nt] unfolding chunklenBytes_def .

definition mem_streamw :: "string \<Rightarrow> streamw" where
  "mem_streamw data = \<lparr>sw_mem = mem_boot\<lparr>m_files := [(''/tmp/j1.log'', '''')]\<rparr>, sw_file = data, sw_sent = [],
     sw_locks = [], sw_writes = []\<rparr>"

theorem stream_ended_job_panics_witness:
  "\<exists>w'. stream_job stream_os mem_stream mem_locks 0 0 (sample_job\<lparr>JState := Completed\<rparr>)
      (mem_streamw (replicate 5000 CHR ''x'')) = Some (Panicked, w') \<and> sw_sent w' = [replicate 1024 CHR ''x'']"
proof -
  let ?job = "sample_job\<lparr>JState := Completed\<rparr>"
  have "OutputFilePath ?job = ''/tmp/j1.log''" "job_ended ?job" by (simp_all add: sample_job_def job_ended_def)
  with stream_ended_job_panics [OF mem_static.static_file_axioms [of 0 0 "replicate 5000 CHR ''x''", folded \<open>OutputFilePath ?job = _\<close>],
      of "mem_streamw (replicate 5000 CHR ''x'')" mem_locks]
  show ?thesis by (simp add: mem_streamw_def)
qed

lemma mem_stream_job:
  "stream_job stream_os mem_stream mem_locks 0 0 (sample_job\<lparr>JState := Completed\<rparr>) (mem_streamw ''abc'') =
     Some (Returned None, mem_streamw ''abc''\<lparr>sw_sent := [''abc'']\<rparr>)"
proof -
  have j: "OutputFilePath (sample_job\<lparr>JState := Completed\<rparr>) = ''/tmp/j1.log''" by (simp add: sample_job_def)
  have wf: "run_state (WaitForFile stream_os 0 ''/tmp/j1.log'') (mem_streamw ''abc'') = (None, mem_streamw ''abc'')"
    unfolding WaitForFile_def
    by (subst wait_file_round.simps) (simp add: go_run stream_run mem_stat_def mem_streamw_def)
  have "finished_round stream_os mem_stream 0 0 7 (0, mem_streamw ''abc'') =
      Some (Inr (Returned None, mem_streamw ''abc''\<lparr>sw_sent := [''abc'']\<rparr>))"
    by (simp add: finished_round_def stream_run mem_streamw_def chunklenBytes_def Let_def)
  from forever_stops [where body = "finished_round stream_os mem_stream 0 0 7", OF this]
  show ?thesis using wf by (simp add: stream_job_def j Let_def stream_run close_file_def)
qed

theorem stream_sends_prefix_witness:
  "prefix (concat (sw_sent (mem_streamw ''abc''\<lparr>sw_sent := [''abc'']\<rparr>))) ''abc''"
  using stream_sends_prefix [OF mem_file.growing_file_axioms mem_stream_job]
  by (simp add: mem_streamw_def)

section \<open>Streaming a running job\<close>

text \<open>\<open>P\<close> describes worlds in which no watcher holds its lock and the caller is still there.\<close>

definition stays_free :: "'w os \<Rightarrow> 'w notify \<Rightarrow> nat \<Rightarrow> ('w \<Rightarrow> bool) \<Rightarrow> bool" where
  "stays_free os nt ctx P \<longleftrightarrow> (\<forall>w. P w \<longrightarrow>
     (\<exists>w'. run_state (ctx_err_of os ctx) w = (None, w') \<and> P w') \<and>
     (\<exists>w'. Cv_Lock nt w = Some w' \<and> P w') \<and>
     (\<exists>w'. run_state (WatcherLock_TryLock nt) w = (True, w') \<and> P (exec (WatcherLock_Unlock nt) w')) \<and>
     P (exec (Cv_Unlock nt) w))"

lemma running_round_free:
  assumes "stays_free os nt ctx P" and "P w"
  shows "\<exists>w'. running_round os st nt ctx ss fp (pos, None, w) = Some (Inl (pos, None, w')) \<and> P w'"
proof -
  obtain w1 where c: "run_state (ctx_err_of os ctx) w = (None, w1)" "P w1"
    using assms unfolding stays_free_def by blast
  obtain w2 where l: "Cv_Lock nt w1 = Some w2" "P w2"
    using assms(1) c(2) unfolding stays_free_def by blast
  obtain w3 where t: "run_state (WatcherLock_TryLock nt) w2 = (True, w3)" "P (exec (WatcherLock_Unlock nt) w3)"
    using assms(1) l(2) unfolding stays_free_def by blast
  have "wait_data st nt fp pos None w2 = Some ('''', None, exec (WatcherLock_Unlock nt) w3)"
    unfolding wait_data_def by (rule forever_stops) (simp add: wait_data_round_def t)
  moreover have "P (exec (Cv_Unlock nt) (exec (WatcherLock_Unlock nt) w3))"
    using assms(1) t(2) unfolding stays_free_def by blast
  ultimately show ?thesis
    using c(1) l(1) by (simp add: running_round_def Let_def send_chunk_def)
qed

text \<open>
  Fact: streaming a running job spins forever when the watcher's lock is free: the inner loop
  leaves before any read, with no data and no error, so the handler never reads the file, never
  sends and never returns as long as no watcher takes the lock and the caller stays.
\<close>

theorem running_stream_spins:
  assumes "stays_free os nt ctx P" and "\<not> job_ended job"
    and "run_state (WaitForFile os ctx (OutputFilePath job)) w = (None, w1)"
    and "run_state (OpenFile st (OutputFilePath job)) w1 = (Inr fp, w2)" and "P w2"
  shows "stream_job os st nt ctx ss job w = None"
proof -
  have "forever (running_round os st nt ctx ss fp) (0, None, w2) = None"
    by (rule forever_diverges [where P = "\<lambda>(pos, err, w). err = None \<and> P w"])
      (use assms(5) running_round_free [OF assms(1)] in \<open>fastforce+\<close>)
  moreover have "JobState_String (JState job) \<noteq> ''TerminatedByAPI''" "JobState_String (JState job) \<noteq> ''Completed''"
    using JobState_String_ended [of job] assms(2) by simp_all
  ultimately show ?thesis using assms(3,4) by (simp add: stream_job_def Let_def close_file_def)
qed

lemma mem_wait_file:
  "run_state (WaitForFile stream_os c ''/tmp/j1.log'') (mem_streamw data) = (None, mem_streamw data)"
  unfolding WaitForFile_def
  by (subst wait_file_round.simps) (simp add: go_run stream_run mem_stat_def mem_streamw_def)

theorem running_stream_spins_witness:
  "stream_job stream_os mem_stream mem_locks 0 0 sample_job (mem_streamw ''output'') = None"
proof -
  have "stays_free stream_os mem_locks 0 (\<lambda>w. sw_locks w = [])"
    by (simp add: stays_free_def stream_run)
  moreover have "\<not> job_ended sample_job" "OutputFilePath sample_job = ''/tmp/j1.log''"
    by (simp_all add: sample_job_def job_ended_def)
  ultimately show ?thesis
    using running_stream_spins [of stream_os mem_locks 0 "\<lambda>w. sw_locks w = []" sample_job "mem_streamw ''output''"
        "mem_streamw ''output''" mem_stream 7 "mem_streamw ''output''" 0] mem_wait_file [of 0 "''output''"]
    by (simp add: stream_run mem_streamw_def)
qed

text \<open>
  Fact: the last output of a running job can be lost: when a read reaches the end of the file
  with data and the watcher lets its lock go before the handler tries it, the handler reports success
  without sending what it read.
\<close>

theorem final_chunk_lost:
  assumes "run_state (ctx_err_of os ctx) w = (None, w1)" and "Cv_Lock nt w1 = Some w2"
    and "run_state (WatcherLock_TryLock nt) w2 = (False, w3)" and "Cv_Wait nt w3 = Some w4"
    and "run_state (ReadAt st fp 1024 pos) w4 = ((data, Some EOF), w5)" and "data \<noteq> ''''"
    and "run_state (WatcherLock_TryLock nt) (exec (Cv_Unlock nt) w5) = (True, w6)"
  shows "forever (running_round os st nt ctx ss fp) (pos, err, w)
    = Some (Returned None, exec (WatcherLock_Unlock nt) w6)"
proof -
  have "wait_data st nt fp pos err w2 = forever (wait_data_round st nt fp pos) (data, Some EOF, w5)"
    unfolding wait_data_def
    by (rule forever_steps) (simp add: wait_data_round_def chunklenBytes_def assms(3-5))
  also have "\<dots> = Some (data, Some EOF, w5)"
    by (rule forever_stops) (simp add: wait_data_round_def assms(6))
  finally have "running_round os st nt ctx ss fp (pos, err, w) = Some (Inr (Returned None, exec (WatcherLock_Unlock nt) w6))"
    using assms(1,2,7) by (simp add: running_round_def Let_def)
  then show ?thesis by (rule forever_stops)
qed

theorem final_chunk_lost_witness:
  "\<exists>w'. forever (running_round stream_os mem_stream mem_locks 0 0 7)
      (0, None, mem_streamw ''''\<lparr>sw_locks := [False], sw_writes := [''output'']\<rparr>) = Some (Returned None, w') \<and>
    sw_file w' = ''output'' \<and> sw_sent w' = []"
  using final_chunk_lost [where os = stream_os and st = mem_stream and nt = mem_locks and ctx = 0 and ss = 0
      and fp = 7 and pos = 0 and err = None and data = "''output''"
      and w = "mem_streamw ''''\<lparr>sw_locks := [False], sw_writes := [''output'']\<rparr>"]
  by (simp add: stream_run mem_streamw_def)

section \<open>The unary handlers\<close>

lemma server_os_unicode [simp]: "os_unicode (server_os os) = os_unicode os"
  by (simp add: server_os_def lift_os_def)

lemma with_client_admitted:
  assumes "unicode_ok (os_unicode os)" and "admits os ctx0 ctx"
  shows "\<exists>nm role. known_client (os_unicode os) nm role \<and> ClientInfoFromContext (os_unicode os) ctx = Returned (Inr (nm, role)) \<and>
    with_client os ctx ret k w =
      (case run_state (ctx_err_of os (ctx_id ctx)) w of
         (Some e, w) \<Rightarrow> Some (Returned (ret (StatusErr Aborted (ctx_text e))), w)
       | (None, w) \<Rightarrow> k nm role w)"
  using lawful_unicode.admitted_info [OF lawful_unicode.intro [OF assms(1)] assms(2)]
  by (auto simp: with_client_def)

lemma with_client_returned:
  assumes "with_client os ctx ret k w = Some (Returned r, w')"
  shows "(\<exists>e. r = ret e \<and> (\<exists>c t. e = StatusErr c t \<and> c \<in> {PermissionDenied, Aborted})) \<or>
    (\<exists>nm role w1. ClientInfoFromContext (os_unicode os) ctx = Returned (Inr (nm, role)) \<and>
       run_state (ctx_err_of os (ctx_id ctx)) w = (None, w1) \<and> k nm role w1 = Some (Returned r, w'))"
  using assms by (auto simp: with_client_def split: call.splits sum.splits prod.splits option.splits)

lemma server_ctx_world:
  "run_state (ctx_err_of (server_os os) c) s = (x, s') \<Longrightarrow> s_lib s' = s_lib s \<and> s_goroutines s' = s_goroutines s"
  by (auto simp: server_os_def lift_os_def run_lift_st split: prod.splits)

lemma rpc_Status_job:
  assumes "rpc_Status os ctx inp s = Some (Returned (Inr reply), s')"
  shows "\<exists>nm role job. ClientInfoFromContext (os_unicode os) ctx = Returned (Inr (nm, role)) \<and>
    may_access (s_lib s) nm (GetJobID (GetJobIDRequest inp)) (is_admin os role) job \<and>
    reply = job_response (GetJobIDRequest inp) job \<and> s_lib s' = s_lib s"
proof -
  obtain nm role s1 where c: "ClientInfoFromContext (os_unicode os) ctx = Returned (Inr (nm, role))"
    and s1: "run_state (ctx_err_of (server_os os) (ctx_id ctx)) s = (None, s1)"
    and q: "(case run_state (Status os (s_lib s1) (ctx_id ctx) nm (GetJobID (GetJobIDRequest inp)) (is_admin os role)) (s_world s1) of
       (Inl err, w) \<Rightarrow> Some (Returned (Inl (internal_error os err)), s1\<lparr>s_world := w\<rparr>)
     | (Inr job, w) \<Rightarrow> Some (Returned (Inr (job_response (GetJobIDRequest inp) job)), s1\<lparr>s_world := w\<rparr>))
     = Some (Returned (Inr reply), s')"
    using with_client_returned [OF assms [unfolded rpc_Status_def]] by (auto simp: Let_def)
  obtain job w where run: "run_state (Status os (s_lib s1) (ctx_id ctx) nm (GetJobID (GetJobIDRequest inp)) (is_admin os role)) (s_world s1)
      = (Inr job, w)" and r: "reply = job_response (GetJobIDRequest inp) job" "s' = s1\<lparr>s_world := w\<rparr>"
    using q by (auto split: prod.splits sum.splits)
  from status.access [OF run] c r server_ctx_world [OF s1] show ?thesis by auto
qed

definition sample_server :: "memw server" where
  "sample_server = \<lparr>s_lib = sample_lib, s_world = mem_super, s_goroutines = []\<rparr>"

lemma server_mem_run:
  "run_state (ctx_err_of (server_os mem_os) c) s = (None, s)"
  by (simp add: server_os_def lift_os_def run_lift_st mem_os_run)

lemma sample_info:
  "ClientInfoFromContext (os_unicode mem_os) (sample_admitted ''client1'' User) = Returned (Inr (''client1'', User))"
  unfolding sample_admitted_def
  by (rule info_of_values) (simp_all add: known_client_def IsClientAuthorized_True, code_simp)

text \<open>An answer: the handler returned, and if it returned an error that is a gRPC status.\<close>

definition answers :: "((goerr + 'a) call \<times> 'w) option \<Rightarrow> bool" where
  "answers x \<longleftrightarrow> (\<exists>r s. x = Some (Returned r, s) \<and>
     (\<forall>e. r = Inl e \<longrightarrow> (\<exists>c t. e = StatusErr c t \<and> c \<in> {Aborted, Internal})))"

lemma answers_simps [simp]:
  "answers (Some (Returned (Inr x), s))" "answers (Some (Returned (Inl (StatusErr Aborted t)), s))"
  "answers (Some (Returned (Inl (internal_error os e)), s))" "\<not> answers None" "\<not> answers (Some (Panicked, s))"
  by (simp_all add: answers_def internal_error_def)

lemma with_client_holds:
  assumes "unicode_ok (os_unicode os)" and "admits os ctx0 ctx"
    and "\<And>t w. P (Some (Returned (ret (StatusErr Aborted t)), w))" and "\<And>nm role w. P (k nm role w)"
  shows "P (with_client os ctx ret k w)"
proof -
  obtain nm role where "with_client os ctx ret k w =
      (case run_state (ctx_err_of os (ctx_id ctx)) w of
         (Some e, w) \<Rightarrow> Some (Returned (ret (StatusErr Aborted (ctx_text e))), w)
       | (None, w) \<Rightarrow> k nm role w)"
    using with_client_admitted [OF assms(1,2), of ret k w] by blast
  then show ?thesis using assms(3,4) by (auto split: prod.split option.split)
qed

text \<open>
  Property C29: on a context the interceptor admitted no unary handler panics; \<open>Start\<close> and \<open>Status\<close>
  always return, and every error they or \<open>Stop\<close> return is a gRPC status with code Aborted or
  Internal.
\<close>

theorem handlers_answer:
  assumes "unicode_ok (os_unicode os)" and "admits (server_os os) ctx0 ctx"
  shows "answers (rpc_Start os ctx req s) \<and> answers (rpc_Status os ctx inp s) \<and>
    (rpc_Stop os ctx inp s = None \<or> answers (rpc_Stop os ctx inp s))"
proof (intro conjI)
  have u: "unicode_ok (os_unicode (server_os os))" using assms(1) by simp
  note holds = with_client_holds [OF u assms(2)]
  show "answers (rpc_Start os ctx req s)" unfolding rpc_Start_def
    by (rule holds) (auto simp: Let_def split: prod.split sum.split)
  show "answers (rpc_Status os ctx inp s)" unfolding rpc_Status_def
    by (rule holds) (auto simp: Let_def split: prod.split sum.split)
  show "rpc_Stop os ctx inp s = None \<or> answers (rpc_Stop os ctx inp s)" unfolding rpc_Stop_def
    by (rule holds [where P = "\<lambda>x. x = None \<or> answers x"])
      (auto simp: Let_def split: prod.split sum.split option.split)
qed

lemma sample_validated_server:
  "run_state (validateClient (server_os mem_os) (sample_ctx ''client1'')) s = (Inr (sample_admitted ''client1'' User), s)"
proof -
  have "ValidateClientFromTLSInfo (os_unicode mem_os) [sample_cert ''client1''] = Inr (''client1'', User)"
    by code_simp
  then show ?thesis
    by (simp add: validateClient_def go_run server_mem_run sample_ctx_def sample_admitted_def)
qed

lemma sample_admits: "admits (server_os mem_os) (sample_ctx ''client1'') (sample_admitted ''client1'' User)"
  by (rule admitsI [OF sample_validated_server [of sample_server]])

theorem handlers_answer_witness:
  "answers (rpc_Start mem_os (sample_admitted ''client1'' User) (Some \<lparr>f_Command = ''ls'', f_Args = []\<rparr>) sample_server)"
  using handlers_answer [OF mem_unicode_ok sample_admits] by blast

end
