(* ===== verification/Server.thy ===== *)
theory Server
  imports ServerImpl
begin

text \<open>
  \<open>api/server/server.go\<close>, \<open>cmd/server/main.go\<close> and the server half of \<open>jobs_grpc.pb.go\<close>: how a server is
  put together, which code a request passes through, and how the process starts and ends.

  Loading keys, listening and serving are done by the TLS and gRPC packages: they are the parameters
  \<open>tls_ops\<close> and \<open>net_ops\<close>.  The gRPC server calls the generated handler of a method with the
  interceptor it was configured with; a stream goes through the stream interceptor first.
\<close>

section \<open>Generated handlers\<close>

type_synonym ('w, 'req, 'resp) rpc_method = "request_ctx \<Rightarrow> 'req \<Rightarrow> ('w, goerr + 'resp) proc"

type_synonym ('w, 'req, 'resp) unary_interceptor =
  "request_ctx \<Rightarrow> 'req \<Rightarrow> ('w, 'req, 'resp) rpc_method \<Rightarrow> ('w, goerr + 'resp) proc"

definition unary_handler ::
  "('w, 'm option, 'resp) rpc_method \<Rightarrow> request_ctx \<Rightarrow> ('w, goerr + 'm) state
     \<Rightarrow> ('w, 'm option, 'resp) unary_interceptor option \<Rightarrow> ('w, goerr + 'resp) proc" where
  "unary_handler method ctx dec interceptor w =
     (case run_state dec w of
        (Inl err, w) \<Rightarrow> Some (Returned (Inl err), w)
      | (Inr m, w) \<Rightarrow>
          (case interceptor of
             None \<Rightarrow> method ctx (Some m) w
           | Some intercept \<Rightarrow> intercept ctx (Some m) (\<lambda>ctx req. method ctx req) w))"

definition JobService_Start_Handler where
  "JobService_Start_Handler os = unary_handler (rpc_Start os)"

definition JobService_Stop_Handler where
  "JobService_Stop_Handler os = unary_handler (rpc_Stop os)"

definition JobService_Status_Handler where
  "JobService_Status_Handler os = unary_handler (rpc_Status os)"

definition JobService_StreamOutput_Handler ::
  "'w os \<Rightarrow> 'w stream_ops \<Rightarrow> 'w notify \<Rightarrow> JobsLib \<Rightarrow> ('w, goerr + JobIDRequest) state \<Rightarrow> wrappedStream
     \<Rightarrow> ('w, goerr option) proc" where
  "JobService_StreamOutput_Handler os st nt j RecvMsg stream w =
     (case run_state RecvMsg w of
        (Inl err, w) \<Rightarrow> Some (Returned (Some err), w)
      | (Inr m, w) \<Rightarrow> rpc_StreamOutput os st nt j (Some m) stream w)"

section \<open>Configuration\<close>

record ServerConfig =
  ServerPort :: string
  ServerCertKeyFile :: string
  ServerCertFile :: string
  ClientCAFile :: string
  JobOutputDirPath :: string
  IODeviceID :: string

datatype ClientAuthType = NoClientCert | RequestClientCert | RequireAnyClientCert
  | VerifyClientCertIfGiven | RequireAndVerifyClientCert

record 'c tls_config =
  Certificates :: "'c list"
  ClientAuth :: ClientAuthType
  ClientCAs :: "string option"   \<comment> \<open>the PEM data of the pool\<close>
  RootCAs :: "string option"
  MinVersion :: nat
  MaxVersion :: nat

definition VersionTLS13 :: nat where "VersionTLS13 = 772"

record ('w, 'c) tls_ops =
  LoadX509KeyPair :: "string \<Rightarrow> string \<Rightarrow> ('w, goerr + 'c) state"
  ReadFile :: "string \<Rightarrow> ('w, goerr + string) state"
  AppendCertsFromPEM :: "string \<Rightarrow> bool"

definition loadTLSConfigForServer ::
  "('w, 'c) tls_ops \<Rightarrow> ServerConfig \<Rightarrow> ('w, goerr + 'c tls_config) state" where
  "loadTLSConfigForServer tls sc =
     unless_err (LoadX509KeyPair tls (ServerCertFile sc) (ServerCertKeyFile sc))
       (\<lambda>err. State_Monad.return (Inl (Errorf ''failed loading server certificate: %w'' [] [err])))
     (\<lambda>certificate. unless_err (ReadFile tls (ClientCAFile sc))
       (\<lambda>err. State_Monad.return (Inl (Errorf ''failed reading Client CA certificate: %w'' [] [err])))
     (\<lambda>ccaData. State_Monad.return
        (if \<not> AppendCertsFromPEM tls ccaData
         then Inl (New ''unable to append client CA certificate(s) to the client CA pool'')
         else Inr \<lparr>Certificates = [certificate], ClientAuth = RequireAndVerifyClientCert,
                ClientCAs = Some ccaData, RootCAs = None,
                MinVersion = VersionTLS13, MaxVersion = VersionTLS13\<rparr>)))"

text \<open>The options the gRPC server is created with, and the service registered on it.\<close>

datatype unary_option = ValidateClientUnary
datatype stream_option = ValidateClientStream

record 'c grpc_server =
  gs_unary :: "unary_option option"
  gs_stream :: "stream_option option"
  gs_creds :: "'c tls_config"
  gs_lib :: JobsLib

definition NewServer ::
  "'w os \<Rightarrow> ('w, 'c) tls_ops \<Rightarrow> string list \<Rightarrow> ServerConfig \<Rightarrow> ('w, goerr + 'c grpc_server) state" where
  "NewServer os tls ks sc =
     (if IODeviceID sc = '''' then State_Monad.return (Inl (New ''config field IODeviceID is empty''))
      else unless_err (CreateJobsLib os (GetAuthorizedClientNames ks) (JobOutputDirPath sc) (IODeviceID sc))
        (\<lambda>err. State_Monad.return (Inl (Errorf ''error instantiating jobmaster jobs library: %w'' [] [err])))
      (\<lambda>jl. unless_err (loadTLSConfigForServer tls sc)
        (\<lambda>err. State_Monad.return (Inl (Errorf ''error creating server TLS config: %w'' [] [err])))
      (\<lambda>tlsConfig. State_Monad.return (Inr
         \<lparr>gs_unary = Some ValidateClientUnary, gs_stream = Some ValidateClientStream,
          gs_creds = tlsConfig, gs_lib = jl\<rparr>))))"

text \<open>What the options stand for.\<close>

definition unary_of :: "'w os \<Rightarrow> 'c grpc_server \<Rightarrow> ('w server, 'm option, 'resp) unary_interceptor option" where
  "unary_of os gs = (case gs_unary gs of
     None \<Rightarrow> None
   | Some ValidateClientUnary \<Rightarrow> Some (validateClientUnaryInterceptor (server_os os)))"

definition serve_stream ::
  "'w os \<Rightarrow> 'w stream_ops \<Rightarrow> 'w notify \<Rightarrow> 'c grpc_server \<Rightarrow> JobsLib \<Rightarrow> ('w, goerr + JobIDRequest) state \<Rightarrow> server_stream
     \<Rightarrow> ('w, goerr option) proc" where
  "serve_stream os st nt gs j RecvMsg ss =
     (let handler = JobService_StreamOutput_Handler os st nt j RecvMsg in
      case gs_stream gs of
        None \<Rightarrow> handler (WrappedStream ss (ss_ctx ss))
      | Some ValidateClientStream \<Rightarrow> validateClientStreamInterceptor os ss handler)"

section \<open>Running\<close>

record 'w net_ops =
  Listen :: "string \<Rightarrow> ('w, goerr + int) state"
  Serve :: "int \<Rightarrow> ('w, goerr option) state"
  listener_Close :: "int \<Rightarrow> ('w, unit) state"
  done_first :: "('w, bool) state"     \<comment> \<open>does the context end before the goroutine reports?\<close>
  GracefulStop :: "('w, unit) state"

definition serve_goroutine :: "'w net_ops \<Rightarrow> string \<Rightarrow> ('w, goerr option) state" where
  "serve_goroutine net serverPort =
     unless_err (Listen net serverPort)
       (\<lambda>err. State_Monad.return (Some err))
       (\<lambda>listener. iferr (Serve net listener)
          (\<lambda>err. do { _ \<leftarrow> listener_Close net listener; State_Monad.return (Some err) })
          (State_Monad.return None))"

definition Run ::
  "'w os \<Rightarrow> ('w, 'c) tls_ops \<Rightarrow> 'w net_ops \<Rightarrow> string list \<Rightarrow> string list \<Rightarrow> ServerConfig \<Rightarrow> ('w, goerr option) state" where
  "Run os tls net ks ks' sc =
     unless_err (NewServer os tls ks sc)
       (\<lambda>err. State_Monad.return (Some err))
     (\<lambda>s. do {
        let serverPort = '':'' @ ServerPort sc;
        done \<leftarrow> done_first net;
        err \<leftarrow> (if done then State_Monad.return None else serve_goroutine net serverPort);
        _ \<leftarrow> GracefulStop net;
        err \<leftarrow> TeardownJobmasterCgroups os (GetAuthorizedClientNames ks');
        State_Monad.return err
      })"

datatype process_end = Fatal string | Exited0

definition server_main ::
  "'w os \<Rightarrow> ('w, 'c) tls_ops \<Rightarrow> 'w net_ops \<Rightarrow> string list \<Rightarrow> string list \<Rightarrow> (string \<Rightarrow> goerr + string)
     \<Rightarrow> string \<Rightarrow> string \<Rightarrow> ('w, process_end) state" where
  "server_main os tls net ks ks' filepath_Abs outDir ioDevID =
     (if ioDevID = ''''
      then State_Monad.return (Fatal ''Require IO device identifier in <MAJ>:<MIN> format'')
      else
        (case filepath_Abs ''../../certs'' of
           Inl err \<Rightarrow> State_Monad.return
             (Fatal (''Failed to get absolute path to certs dir: '' @ error_text (os_unicode os) err))
         | Inr certsDir \<Rightarrow> do {
             err \<leftarrow> Run os tls net ks ks'
               \<lparr>ServerPort = ''6443'',
                ServerCertKeyFile = filepath_Join [certsDir, ''server1_key.pem''],
                ServerCertFile = filepath_Join [certsDir, ''server1_cert.pem''],
                ClientCAFile = filepath_Join [certsDir, ''client_ca_cert.pem''],
                JobOutputDirPath = outDir,
                IODeviceID = ioDevID\<rparr>;
             State_Monad.return Exited0
           }))"

section \<open>Properties\<close>

lemma NewServer_options:
  assumes "run_state (NewServer os tls ks sc) w = (Inr gs, w')"
  shows "gs_unary gs = Some ValidateClientUnary" "gs_stream gs = Some ValidateClientStream"
  using assms by (auto simp: NewServer_def go_run split: go_split)

text \<open>
  Fact: a server that \<open>NewServer\<close> returns is closed to strangers: both interceptors are
  installed, TLS demands a client certificate verified against the configured CA and admits version
  1.3 only; its library is new and was set up for all authorized clients.
\<close>

theorem NewServer_secures:
  assumes "run_state (NewServer os tls ks sc) w = (Inr gs, w')"
  shows "gs_unary gs = Some ValidateClientUnary \<and> gs_stream gs = Some ValidateClientStream \<and>
    ClientAuth (gs_creds gs) = RequireAndVerifyClientCert \<and>
    MinVersion (gs_creds gs) = VersionTLS13 \<and> MaxVersion (gs_creds gs) = VersionTLS13 \<and>
    (\<exists>pem. ClientCAs (gs_creds gs) = Some pem \<and> AppendCertsFromPEM tls pem) \<and>
    jobs (gs_lib gs) = Map.empty \<and> heap (gs_lib gs) = [] \<and> clientList (gs_lib gs) = ks \<and>
    ioDevMajorMinor (gs_lib gs) = IODeviceID sc \<and> validateIODeviceNumber (IODeviceID sc)"
  using assms
  by (auto simp: NewServer_def loadTLSConfigForServer_def CreateJobsLib_def Let_def go_run split: go_split)

definition mem_tls :: "(memw, nat) tls_ops" where
  "mem_tls = \<lparr>LoadX509KeyPair = (\<lambda>c k. State_Monad.return (if HasSuffix c ''.pem'' then Inr 1 else Inl (External ''no key''))),
     ReadFile = (\<lambda>p. State_Monad.return (Inr ''CA'')), AppendCertsFromPEM = (\<lambda>d. d = ''CA'')\<rparr>"

definition mem_config :: "string \<Rightarrow> ServerConfig" where
  "mem_config cert = \<lparr>ServerPort = ''6443'', ServerCertKeyFile = ''key.pem'', ServerCertFile = cert,
     ClientCAFile = ''ca.pem'', JobOutputDirPath = ''/tmp'', IODeviceID = ''8:0''\<rparr>"

definition mem_new_server :: "(goerr + nat grpc_server) \<times> memw" where
  "mem_new_server = run_state (NewServer mem_os mem_tls [''client1''] (mem_config ''cert.pem'')) mem_boot"

lemma mem_new_server: "\<exists>gs. mem_new_server = (Inr gs, snd mem_new_server)"
proof -
  have "map_sum (\<lambda>e. ()) (\<lambda>gs. ()) (fst mem_new_server) = Inr ()" unfolding mem_new_server_def by code_simp
  then obtain gs where "fst mem_new_server = Inr gs" by (cases "fst mem_new_server") auto
  then show ?thesis by (metis prod.collapse)
qed

theorem NewServer_secures_witness:
  "\<exists>gs. mem_new_server = (Inr gs, snd mem_new_server) \<and> ClientAuth (gs_creds gs) = RequireAndVerifyClientCert"
proof -
  obtain gs where gs: "mem_new_server = (Inr gs, snd mem_new_server)" using mem_new_server by blast
  with NewServer_secures [OF gs [unfolded mem_new_server_def]] show ?thesis by blast
qed

text \<open>
  Fact: when the TLS configuration cannot be loaded \<open>NewServer\<close> fails without undoing what
  it did before: the cgroup directories of all clients are left on the machine.
\<close>

theorem NewServer_failure_leaves_cgroups:
  assumes "file_kernel os D F" and "\<forall>c \<in> set ks. plain_name c"
    and "\<And>u r v. run_state (loadTLSConfigForServer tls sc) u = (r, v) \<Longrightarrow> D v = D u"
    and "run_state (NewServer os tls ks sc) w = (Inl (Errorf ''error creating server TLS config: %w'' [] es), w')"
  shows "ks \<noteq> [] \<and> (\<forall>c \<in> set ks. client_dir c \<in> D w')"
proof -
  obtain jl u e where c: "run_state (CreateJobsLib os ks (JobOutputDirPath sc) (IODeviceID sc)) w = (Inr jl, u)"
    and t: "run_state (loadTLSConfigForServer tls sc) u = (Inl e, w')"
    using assms(4) by (auto simp: NewServer_def go_run split: go_split)
  have "run_state (setupJobmasterCgroups os ks) w = (None, u)" and "ks \<noteq> []"
    using c by (auto simp: CreateJobsLib_def Let_def go_run split: go_split)
  then have "\<forall>c \<in> set ks. client_dir c \<in> D u"
    using file_kernel.setup_ok [OF assms(1) _ assms(2)] by blast
  with assms(3) [OF t] \<open>ks \<noteq> []\<close> show ?thesis by simp
qed

theorem NewServer_failure_leaves_cgroups_witness:
  "client_dir ''client1'' \<in> set (m_dirs (snd (run_state (NewServer mem_os mem_tls [''client1''] (mem_config ''cert.txt'')) mem_boot)))"
proof -
  let ?r = "run_state (NewServer mem_os mem_tls [''client1''] (mem_config ''cert.txt'')) mem_boot"
  have "map_sum (\<lambda>e. e = Errorf ''error creating server TLS config: %w'' []
      [Errorf ''failed loading server certificate: %w'' [] [External ''no key'']]) (\<lambda>gs. ()) (fst ?r) = Inl True"
    by code_simp
  then have "fst ?r = Inl (Errorf ''error creating server TLS config: %w'' []
      [Errorf ''failed loading server certificate: %w'' [] [External ''no key'']])"
    by (cases "fst ?r") auto
  then have r: "?r = (Inl (Errorf ''error creating server TLS config: %w'' []
      [Errorf ''failed loading server certificate: %w'' [] [External ''no key'']]), snd ?r)"
    by (metis prod.collapse)
  have p: "\<forall>c \<in> set [''client1'']. plain_name c" by (simp add: plain_name_def)
  have "set (m_dirs v) = set (m_dirs u)"
    if "run_state (loadTLSConfigForServer mem_tls (mem_config ''cert.txt'')) u = (x, v)" for u x v
    using that by (auto simp: loadTLSConfigForServer_def mem_tls_def go_run split: go_split)
  from NewServer_failure_leaves_cgroups [OF mem.file_kernel_axioms p this r] show ?thesis by simp
qed

text \<open>
  Fact: the error \<open>Run\<close> reports for a server that was created is the teardown's alone: an
  error of listening or serving is overwritten, so when the cgroups can be removed \<open>Run\<close> reports
  success, and the process exits with status 0 either way.
\<close>

theorem Run_loses_serve_error:
  assumes "run_state (NewServer os tls ks sc) w = (Inr gs, w1)"
  shows "\<exists>w2. run_state (Run os tls net ks ks' sc) w
      = run_state (TeardownJobmasterCgroups os (GetAuthorizedClientNames ks')) w2 \<and>
    (\<forall>w3 serveErr w4 u. run_state (done_first net) w1 = (False, w3) \<and>
       run_state (serve_goroutine net ('':'' @ ServerPort sc)) w3 = (Some serveErr, w4) \<and>
       run_state (GracefulStop net) w4 = ((), u) \<longrightarrow> u = w2)"
proof -
  obtain b w3 where d: "run_state (done_first net) w1 = (b, w3)" by fastforce
  obtain e w4 where s: "run_state (serve_goroutine net ('':'' @ ServerPort sc)) w3 = (e, w4)" by fastforce
  obtain w5 where g: "run_state (GracefulStop net) (if b then w3 else w4) = ((), w5)"
    by (cases "run_state (GracefulStop net) (if b then w3 else w4)") auto
  have "run_state (Run os tls net ks ks' sc) w
      = run_state (TeardownJobmasterCgroups os (GetAuthorizedClientNames ks')) w5"
    using assms d s g by (cases b) (simp_all add: Run_def go_run split: prod.split)
  with d s g show ?thesis by (intro exI [of _ w5]) auto
qed

definition mem_net :: "memw net_ops" where
  "mem_net = \<lparr>Listen = (\<lambda>p. State_Monad.return (Inl (External ''address already in use''))),
     Serve = (\<lambda>l. State_Monad.return None), listener_Close = (\<lambda>l. State_Monad.return ()),
     done_first = State_Monad.return False, GracefulStop = State_Monad.return ()\<rparr>"

theorem Run_loses_serve_error_witness:
  "fst (run_state (Run mem_os mem_tls mem_net [''client1''] [''client1''] (mem_config ''cert.pem'')) mem_boot) = None"
proof -
  obtain gs where gs: "mem_new_server = (Inr gs, snd mem_new_server)" using mem_new_server by blast
  have d: "run_state (done_first mem_net) w = (False, w)" "run_state (GracefulStop mem_net) w = ((), w)"
    "run_state (serve_goroutine mem_net p) w = (Some (External ''address already in use''), w)" for w p
    by (simp_all add: mem_net_def serve_goroutine_def go_run)
  have "run_state (Run mem_os mem_tls mem_net [''client1''] [''client1''] (mem_config ''cert.pem'')) mem_boot
      = run_state (TeardownJobmasterCgroups mem_os [''client1'']) (snd mem_new_server)"
    using Run_loses_serve_error [OF gs [unfolded mem_new_server_def], of mem_net "[''client1'']", folded mem_new_server_def] d
    by auto
  moreover have "fst (run_state (TeardownJobmasterCgroups mem_os [''client1'']) (snd mem_new_server)) = None"
    unfolding mem_new_server_def by code_simp
  ultimately show ?thesis by simp
qed

lemma Run_ok_teardown:
  assumes "run_state (Run os tls net ks ks' sc) w = (None, w')"
  obtains u where "run_state (TeardownJobmasterCgroups os ks') u = (None, w')"
  using assms by (auto simp: Run_def go_run split: go_split if_splits)

text \<open>
  Property C33: a run of the server that ends without an error leaves no cgroup behind.  Whatever happened
  while it served, the directory of every client that is authorized, in whatever case the name is
  written, is gone, and so is the parent directory, whatever the order in which the map of clients is
  visited.
\<close>

theorem Run_removes_cgroups:
  assumes "dir_kernel os D" and "map_order GetAuthorizedClientsWithRoles ks'"
    and "run_state (Run os tls net ks ks' sc) w = (None, w')"
  shows "parent_dir \<notin> D w' \<and> (\<forall>c. fst (IsClientAuthorized u c) \<longrightarrow> client_dir (ToLower u c) \<notin> D w')"
proof -
  have ks: "set ks' = {''client1'', ''client2'', ''client3'', ''superuser''}"
    using assms(2) by (auto simp: map_order_def GetAuthorizedClientsWithRoles_def authorizedClients_def)
  obtain v where "run_state (TeardownJobmasterCgroups os ks') v = (None, w')"
    by (rule Run_ok_teardown [OF assms(3)])
  moreover have "\<forall>c \<in> set ks'. plain_name c" by (simp add: ks plain_name_def)
  ultimately have "parent_dir \<notin> D w' \<and> (\<forall>c \<in> set ks'. client_dir c \<notin> D w')"
    using dir_kernel.TeardownJobmasterCgroups_removes [OF assms(1)] by blast
  then show ?thesis by (auto simp: ks IsClientAuthorized_fst authorizedClients_def split: if_splits)
qed

definition mem_run :: "goerr option \<times> memw" where
  "mem_run = (let ks = [''superuser'', ''client1'', ''client2'', ''client3''] in
     run_state (Run mem_os mem_tls mem_net ks ks (mem_config ''cert.pem'')) mem_boot)"

theorem Run_removes_cgroups_witness:
  "fst mem_run = None \<and> client_dir ''client1'' \<notin> set (m_dirs (snd mem_run))"
proof -
  have e: "fst mem_run = None" by code_simp
  then have r: "run_state (Run mem_os mem_tls mem_net [''superuser'', ''client1'', ''client2'', ''client3'']
      [''superuser'', ''client1'', ''client2'', ''client3''] (mem_config ''cert.pem'')) mem_boot = (None, snd mem_run)"
    unfolding mem_run_def Let_def by (metis prod.collapse)
  have o: "map_order GetAuthorizedClientsWithRoles [''superuser'', ''client1'', ''client2'', ''client3'']"
    by (auto simp: map_order_def GetAuthorizedClientsWithRoles_def authorizedClients_def)
  have "fst (IsClientAuthorized mem_unicode ''client1'')" and "ToLower mem_unicode ''client1'' = ''client1''"
    by code_simp+
  with Run_removes_cgroups [OF mem.dir_kernel_axioms o r, of mem_unicode] e show ?thesis by metis
qed

end
