(* ===== verification/Client.thy ===== *)
theory Client
  imports Server
begin

text \<open>
  \<open>api/client/client.go\<close>, \<open>api/client/client_impl.go\<close>, \<open>cmd/client/main.go\<close> and the client half of
  \<open>jobs_grpc.pb.go\<close>: building a connection, the four calls with what they print, the command line
  and the usage text.

  The connection and the terminal are parameters: \<open>conn\<close> carries a call to the server, \<open>terminal\<close>
  prints and renders a message and a time the way \<open>%v\<close> does.  Receiving from a stream may block
  forever.
\<close>

section \<open>Stubs\<close>

definition JobService_Start_FullMethodName :: string where
  "JobService_Start_FullMethodName = ''/jobmaster.jobs.v1.JobService/Start''"
definition JobService_Stop_FullMethodName :: string where
  "JobService_Stop_FullMethodName = ''/jobmaster.jobs.v1.JobService/Stop''"
definition JobService_Status_FullMethodName :: string where
  "JobService_Status_FullMethodName = ''/jobmaster.jobs.v1.JobService/Status''"
definition JobService_StreamOutput_FullMethodName :: string where
  "JobService_StreamOutput_FullMethodName = ''/jobmaster.jobs.v1.JobService/StreamOutput''"

record 'w conn =
  Invoke_create :: "string \<Rightarrow> JobCreateRequest \<Rightarrow> ('w, goerr + JobID) state"
  Invoke_id :: "string \<Rightarrow> JobIDRequest \<Rightarrow> ('w, goerr + JobResponse) state"
  NewStream :: "string \<Rightarrow> ('w, goerr + int) state"
  SendMsg :: "int \<Rightarrow> JobIDRequest \<Rightarrow> ('w, goerr option) state"
  CloseSend :: "int \<Rightarrow> ('w, goerr option) state"
  RecvMsg :: "int \<Rightarrow> 'w \<Rightarrow> ((goerr + JobOutputResponse) \<times> 'w) option"
  conn_Close :: "('w, unit) state"

definition stub_Start :: "'w conn \<Rightarrow> JobCreateRequest \<Rightarrow> ('w, goerr + JobID) state" where
  "stub_Start cc inp = unless_err (Invoke_create cc JobService_Start_FullMethodName inp)
     (\<lambda>err. State_Monad.return (Inl err)) (\<lambda>out. State_Monad.return (Inr out))"

definition stub_Stop :: "'w conn \<Rightarrow> JobIDRequest \<Rightarrow> ('w, goerr + JobResponse) state" where
  "stub_Stop cc inp = unless_err (Invoke_id cc JobService_Stop_FullMethodName inp)
     (\<lambda>err. State_Monad.return (Inl err)) (\<lambda>out. State_Monad.return (Inr out))"

definition stub_Status :: "'w conn \<Rightarrow> JobIDRequest \<Rightarrow> ('w, goerr + JobResponse) state" where
  "stub_Status cc inp = unless_err (Invoke_id cc JobService_Status_FullMethodName inp)
     (\<lambda>err. State_Monad.return (Inl err)) (\<lambda>out. State_Monad.return (Inr out))"

definition stub_StreamOutput :: "'w conn \<Rightarrow> JobIDRequest \<Rightarrow> ('w, goerr + int) state" where
  "stub_StreamOutput cc inp = unless_err (NewStream cc JobService_StreamOutput_FullMethodName)
     (\<lambda>err. State_Monad.return (Inl err))
     (\<lambda>stream. iferr (SendMsg cc stream inp)
        (\<lambda>err. State_Monad.return (Inl err))
        (iferr (CloseSend cc stream)
           (\<lambda>err. State_Monad.return (Inl err))
           (State_Monad.return (Inr stream))))"

definition stream_Recv :: "'w conn \<Rightarrow> int \<Rightarrow> 'w \<Rightarrow> ((goerr + JobOutputResponse) \<times> 'w) option" where
  "stream_Recv cc stream w =
     (case RecvMsg cc stream w of
        None \<Rightarrow> None
      | Some (Inl err, w) \<Rightarrow> Some (Inl err, w)
      | Some (Inr m, w) \<Rightarrow> Some (Inr m, w))"

lemma stream_Recv_eq [simp]: "stream_Recv cc stream w = RecvMsg cc stream w"
  by (simp add: stream_Recv_def split: option.split prod.split sum.split)

section \<open>Calls\<close>

record 'w terminal =
  Print :: "string \<Rightarrow> ('w, unit) state"
  show_cmd :: "JobCreateRequest option \<Rightarrow> string"
  show_time :: "Timestamp option \<Rightarrow> string"

definition newline :: string where "newline = [CHR 0x0A]"

definition Println :: "'w terminal \<Rightarrow> string \<Rightarrow> ('w, unit) state" where
  "Println tm s = Print tm (s @ newline)"

definition client_Start :: "'w terminal \<Rightarrow> 'w conn \<Rightarrow> string \<Rightarrow> string list \<Rightarrow> ('w, goerr option) state" where
  "client_Start tm cc command cmdArgs =
     (if command = '''' then State_Monad.return (Some (New ''no command given for Start RPC''))
      else unless_err (stub_Start cc \<lparr>f_Command = command, f_Args = cmdArgs\<rparr>)
        (\<lambda>err. State_Monad.return (Some err))
        (\<lambda>resp. do { _ \<leftarrow> Println tm (GetJobID (Some resp)); State_Monad.return None }))"

definition id_request :: "string \<Rightarrow> JobIDRequest" where
  "id_request jobID = \<lparr>f_JobIDRequest = Some \<lparr>f_JobID = jobID\<rparr>\<rparr>"

definition response_line :: "'w terminal \<Rightarrow> JobResponse option \<Rightarrow> string" where
  "response_line tm resp =
     ''id='' @ GetJobID (GetJobIDResponse resp) @ '',jobMsg='' @ GetJobMsg resp @
     '',client='' @ GetClient resp @ '',pid='' @ Itoa (sint (GetPid resp)) @
     '',state='' @ Itoa (sint (GetState resp)) @ '',exitCode='' @ Itoa (sint (GetExitCode resp)) @
     '',signalstr='' @ GetSignalStr resp @ '',cmd='' @ show_cmd tm (GetCmd resp) @
     '',started='' @ show_time tm (GetStarted resp) @ '',ended='' @ show_time tm (GetEnded resp) @ newline"

definition client_Stop :: "'w terminal \<Rightarrow> 'w conn \<Rightarrow> string \<Rightarrow> ('w, goerr option) state" where
  "client_Stop tm cc jobID =
     (if jobID = '''' then State_Monad.return (Some (New ''no jobID given for Stop RPC''))
      else unless_err (stub_Stop cc (id_request jobID))
        (\<lambda>err. State_Monad.return (Some err))
        (\<lambda>resp. do { _ \<leftarrow> Print tm (response_line tm (Some resp)); State_Monad.return None }))"

definition client_Status :: "'w terminal \<Rightarrow> 'w conn \<Rightarrow> string \<Rightarrow> ('w, goerr option) state" where
  "client_Status tm cc jobID =
     (if jobID = '''' then State_Monad.return (Some (New ''no jobID given for Status RPC''))
      else unless_err (stub_Status cc (id_request jobID))
        (\<lambda>err. State_Monad.return (Some err))
        (\<lambda>resp. do { _ \<leftarrow> Print tm (response_line tm (Some resp)); State_Monad.return None }))"

text \<open>A round of the receiving loop.\<close>

definition recv_round :: "'w terminal \<Rightarrow> 'w conn \<Rightarrow> int \<Rightarrow> 'w \<Rightarrow> ('w + (goerr option \<times> 'w)) option" where
  "recv_round tm cc stream w =
     (case stream_Recv cc stream w of
        None \<Rightarrow> None
      | Some (Inl err, w) \<Rightarrow> Some (Inr (if err = EOF then None else Some err, w))
      | Some (Inr resp, w) \<Rightarrow> Some (Inl (exec (Println tm (f_Output resp)) w)))"

definition client_StreamOutput ::
  "'w terminal \<Rightarrow> 'w conn \<Rightarrow> string \<Rightarrow> 'w \<Rightarrow> (goerr option \<times> 'w) option" where
  "client_StreamOutput tm cc jobID w =
     (if jobID = '''' then Some (Some (New ''no jobID given for Status RPC''), w)
      else
        (case run_state (stub_StreamOutput cc (id_request jobID)) w of
           (Inl err, w) \<Rightarrow> Some (Some err, w)
         | (Inr stream, w) \<Rightarrow> forever (recv_round tm cc stream) w))"

section \<open>Building the connection\<close>

record ClientConfig =
  c_ClientName :: string
  c_ClientCertPathPrefix :: string
  c_ServerName :: string
  c_ServerPort :: string
  c_ServerCACertFile :: string

definition loadTLSConfigForClient ::
  "('w, 'c) tls_ops \<Rightarrow> ClientConfig \<Rightarrow> ('w, goerr + 'c tls_config) state" where
  "loadTLSConfigForClient tls cc =
     (let certName = c_ClientName cc @ ''_cert.pem''; keyName = c_ClientName cc @ ''_key.pem'';
          certFile = filepath_Join [c_ClientCertPathPrefix cc, certName];
          keyFile = filepath_Join [c_ClientCertPathPrefix cc, keyName] in
      unless_err (LoadX509KeyPair tls certFile keyFile)
        (\<lambda>err. State_Monad.return (Inl (Errorf ''failed loading server certificate: %w'' [] [err])))
      (\<lambda>certificate. unless_err (ReadFile tls (c_ServerCACertFile cc))
        (\<lambda>err. State_Monad.return (Inl (Errorf ''failed reading CA certificate: %w'' [] [err])))
      (\<lambda>srvCAData. State_Monad.return
         (if \<not> AppendCertsFromPEM tls srvCAData
          then Inl (New ''unable to append certificates to the CA pool'')
          else Inr \<lparr>Certificates = [certificate], ClientAuth = NoClientCert, ClientCAs = None,
                 RootCAs = Some srvCAData, MinVersion = VersionTLS13, MaxVersion = VersionTLS13\<rparr>))))"

definition NewClient ::
  "('w, 'c) tls_ops \<Rightarrow> (string \<Rightarrow> 'c tls_config \<Rightarrow> ('w, goerr + 'w conn) state) \<Rightarrow> ClientConfig
     \<Rightarrow> ('w, goerr + 'w conn) state" where
  "NewClient tls grpc_NewClient cc =
     (if c_ClientName cc = '''' then State_Monad.return (Inl (New ''ClientName not provided in config''))
      else if c_ClientCertPathPrefix cc = ''''
      then State_Monad.return (Inl (New ''ClientCertPathPrefix not provided in config''))
      else if c_ServerName cc = '''' then State_Monad.return (Inl (New ''ServerName not provided in config''))
      else if c_ServerPort cc = '''' then State_Monad.return (Inl (New ''ServerPort not provided in config''))
      else if c_ServerCACertFile cc = ''''
      then State_Monad.return (Inl (New ''ServerCACertFile not provided in config''))
      else
        let dialString = c_ServerName cc @ '':'' @ c_ServerPort cc in
        unless_err (loadTLSConfigForClient tls cc)
          (\<lambda>err. State_Monad.return (Inl err))
        (\<lambda>tlsConfig. unless_err (grpc_NewClient dialString tlsConfig)
          (\<lambda>err. State_Monad.return (Inl err))
        (\<lambda>conn. State_Monad.return (Inr conn))))"

section \<open>The command\<close>

text \<open>The usage text, line by line.\<close>

definition tab :: char where "tab = CHR 0x09"

definition usage_lines :: "string \<Rightarrow> string list" where
  "usage_lines myName =
    [''Usage: '' @ myName @ '' -n CLIENT_NAME OPERATION [OP_ARGS...]'',
     ''A gRPC client which executes arbitrary Linux commands on the jobmaster gRPC server.'',
     '''',
     ''Arguments:'',
     ''  -n, --name CLIENT_NAME'',
     ''      MANDATORY. The name of user/client with which you wish to invoke the RPCs.'',
     [tab] @ ''  -n/--name and CLIENT_NAME MUST be first two arguments to the program.'',
     '''',
     ''  OPERATION'',
     ''    MANDATORY. The operation corresponding to the RPC call to make. This is one of:'',
     ''      start           start/execute a command on the RPC server.'',
     '''',
     [tab] @ ''  stop            stop a running command on the server.'',
     '''',
     [tab] @ ''  status          show the status of a command previously executed on the server. '',
     '''',
     [tab] @ ''  streamoutput    stream the output of a job whch was previously started. If the'',
     ''   '' @ [tab] @ ''                  job is still running, the RPC call will wait until the server indicates'',
     [tab, tab] @ ''              that the job has finished running and that there will be no more output.'',
     [tab, tab, tab, tab, tab] @ ''  If the job has completed running (or was terminated), the call will finish'',
     [tab, tab, tab] @ ''          after streaming all available output from the stopped/terminated job.'',
     '''',
     ''  OP_ARGS'',
     ''    The arguments to OPERATION. The JOB_ID is case-sensitive.'',
     '''',
     [tab] @ ''  OPERATION start'',
     [tab] @ ''    COMMAND [ARGS]  The COMMAND to run on the server, along with ARGS required for it.'',
     '''',
     [tab] @ ''  OPERATION stop'',
     [tab] @ ''    JOB_ID          The job ID of a job which was previously started.'',
     '''',
     [tab] @ ''  OPERATION status'',
     [tab] @ ''    JOB_ID          The job ID of a job which was previously started.'',
     '''',
     [tab] @ ''  OPERATION streamoutput'',
     [tab] @ ''    JOB_ID          The job ID of a job which was previously started.'',
     '''',
     ''Note that the name and port of the server to connect to, are not currently configurable.'',
     ''They will be made configurable in a future release.'',
     '''',
     ''Examples:'',
     ''  '' @ myName @ '' --name client1 start dd if=/dev/urandom of=/dev/null bs=1M count=100'',
     ''  '' @ myName @ '' -n client1 start ls'',
     ''  '' @ myName @ '' -n client1 stop <JOBID>'',
     ''  '' @ myName @ '' -n client1 status <JOBID>'',
     ''  '' @ myName @ '' -n client1 streamoutput <JOBID>'']"

definition usage :: "'w terminal \<Rightarrow> string \<Rightarrow> ('w, unit) state" where
  "usage tm myName = Println tm (concat (map (\<lambda>l. l @ newline) (usage_lines myName)))"

definition serverName :: string where "serverName = ''localhost''"
definition serverPort :: string where "serverPort = ''6443''"
definition certPathPrefixRel :: string where "certPathPrefixRel = ''../../certs''"
definition serverCACertFile :: string where "serverCACertFile = ''server_ca_cert.pem''"

record parsed_args =
  clientName :: string
  operation :: string
  opArg :: string
  additionalArgs :: "string list"

definition operations :: "string list" where
  "operations = [''start'', ''stop'', ''status'', ''streamoutput'']"

definition parseCommandLineArgs :: "unicode \<Rightarrow> string list \<Rightarrow> goerr + parsed_args" where
  "parseCommandLineArgs u cargs =
     (if length cargs < 3 then Inl (New ''incorrect number of args specified'')
      else if cargs ! 0 \<noteq> ''-n'' \<and> cargs ! 0 \<noteq> ''--name''
      then Inl (New ''-n/--name CLIENT_NAME is required/mandatory and MUST be the first argument to the program'')
      else
        let name = cargs ! 1; opAndArgs = drop 2 cargs; oaLen = length opAndArgs in
        if name = ''''
        then Inl (New ''-n/--name CLIENT_NAME is empty - it is required/mandatory and MUST be the first argument to the program'')
        else
          let oper = ToLower u (opAndArgs ! 0) in
          if oper \<in> set operations
          then if oaLen < 2 then Inl (Errorf ''operation %q requires an argument'' [oper] [])
            else Inr \<lparr>clientName = name, operation = oper, opArg = opAndArgs ! 1,
                   additionalArgs = (if oaLen \<ge> 3 then drop 2 opAndArgs else [])\<rparr>
          else Inl (Errorf ''unknown operation %q'' [oper] []))"

datatype client_end =
    ClientFatal goerr               \<comment> \<open>no certificate directory\<close>
  | BadUsage goerr                  \<comment> \<open>the usage text was printed\<close>
  | NoClient goerr
  | CallDone "goerr option"         \<comment> \<open>the error is only logged\<close>

definition run_operation ::
  "'w terminal \<Rightarrow> string \<Rightarrow> 'w conn \<Rightarrow> parsed_args \<Rightarrow> 'w \<Rightarrow> (client_end \<times> 'w) option" where
  "run_operation tm myName conn a w =
     (if operation a = ''start''
      then (case run_state (client_Start tm conn (opArg a) (additionalArgs a)) w of (e, w) \<Rightarrow> Some (CallDone e, w))
      else if operation a = ''stop''
      then (case run_state (client_Stop tm conn (opArg a)) w of (e, w) \<Rightarrow> Some (CallDone e, w))
      else if operation a = ''status''
      then (case run_state (client_Status tm conn (opArg a)) w of (e, w) \<Rightarrow> Some (CallDone e, w))
      else if operation a = ''streamoutput''
      then (case client_StreamOutput tm conn (opArg a) w of
              None \<Rightarrow> None | Some (e, w) \<Rightarrow> Some (CallDone e, w))
      else Some (BadUsage (Errorf ''%q is not a valid operation'' [operation a] []), exec (usage tm myName) w))"

definition client_main ::
  "unicode \<Rightarrow> 'w terminal \<Rightarrow> ('w, 'c) tls_ops \<Rightarrow> (string \<Rightarrow> 'c tls_config \<Rightarrow> ('w, goerr + 'w conn) state)
     \<Rightarrow> goerr + string \<Rightarrow> (string \<Rightarrow> goerr + string) \<Rightarrow> string list \<Rightarrow> 'w \<Rightarrow> (client_end \<times> 'w) option" where
  "client_main u tm tls grpc_NewClient os_Executable filepath_Abs cargs w =
     (let myName = filepath_Base (case os_Executable of Inl err \<Rightarrow> ''client'' | Inr n \<Rightarrow> n) in
      case filepath_Abs certPathPrefixRel of
        Inl err \<Rightarrow> Some (ClientFatal err, w)
      | Inr certPathPrefixAbs \<Rightarrow>
          (case parseCommandLineArgs u cargs of
             Inl err \<Rightarrow> Some (BadUsage err, exec (usage tm myName) w)
           | Inr a \<Rightarrow>
               (case run_state (NewClient tls grpc_NewClient
                   \<lparr>c_ClientName = clientName a, c_ClientCertPathPrefix = certPathPrefixAbs,
                    c_ServerName = serverName, c_ServerPort = serverPort,
                    c_ServerCACertFile = filepath_Join [certPathPrefixAbs, serverCACertFile]\<rparr>) w of
                  (Inl err, w) \<Rightarrow> Some (NoClient err, w)
                | (Inr conn, w) \<Rightarrow>
                    (case run_operation tm myName conn a w of
                       None \<Rightarrow> None
                     | Some (r, w) \<Rightarrow> Some (r, exec (conn_Close conn) w)))))"

section \<open>The command line\<close>

text \<open>
  Property C36: the command line is understood exactly when it is \<open>-n\<close> or \<open>--name\<close>, a non-empty client
  name, one of the four operations in any case, and its argument; everything after that is passed on
  unchanged, in order, as the arguments of the command.
\<close>

theorem parseCommandLineArgs_iff:
  "parseCommandLineArgs u cargs = Inr a \<longleftrightarrow>
     (\<exists>flag oper. cargs = flag # clientName a # oper # opArg a # additionalArgs a \<and>
        flag \<in> {''-n'', ''--name''} \<and> clientName a \<noteq> '''' \<and>
        operation a = ToLower u oper \<and> operation a \<in> set operations)"
proof -
  consider "length cargs < 3" | x y z where "cargs = [x, y, z]" | x y z v more where "cargs = x # y # z # v # more"
    by (cases cargs rule: list.exhaust; cases "tl cargs"; cases "tl (tl cargs)"; cases "tl (tl (tl cargs))") auto
  then show ?thesis
  proof cases
    case 1
    then show ?thesis by (auto simp: parseCommandLineArgs_def)
  next
    case 2
    then show ?thesis by (auto simp: parseCommandLineArgs_def Let_def)
  next
    case 3
    then show ?thesis
      by (cases a; cases more) (auto simp: parseCommandLineArgs_def Let_def)
  qed
qed

lemma parsed_operation: "parseCommandLineArgs u cargs = Inr a \<Longrightarrow> operation a \<in> set operations"
  by (auto simp: parseCommandLineArgs_def Let_def split: if_splits)

lemma run_operation_calls:
  assumes "parseCommandLineArgs u cargs = Inr a" and "run_operation tm nm cc a w = Some (BadUsage err, w')"
  shows False
  using parsed_operation [OF assms(1)] assms(2)
  by (auto simp: run_operation_def operations_def split: prod.splits option.splits)

text \<open>
  Fact: the usage is printed exactly for a command line that is not understood, under the last
  element of the program's path; then no connection is made and nothing else is printed.  The last
  branch of the switch over the operation, which prints it too, is never reached.
\<close>

theorem client_main_usage:
  "client_main u tm tls dial exe ab cargs w = Some (BadUsage err, w') \<longleftrightarrow>
     (\<exists>d. ab certPathPrefixRel = Inr d) \<and> parseCommandLineArgs u cargs = Inl err \<and>
     w' = exec (usage tm (filepath_Base (case exe of Inl e \<Rightarrow> ''client'' | Inr n \<Rightarrow> n))) w"
  by (auto simp: client_main_def Let_def dest: run_operation_calls split: sum.splits prod.splits option.splits)

section \<open>What the client prints of a stream\<close>

text \<open>
  The contract of the connection and the terminal: the chunks of the server arrive in order and then
  the stream ends; printing appends to the output.
\<close>

locale receiving =
  fixes tm :: "'w terminal" and cc :: "'w conn" and stream :: int
    and pending :: "'w \<Rightarrow> string list" and shown :: "'w \<Rightarrow> string"
  assumes recv_end: "pending w = [] \<Longrightarrow> \<exists>w'. RecvMsg cc stream w = Some (Inl EOF, w') \<and> shown w' = shown w"
    and recv_chunk: "pending w = c # cs \<Longrightarrow> \<exists>w'. RecvMsg cc stream w = Some (Inr \<lparr>f_Output = c\<rparr>, w') \<and>
      pending w' = cs \<and> shown w' = shown w"
    and prints: "pending (exec (Print tm s) w) = pending w \<and> shown (exec (Print tm s) w) = shown w @ s"
begin

lemma recv_loop:
  "\<exists>w'. forever (recv_round tm cc stream) w = Some (None, w') \<and>
     shown w' = shown w @ concat (map (\<lambda>c. c @ newline) (pending w))"
proof (induction "pending w" arbitrary: w)
  case Nil
  then obtain w' where "RecvMsg cc stream w = Some (Inl EOF, w')" "shown w' = shown w"
    using recv_end [of w] by auto
  then show ?case using Nil by (simp add: forever_stops recv_round_def)
next
  case (Cons c cs)
  obtain w1 where r: "RecvMsg cc stream w = Some (Inr \<lparr>f_Output = c\<rparr>, w1)" "pending w1 = cs" "shown w1 = shown w"
    using recv_chunk [OF Cons(2) [symmetric]] by blast
  let ?w2 = "exec (Println tm c) w1"
  have w2: "pending ?w2 = cs" "shown ?w2 = shown w @ c @ newline"
    using prints [of "c @ newline" w1] r by (simp_all add: Println_def)
  have "forever (recv_round tm cc stream) w = forever (recv_round tm cc stream) ?w2"
    by (rule forever_steps) (simp add: recv_round_def r)
  with Cons(1) [OF w2(1) [symmetric]] w2 Cons(2) [symmetric] show ?case by auto
qed

end

record termw =
  t_chunks :: "string list"
  t_shown :: string

definition mem_terminal :: "termw terminal" where
  "mem_terminal = \<lparr>Print = (\<lambda>s. State (\<lambda>w. ((), w\<lparr>t_shown := t_shown w @ s\<rparr>))),
     show_cmd = (\<lambda>c. GetCommand c), show_time = (\<lambda>t. '''')\<rparr>"

definition mem_conn :: "termw conn" where
  "mem_conn = \<lparr>
     Invoke_create = (\<lambda>m r. State_Monad.return (Inl (StatusErr Unimplemented m))),
     Invoke_id = (\<lambda>m r. State_Monad.return (Inl (StatusErr Unimplemented m))),
     NewStream = (\<lambda>m. State_Monad.return (Inr 1)),
     SendMsg = (\<lambda>s m. State_Monad.return None),
     CloseSend = (\<lambda>s. State_Monad.return None),
     RecvMsg = (\<lambda>s w. case t_chunks w of [] \<Rightarrow> Some (Inl EOF, w)
        | c # cs \<Rightarrow> Some (Inr \<lparr>f_Output = c\<rparr>, w\<lparr>t_chunks := cs\<rparr>)),
     conn_Close = State_Monad.return ()\<rparr>"

interpretation mem_receiving: receiving mem_terminal mem_conn stream t_chunks t_shown for stream
  by unfold_locales (simp_all add: mem_conn_def mem_terminal_def exec_def)

text \<open>
  Fact: \<open>StreamOutput\<close> of the client prints every chunk the server sends, in order, but with a
  line break after each: what is shown is the job's output with breaks inserted at the chunk
  boundaries, so it is longer than the output by one character per message.
\<close>

theorem client_stream_inserts_newlines:
  assumes "receiving tm cc stream pend shown" and "jobID \<noteq> ''''"
    and "run_state (stub_StreamOutput cc (id_request jobID)) w = (Inr stream, w1)"
  shows "\<exists>w'. client_StreamOutput tm cc jobID w = Some (None, w') \<and>
    shown w' = shown w1 @ concat (map (\<lambda>c. c @ newline) (pend w1)) \<and>
    length (shown w') = length (shown w1) + length (concat (pend w1)) + length (pend w1)"
proof -
  obtain w' where w': "forever (recv_round tm cc stream) w1 = Some (None, w')"
    "shown w' = shown w1 @ concat (map (\<lambda>c. c @ newline) (pend w1))"
    using receiving.recv_loop [OF assms(1), of w1] by blast
  have "length (concat (map (\<lambda>c. c @ newline) cs)) = length (concat cs) + length cs" for cs
    by (induction cs) (simp_all add: newline_def)
  with w' assms(2,3) show ?thesis by (simp add: client_StreamOutput_def)
qed

theorem client_stream_inserts_newlines_witness:
  "\<exists>w'. client_StreamOutput mem_terminal mem_conn ''j1'' \<lparr>t_chunks = [''ab'', ''c''], t_shown = ''''\<rparr> = Some (None, w') \<and>
     t_shown w' = ''ab'' @ newline @ ''c'' @ newline"
proof -
  have "run_state (stub_StreamOutput mem_conn (id_request ''j1'')) \<lparr>t_chunks = [''ab'', ''c''], t_shown = ''''\<rparr>
      = (Inr 1, \<lparr>t_chunks = [''ab'', ''c''], t_shown = ''''\<rparr>)"
    by (simp add: stub_StreamOutput_def mem_conn_def go_run)
  from client_stream_inserts_newlines [OF mem_receiving.receiving_axioms _ this] show ?thesis by auto
qed

end
