(* ===== verification/Requests.thy ===== *)
theory Requests
  imports Registry Client
begin

text \<open>
  A request on its way from the certificates of the peer, through the interceptors and the generated
  handlers, to the methods of the job library: what the handlers of \<open>ServerImpl\<close> and the interceptors
  of \<open>ValidateClient\<close> guarantee together.
\<close>

section \<open>A request, from the certificate to the library\<close>

text \<open>The identity behind a request: the last certificate the peer of the connection has shown.\<close>

definition authenticated :: "unicode \<Rightarrow> request_ctx \<Rightarrow> string \<Rightarrow> Role \<Rightarrow> bool" where
  "authenticated u ctx nm role \<longleftrightarrow> (\<exists>certs. ctx_peer ctx = Some (TLSInfo certs) \<and> certs \<noteq> [] \<and>
     (\<forall>item \<in> set certs. \<exists>n r. cert_identifies u item n r) \<and> cert_identifies u (last certs) nm role)"

lemma authenticated_unique:
  "authenticated u ctx nm role \<Longrightarrow> authenticated u ctx nm' role' \<Longrightarrow> nm' = nm \<and> role' = role"
  using cert_identifies_unique by (fastforce simp: authenticated_def)

lemma validateClient_server:
  assumes "run_state (validateClient (server_os os) ctx) s = (r, s')"
  shows "s_lib s' = s_lib s \<and> s_goroutines s' = s_goroutines s"
  using assms server_ctx_world
  by (fastforce simp: validateClient_def go_run split: go_split auth_info.splits)

lemma served_unary:
  assumes "gs_unary gs = Some ValidateClientUnary" and "unicode_ok (os_unicode os)"
    and "unary_handler method ctx dec (unary_of os gs) s = Some (Returned (Inr reply), s')"
  obtains inp s1 ctx' s2 nm role where "run_state dec s = (Inr inp, s1)"
    and "authenticated (os_unicode os) ctx nm role"
    and "known_client (os_unicode os) nm role"
    and "ClientInfoFromContext (os_unicode os) ctx' = Returned (Inr (nm, role))" and "ctx_id ctx' = ctx_id ctx"
    and "s_lib s2 = s_lib s1" and "s_goroutines s2 = s_goroutines s1"
    and "method ctx' (Some inp) s2 = Some (Returned (Inr reply), s')"
proof -
  obtain inp s1 where d: "run_state dec s = (Inr inp, s1)"
    and i: "validateClientUnaryInterceptor (server_os os) ctx (Some inp) (\<lambda>ctx req. method ctx req) s1
      = Some (Returned (Inr reply), s')"
    using assms(1,3) by (auto simp: unary_handler_def unary_of_def split: prod.splits sum.splits)
  obtain ctx' s2 where v: "run_state (validateClient (server_os os) ctx) s1 = (Inr ctx', s2)"
    and m: "method ctx' (Some inp) s2 = Some (Returned (Inr reply), s')"
    using i by (auto simp: validateClientUnaryInterceptor_def split: prod.splits sum.splits)
  have u: "unicode_ok (os_unicode (server_os os))" using assms(2) by simp
  obtain certs nm role where "ctx_peer ctx = Some (TLSInfo certs)" "certs \<noteq> []"
    "\<forall>item \<in> set certs. \<exists>n r. cert_identifies (os_unicode os) item n r"
    "cert_identifies (os_unicode os) (last certs) nm role"
    "ClientInfoFromContext (os_unicode os) ctx' = Returned (Inr (nm, role))" "ctx_id ctx' = ctx_id ctx"
    using admitted_identity [OF u v] by auto
  with that [OF d _ _ _ _ _ _ m] validateClient_server [OF v] cert_known show ?thesis
    by (auto simp: authenticated_def)
qed

lemma known_admin: "known_client (os_unicode os) nm role \<Longrightarrow> is_admin os role \<longleftrightarrow> role = Admin"
  using known_client_role(2) [of "os_unicode os" nm role] by (simp add: is_admin_def)

lemma rpc_Status_run:
  assumes "rpc_Status os ctx inp s = Some (Returned (Inr reply), s')"
    and "ClientInfoFromContext (os_unicode os) ctx = Returned (Inr (nm, role))"
  shows "\<exists>job. may_access (s_lib s) nm (GetJobID (GetJobIDRequest inp)) (is_admin os role) job \<and>
    reply = job_response (GetJobIDRequest inp) job \<and> s_lib s' = s_lib s"
  using rpc_Status_job [OF assms(1)] assms(2) by auto

lemma served_Status:
  assumes "gs_unary gs = Some ValidateClientUnary" and "unicode_ok (os_unicode os)"
    and "JobService_Status_Handler os ctx dec (unary_of os gs) s = Some (Returned (Inr reply), s')"
  shows "\<exists>nm role inp s1 job. authenticated (os_unicode os) ctx nm role \<and> run_state dec s = (Inr inp, s1) \<and>
    may_access (s_lib s1) nm (GetJobID (GetJobIDRequest (Some inp))) (role = Admin) job \<and>
    reply = job_response (GetJobIDRequest (Some inp)) job \<and> s_lib s' = s_lib s1"
proof -
  obtain inp s1 ctx' s2 nm role where *: "run_state dec s = (Inr inp, s1)"
    "authenticated (os_unicode os) ctx nm role" "known_client (os_unicode os) nm role"
    "ClientInfoFromContext (os_unicode os) ctx' = Returned (Inr (nm, role))"
    "s_lib s2 = s_lib s1" "rpc_Status os ctx' (Some inp) s2 = Some (Returned (Inr reply), s')"
    using served_unary [OF assms(1,2) assms(3) [unfolded JobService_Status_Handler_def]] by metis
  obtain job where "may_access (s_lib s2) nm (GetJobID (GetJobIDRequest (Some inp))) (is_admin os role) job"
    "reply = job_response (GetJobIDRequest (Some inp)) job" "s_lib s' = s_lib s2"
    using rpc_Status_run [OF *(6,4)] by blast
  then show ?thesis using * known_admin [OF *(3)]
    by (intro exI [of _ nm] exI [of _ role] exI [of _ inp] exI [of _ s1] exI [of _ job]) simp
qed

lemma rpc_Start_run:
  assumes "rpc_Start os ctx inp s = Some (Returned (Inr reply), s')"
    and "ClientInfoFromContext (os_unicode os) ctx = Returned (Inr (nm, role))"
  shows "\<exists>job pid. s_lib s' = Start_locked (s_lib s) job \<and> ID job = f_JobID reply \<and> ClientName job = nm \<and>
    fresh_job job \<and> Command job = GetCommand inp \<and> CmdArgs job = GetArgs inp \<and>
    s_goroutines s' = (length (heap (s_lib s)), pid) # s_goroutines s"
proof -
  obtain s1 where s1: "run_state (ctx_err_of (server_os os) (ctx_id ctx)) s = (None, s1)"
    and k: "(case run_state (Start os (s_lib s1) (ctx_id ctx) nm (GetCommand inp) (GetArgs inp)) (s_world s1) of
       ((Inl err, j, g), w) \<Rightarrow> Some (Returned (Inl (internal_error os err)), s1\<lparr>s_lib := j, s_world := w\<rparr>)
     | ((Inr jobID, j, g), w) \<Rightarrow> Some (Returned (Inr \<lparr>f_JobID = jobID\<rparr>), s1\<lparr>s_lib := j, s_world := w,
          s_goroutines := (case g of None \<Rightarrow> [] | Some x \<Rightarrow> [x]) @ s_goroutines s1\<rparr>))
     = Some (Returned (Inr reply), s')"
    using with_client_returned [OF assms(1) [unfolded rpc_Start_def]] assms(2) by (auto simp: Let_def)
  obtain i j g w where st: "run_state (Start os (s_lib s1) (ctx_id ctx) nm (GetCommand inp) (GetArgs inp)) (s_world s1) = ((Inr i, j, g), w)"
    and r: "reply = \<lparr>f_JobID = i\<rparr>" "s_lib s' = j" "s_goroutines s' = (case g of None \<Rightarrow> [] | Some x \<Rightarrow> [x]) @ s_goroutines s1"
    using k by (auto split: prod.splits sum.splits)
  from Start_ok [OF st] r server_ctx_world [OF s1] show ?thesis
    by (auto simp: fresh_job_def)
qed

lemma served_Start:
  assumes "gs_unary gs = Some ValidateClientUnary" and "unicode_ok (os_unicode os)"
    and "JobService_Start_Handler os ctx dec (unary_of os gs) s = Some (Returned (Inr reply), s')"
  shows "\<exists>nm role inp s1 job pid. authenticated (os_unicode os) ctx nm role \<and> run_state dec s = (Inr inp, s1) \<and>
    s_lib s' = Start_locked (s_lib s1) job \<and> ID job = f_JobID reply \<and> ClientName job = nm \<and> fresh_job job \<and>
    Command job = GetCommand (Some inp) \<and> CmdArgs job = GetArgs (Some inp) \<and>
    s_goroutines s' = (length (heap (s_lib s1)), pid) # s_goroutines s1"
proof -
  obtain inp s1 ctx' s2 nm role where *: "run_state dec s = (Inr inp, s1)"
    "authenticated (os_unicode os) ctx nm role" "ClientInfoFromContext (os_unicode os) ctx' = Returned (Inr (nm, role))"
    "s_lib s2 = s_lib s1" "s_goroutines s2 = s_goroutines s1"
    "rpc_Start os ctx' (Some inp) s2 = Some (Returned (Inr reply), s')"
    using served_unary [OF assms(1,2) assms(3) [unfolded JobService_Start_Handler_def]] by metis
  obtain job pid where "s_lib s' = Start_locked (s_lib s2) job" "ID job = f_JobID reply" "ClientName job = nm"
    "fresh_job job" "Command job = GetCommand (Some inp)" "CmdArgs job = GetArgs (Some inp)"
    "s_goroutines s' = (length (heap (s_lib s2)), pid) # s_goroutines s2"
    using rpc_Start_run [OF *(6,3)] by blast
  then show ?thesis using *
    by (intro exI [of _ nm] exI [of _ role] exI [of _ inp] exI [of _ s1] exI [of _ job] exI [of _ pid]) simp
qed

text \<open>Whatever the Stop method answers, it changes at most the one job, for a caller who may stop it.\<close>

lemma rpc_Stop_effect:
  assumes "rpc_Stop os ctx inp s = Some (r, s')"
    and "ClientInfoFromContext (os_unicode os) ctx = Returned (Inr (nm, role))"
  shows "s_lib s' = s_lib s \<or> (\<exists>a t. jobs (s_lib s) (GetJobID (GetJobIDRequest inp)) = Some a \<and>
    (is_admin os role \<or> ClientName (heap (s_lib s) ! a) = nm) \<and> \<not> job_ended (heap (s_lib s) ! a) \<and>
    s_lib s' = (s_lib s)\<lparr>heap := (heap (s_lib s))[a := stop_fields t (heap (s_lib s) ! a)]\<rparr>)"
proof -
  let ?i = "GetJobID (GetJobIDRequest inp)"
  obtain e s1 where e: "run_state (ctx_err_of (server_os os) (ctx_id ctx)) s = (e, s1)" by fastforce
  note l = server_ctx_world [OF e]
  show ?thesis
  proof (cases e)
    case (Some x)
    then show ?thesis using assms e l by (simp add: rpc_Stop_def with_client_def)
  next
    case None
    then obtain q j' w where "Stop os (s_lib s1) (ctx_id ctx) nm ?i (is_admin os role) (s_world s1) = Some ((q, j'), w)"
      and "s_lib s' = j'"
      using assms e by (auto simp: rpc_Stop_def with_client_def Let_def split: option.splits sum.splits)
    with Stop_effect show ?thesis using l by metis
  qed
qed

lemma served_Stop:
  assumes on: "gs_unary gs = Some ValidateClientUnary" and u: "unicode_ok (os_unicode os)"
    and dec: "\<forall>r v. run_state dec s = (r, v) \<longrightarrow> s_lib v = s_lib s"
    and run: "JobService_Stop_Handler os ctx dec (unary_of os gs) s = Some (r, s')"
  shows "s_lib s' = s_lib s \<or> (\<exists>nm role inp v a t. authenticated (os_unicode os) ctx nm role \<and>
    run_state dec s = (Inr inp, v) \<and> jobs (s_lib s) (GetJobID (GetJobIDRequest (Some inp))) = Some a \<and>
    (role = Admin \<or> ClientName (heap (s_lib s) ! a) = nm) \<and> \<not> job_ended (heap (s_lib s) ! a) \<and>
    s_lib s' = (s_lib s)\<lparr>heap := (heap (s_lib s))[a := stop_fields t (heap (s_lib s) ! a)]\<rparr>)"
proof -
  obtain z v where d: "run_state dec s = (z, v)" by fastforce
  have v: "s_lib v = s_lib s" using dec d by blast
  show ?thesis
  proof (cases z)
    case (Inl e)
    then show ?thesis using run d v by (simp add: JobService_Stop_Handler_def unary_handler_def)
  next
    case (Inr inp)
    obtain y s2 where y: "run_state (validateClient (server_os os) ctx) v = (y, s2)" by fastforce
    have l2: "s_lib s2 = s_lib s" using validateClient_server [OF y] v by simp
    have i: "validateClientUnaryInterceptor (server_os os) ctx (Some inp) (\<lambda>ctx req. rpc_Stop os ctx req) v = Some (r, s')"
      using run d Inr on by (simp add: JobService_Stop_Handler_def unary_handler_def unary_of_def)
    show ?thesis
    proof (cases y)
      case (Inl e)
      then show ?thesis using i y l2 by (simp add: validateClientUnaryInterceptor_def)
    next
      case Y: (Inr ctx')
      have m: "rpc_Stop os ctx' (Some inp) s2 = Some (r, s')"
        using i y Y by (simp add: validateClientUnaryInterceptor_def)
      have "unicode_ok (os_unicode (server_os os))" using u by simp
      from admitted_identity [OF this y [unfolded Y]] obtain certs nm role where
        a: "ctx_peer ctx = Some (TLSInfo certs)" "certs \<noteq> []"
          "\<forall>item \<in> set certs. \<exists>n r. cert_identifies (os_unicode os) item n r"
          "cert_identifies (os_unicode os) (last certs) nm role"
        and info: "ClientInfoFromContext (os_unicode os) ctx' = Returned (Inr (nm, role))" by auto
      have "authenticated (os_unicode os) ctx nm role" using a by (auto simp: authenticated_def)
      moreover have "is_admin os role \<longleftrightarrow> role = Admin" using known_admin cert_known [OF a(4)] by blast
      ultimately show ?thesis
        using rpc_Stop_effect [OF m info] l2 d Inr by metis
    qed
  qed
qed

text \<open>A Stop that is answered with a job: the job asked for has ended, now or before.\<close>

definition stopped_state :: "JobState \<Rightarrow> JobState" where
  "stopped_state st = (if st = Completed then Completed else TerminatedByAPI)"

lemma rpc_Stop_run:
  assumes "rpc_Stop os ctx inp s = Some (Returned (Inr reply), s')"
    and "ClientInfoFromContext (os_unicode os) ctx = Returned (Inr (nm, role))" and inv: "store_inv (s_lib s)"
  shows "\<exists>owner st job. registry (s_lib s) (GetJobID (GetJobIDRequest inp)) = Some (owner, st) \<and>
    (is_admin os role \<or> owner = nm) \<and> JState job = stopped_state st \<and> ClientName job = owner \<and>
    reply = job_response (GetJobIDRequest inp) job \<and> store_inv (s_lib s') \<and>
    registry (s_lib s') = (registry (s_lib s))(GetJobID (GetJobIDRequest inp) \<mapsto> (owner, stopped_state st))"
proof -
  let ?i = "GetJobID (GetJobIDRequest inp)"
  obtain e s1 where e: "run_state (ctx_err_of (server_os os) (ctx_id ctx)) s = (e, s1)" by fastforce
  then have l: "s_lib s1 = s_lib s" using server_ctx_world by blast
  obtain job j' w where st: "Stop os (s_lib s) (ctx_id ctx) nm ?i (is_admin os role) (s_world s1) = Some ((Inr job, j'), w)"
    and r: "reply = job_response (GetJobIDRequest inp) job" "s_lib s' = j'"
    using assms(1,2) e l by (auto simp: rpc_Stop_def with_client_def Let_def split: option.splits sum.splits prod.splits)
  obtain a where a: "jobs (s_lib s) ?i = Some a" "is_admin os role \<or> ClientName (heap (s_lib s) ! a) = nm"
    and c: "job_ended (heap (s_lib s) ! a) \<and> j' = s_lib s \<and> job = heap (s_lib s) ! a \<or>
      (\<exists>t1 t2. \<not> job_ended (heap (s_lib s) ! a) \<and>
        j' = (s_lib s)\<lparr>heap := (heap (s_lib s))[a := stop_fields t1 (heap (s_lib s) ! a)]\<rparr> \<and>
        job = stop_fields t2 (heap (s_lib s) ! a))"
    using Stop_ok [OF st] by metis
  note b = store_invD(1,2) [OF inv a(1)]
  have g: "registry (s_lib s) ?i = Some (ClientName (heap (s_lib s) ! a), JState (heap (s_lib s) ! a))"
    using registry_at [OF inv b(1)] b(2) by simp
  have "store_inv j' \<and> registry j' = (registry (s_lib s))(?i \<mapsto> (ClientName (heap (s_lib s) ! a), stopped_state (JState (heap (s_lib s) ! a))))
      \<and> JState job = stopped_state (JState (heap (s_lib s) ! a)) \<and> ClientName job = ClientName (heap (s_lib s) ! a)"
    using c
  proof
    assume c: "job_ended (heap (s_lib s) ! a) \<and> j' = s_lib s \<and> job = heap (s_lib s) ! a"
    then have "stopped_state (JState (heap (s_lib s) ! a)) = JState (heap (s_lib s) ! a)"
      by (auto simp: stopped_state_def job_ended_def)
    with c g inv show ?thesis by (simp add: fun_upd_idem)
  next
    assume "\<exists>t1 t2. \<not> job_ended (heap (s_lib s) ! a) \<and>
        j' = (s_lib s)\<lparr>heap := (heap (s_lib s))[a := stop_fields t1 (heap (s_lib s) ! a)]\<rparr> \<and>
        job = stop_fields t2 (heap (s_lib s) ! a)"
    then obtain t1 t2 where c: "\<not> job_ended (heap (s_lib s) ! a)"
      "j' = (s_lib s)\<lparr>heap := (heap (s_lib s))[a := stop_fields t1 (heap (s_lib s) ! a)]\<rparr>"
      "job = stop_fields t2 (heap (s_lib s) ! a)" by blast
    have "stopped_state (JState (heap (s_lib s) ! a)) = TerminatedByAPI"
      using c(1) by (auto simp: stopped_state_def job_ended_def)
    with c registry_heap_update [OF inv b(1), of "stop_fields t1 (heap (s_lib s) ! a)"] b(2)
      store_inv_heap_update [OF inv b(1), of "stop_fields t1 (heap (s_lib s) ! a)"]
    show ?thesis by simp
  qed
  with a(2) r g show ?thesis by blast
qed

lemma served_Stop_ok:
  assumes "gs_unary gs = Some ValidateClientUnary" and "unicode_ok (os_unicode os)"
    and "JobService_Stop_Handler os ctx dec (unary_of os gs) s = Some (Returned (Inr reply), s')"
    and "\<forall>inp s1. run_state dec s = (Inr inp, s1) \<longrightarrow> store_inv (s_lib s1)"
  shows "\<exists>nm role inp s1 owner st job. authenticated (os_unicode os) ctx nm role \<and> run_state dec s = (Inr inp, s1) \<and>
    registry (s_lib s1) (GetJobID (GetJobIDRequest (Some inp))) = Some (owner, st) \<and> (role = Admin \<or> owner = nm) \<and>
    JState job = stopped_state st \<and> ClientName job = owner \<and>
    reply = job_response (GetJobIDRequest (Some inp)) job \<and> store_inv (s_lib s') \<and>
    registry (s_lib s') = (registry (s_lib s1))(GetJobID (GetJobIDRequest (Some inp)) \<mapsto> (owner, stopped_state st))"
proof -
  obtain inp s1 ctx' s2 nm role where *: "run_state dec s = (Inr inp, s1)"
    "authenticated (os_unicode os) ctx nm role" "known_client (os_unicode os) nm role"
    "ClientInfoFromContext (os_unicode os) ctx' = Returned (Inr (nm, role))"
    "s_lib s2 = s_lib s1" "rpc_Stop os ctx' (Some inp) s2 = Some (Returned (Inr reply), s')"
    using served_unary [OF assms(1,2) assms(3) [unfolded JobService_Stop_Handler_def]] by metis
  have "store_inv (s_lib s2)" using assms(4) *(1,5) by simp
  from rpc_Stop_run [OF *(6,4) this] show ?thesis
    using * known_admin [OF *(3)] by metis
qed

lemma served_stream:
  assumes on: "gs_stream gs = Some ValidateClientStream" and u: "unicode_ok (os_unicode os)"
    and grows: "\<And>path. growing_file os st nt path (fd path) (ss_handle ss) (content path) sent"
    and recv: "\<And>u r v. run_state recv_req u = (r, v) \<Longrightarrow> sent v = sent u"
    and start: "sent w = ''''"
    and run: "serve_stream os st nt gs j recv_req ss w = Some (r, w')"
  shows "sent w' = '''' \<or> (\<exists>nm role inp job. authenticated (os_unicode os) (ss_ctx ss) nm role \<and>
    (\<exists>u v. run_state recv_req u = (Inr inp, v)) \<and>
    may_access j nm (GetJobID (GetJobIDRequest (Some inp))) (role = Admin) job \<and>
    prefix (sent w') (content (OutputFilePath job) w'))"
proof -
  have ctx: "sent v = sent u" if "run_state (ctx_err_of os c) u = (x, v)" for c u x v
    using growing_file.ctx [OF grows that] by simp
  obtain y w1 where v: "run_state (validateClient os (ss_ctx ss)) w = (y, w1)" by fastforce
  then have s1: "sent w1 = ''''"
    using ctx start by (fastforce simp: validateClient_def go_run split: go_split auth_info.splits)
  show ?thesis
  proof (cases y)
    case (Inl err)
    then show ?thesis using run v s1 on by (simp add: serve_stream_def validateClientStreamInterceptor_def)
  next
    case (Inr ctx')
    then have h: "JobService_StreamOutput_Handler os st nt j recv_req (newWrappedStream ctx' ss) w1 = Some (r, w')"
      using run v on by (simp add: serve_stream_def validateClientStreamInterceptor_def)
    obtain z w2 where rc: "run_state recv_req w1 = (z, w2)" by fastforce
    have s2: "sent w2 = ''''" using recv [OF rc] s1 by simp
    obtain certs nm role where a: "ctx_peer (ss_ctx ss) = Some (TLSInfo certs)" "certs \<noteq> []"
      "\<forall>item \<in> set certs. \<exists>n r. cert_identifies (os_unicode os) item n r"
      "cert_identifies (os_unicode os) (last certs) nm role"
      and info: "ClientInfoFromContext (os_unicode os) ctx' = Returned (Inr (nm, role))"
      using admitted_identity [OF u v [unfolded Inr]] by auto
    have auth: "authenticated (os_unicode os) (ss_ctx ss) nm role" using a by (auto simp: authenticated_def)
    have adm: "is_admin os role \<longleftrightarrow> role = Admin" using known_admin cert_known [OF a(4)] by blast
    show ?thesis
    proof (cases z)
      case (Inl err)
      then show ?thesis using h rc s2 by (simp add: JobService_StreamOutput_Handler_def)
    next
      case (Inr inp)
      then have h: "rpc_StreamOutput os st nt j (Some inp) (newWrappedStream ctx' ss) w2 = Some (r, w')"
        using h rc by (simp add: JobService_StreamOutput_Handler_def)
      obtain e w3 where e: "run_state (ctx_err_of os (ctx_id ctx')) w2 = (e, w3)" by fastforce
      have s3: "sent w3 = ''''" using ctx [OF e] s2 by simp
      let ?id = "GetJobID (GetJobIDRequest (Some inp))"
      obtain q w4 where q: "run_state (StreamOutputSetup os j (ctx_id ctx') nm ?id (is_admin os role)) w3 = (q, w4)"
        by fastforce
      have s4: "sent w4 = ''''"
        using q s3 ctx by (fastforce simp: StreamOutputSetup_def query_defs go_run split: go_split)
      show ?thesis
      proof (cases "\<exists>job. e = None \<and> q = Inr job")
        case False
        then have "sent w' = ''''" using h e q s3 s4 info
          by (auto simp: rpc_StreamOutput_def with_client_def newWrappedStream_def Let_def
              split: option.splits sum.splits)
        then show ?thesis by simp
      next
        case True
        then obtain job where job: "e = None" "q = Inr job" by blast
        then have "stream_job os st nt (ctx_id ctx') (ss_handle ss) job w4 = Some (r, w')"
          using h e q info by (simp add: rpc_StreamOutput_def with_client_def newWrappedStream_def Let_def)
        from growing_file.stream_job_prefix [OF grows this refl s4]
        have "prefix (sent w') (content (OutputFilePath job) w')" .
        moreover have "may_access j nm ?id (role = Admin) job"
          using stream_setup.access [OF q [unfolded job(2)]] adm by simp
        ultimately show ?thesis using auth rc Inr by blast
      qed
    qed
  qed
qed

section \<open>A concrete server\<close>

definition mem_gs :: "nat grpc_server" where
  "mem_gs = (case fst mem_new_server of Inr gs \<Rightarrow> gs | Inl e \<Rightarrow> undefined)"

lemma mem_gs_made: "run_state (NewServer mem_os mem_tls [''client1''] (mem_config ''cert.pem'')) mem_boot = (Inr mem_gs, snd mem_new_server)"
proof -
  obtain gs where gs: "mem_new_server = (Inr gs, snd mem_new_server)" using mem_new_server by blast
  then have "fst mem_new_server = Inr gs" by (metis fst_conv)
  then have "mem_gs = gs" by (simp add: mem_gs_def)
  with gs show ?thesis by (simp add: mem_new_server_def)
qed

definition start_state :: "memw server" where
  "start_state = \<lparr>s_lib = sample_lib, s_world = mem_one_client, s_goroutines = []\<rparr>"

definition started_state :: "memw server" where
  "started_state = \<lparr>s_lib = fst (snd (fst mem_start_result)), s_world = snd mem_start_result,
     s_goroutines = (case snd (snd (fst mem_start_result)) of None \<Rightarrow> [] | Some x \<Rightarrow> [x])\<rparr>"

lemma sample_admitted_id [simp]: "ctx_id (sample_admitted nm role) = 0"
  by (simp add: sample_admitted_def sample_ctx_def WithValue_def)

lemma mem_unary_of [simp]: "unary_of mem_os mem_gs = Some (validateClientUnaryInterceptor (server_os mem_os))"
  by (simp add: unary_of_def NewServer_options(1) [OF mem_gs_made])

lemma sample_handler:
  "unary_handler method (sample_ctx ''client1'') (State_Monad.return (Inr req)) (unary_of mem_os mem_gs) s
     = method (sample_admitted ''client1'' User) (Some req) s"
  by (simp add: unary_handler_def validateClientUnaryInterceptor_def sample_validated_server go_run)

lemma mem_Start_handled:
  "JobService_Start_Handler mem_os (sample_ctx ''client1'') (State_Monad.return (Inr \<lparr>f_Command = ''ls'', f_Args = [''-l'']\<rparr>))
     (unary_of mem_os mem_gs) start_state = Some (Returned (Inr \<lparr>f_JobID = ''job100''\<rparr>), started_state)"
  unfolding JobService_Start_Handler_def sample_handler
  by (simp add: rpc_Start_def with_client_def sample_info server_mem_run getter_defs start_state_def
      mem_start_run mem_start_id started_state_def split_beta)

lemma started_lookup:
  "jobs (s_lib started_state) ''job100'' = Some 1" "ClientName (heap (s_lib started_state) ! 1) = ''client1''"
proof -
  obtain job where "s_lib started_state = Start_locked sample_lib job" "ID job = ''job100''" "ClientName job = ''client1''"
    using Start_ok [OF mem_start_run [unfolded mem_start_id]] by (auto simp: started_state_def)
  then show "jobs (s_lib started_state) ''job100'' = Some 1" "ClientName (heap (s_lib started_state) ! 1) = ''client1''"
    by (simp_all add: Start_locked_def Let_def sample_lib_def)
qed

lemma sample_store_inv: "store_inv sample_lib"
  by (auto simp: store_inv_def sample_lib_def sample_job_def jobs_of_client_def split: if_splits)

lemma sample_authenticated: "authenticated (os_unicode mem_os) (sample_ctx ''client1'') ''client1'' User"
proof -
  have "cert_identifies (os_unicode mem_os) (sample_cert ''client1'') ''client1'' User"
    by (rule cert_identifiesI) code_simp+
  then show ?thesis by (auto simp: authenticated_def sample_ctx_def)
qed

lemma mem_Status_handled:
  assumes "jobs (s_lib s) i = Some a" "ClientName (heap (s_lib s) ! a) = ''client1''" "i \<noteq> ''''"
  shows "JobService_Status_Handler mem_os (sample_ctx ''client1'') (State_Monad.return (Inr (id_request i)))
     (unary_of mem_os mem_gs) s = Some (Returned (Inr (job_response (Some \<lparr>f_JobID = i\<rparr>) (heap (s_lib s) ! a))), s)"
proof -
  have "run_state (Status mem_os (s_lib s) 0 ''client1'' i False) (s_world s) = (Inr (heap (s_lib s) ! a), s_world s)"
    using assms by (simp add: Status_def query_defs copy_Job_def go_run mem_os_run)
  moreover have "\<not> is_admin mem_os User" by (simp add: is_admin_def)
  ultimately show ?thesis unfolding JobService_Status_Handler_def sample_handler
    by (simp add: rpc_Status_def with_client_def sample_info server_mem_run getter_defs id_request_def)
qed

definition stop_state :: "memw server" where
  "stop_state = \<lparr>s_lib = sample_lib, s_world = mem_super, s_goroutines = []\<rparr>"

lemma stop_state_inv: "store_inv (s_lib stop_state)"
  using sample_store_inv by (simp add: stop_state_def)

lemma stop_state_registry: "registry (s_lib stop_state) ''j1'' = Some (''client1'', Running)"
  by (simp add: stop_state_def sample_lib_def sample_job_def registry_def lookup_job_def)

lemma mem_Stop_handled:
  obtains r s' where "JobService_Stop_Handler mem_os (sample_ctx ''client1'') (State_Monad.return (Inr (id_request ''j1'')))
     (unary_of mem_os mem_gs) stop_state = Some (Returned (Inr r), s')"
    and "JState (heap (s_lib s') ! 0) = TerminatedByAPI"
proof -
  let ?h = "JobService_Stop_Handler mem_os (sample_ctx ''client1'')
    (State_Monad.return (Inr (id_request ''j1''))) (unary_of mem_os mem_gs) stop_state"
  obtain job j' w' where *: "Stop mem_os sample_lib 0 ''client1'' ''j1'' False mem_super = Some ((Inr job, j'), w')"
    and st: "JState (heap j' ! 0) = TerminatedByAPI"
    by (rule mem_stopped)
  have "\<exists>r s'. ?h = Some (Returned (Inr r), s') \<and> s_lib s' = j'"
    unfolding JobService_Stop_Handler_def sample_handler
    using * by (simp add: rpc_Stop_def with_client_def sample_info server_mem_run getter_defs
      stop_state_def id_request_def is_admin_def)
  with st that show ?thesis by blast
qed

end
