(* ===== verification/ServerRun.thy ===== *)
theory ServerRun
  imports Requests
begin

text \<open>
  A server at work: the handlers of \<open>Server\<close>, called one after the other by any clients, with the
  goroutines of the jobs ending in between.  Every such run is an execution of the interleaved
  library of \<open>JobsLibRun\<close>: each handler is a sequence of its steps, so the server keeps the library's
  invariants and refines the registry.
\<close>

section \<open>What a server does\<close>

definition quiet :: "('w server, 'r) state \<Rightarrow> bool" where
  "quiet dec \<longleftrightarrow> (\<forall>s r v. run_state dec s = (r, v) \<longrightarrow> s_lib v = s_lib s \<and> s_goroutines v = s_goroutines s)"

text \<open>
  The request is decoded by the gRPC library, which does not know the jobs (\<open>quiet\<close>); identifiers do
  not repeat.  The stream handler reads the library and works on the world.
\<close>

lemma return_quiet [simp]: "quiet (State_Monad.return x)"
  by (simp add: quiet_def go_run)

inductive server_step :: "'w os \<Rightarrow> 'c grpc_server \<Rightarrow> 'w server \<Rightarrow> 'w server \<Rightarrow> bool" for os gs where
  serve_Start: "server_step os gs s s'"
    if "quiet dec" and "JobService_Start_Handler os ctx dec (unary_of os gs) s = Some (r, s')"
      and "\<forall>reply. r = Returned (Inr reply) \<longrightarrow> jobs (s_lib s) (f_JobID reply) = None"
| serve_Stop: "server_step os gs s s'"
    if "quiet dec" and "JobService_Stop_Handler os ctx dec (unary_of os gs) s = Some (r, s')"
| serve_Status: "server_step os gs s s'"
    if "quiet dec" and "JobService_Status_Handler os ctx dec (unary_of os gs) s = Some (r, s')"
| serve_Stream: "server_step os gs s (s\<lparr>s_world := w'\<rparr>)"
    if "serve_stream os st nt gs (s_lib s) recv_req ss (s_world s) = Some (r, w')"
| job_ends: "server_step os gs s (s\<lparr>s_lib := j', s_world := w2, s_goroutines := remove1 (a, pid) (s_goroutines s)\<rparr>)"
    if "(a, pid) \<in> set (s_goroutines s)"
      and "run_state (wait_job os (ID (heap (s_lib s) ! a)) (ClientName (heap (s_lib s) ! a)) pid) (s_world s) = (oc, w1)"
      and "run_state (finish_job os (s_lib s) a oc) w1 = (j', w2)"
| elsewhere: "server_step os gs s (s\<lparr>s_world := w'\<rparr>)"

section \<open>The system a server is\<close>

text \<open>No call is under way between two steps of the server.\<close>

definition idle :: "'w server \<Rightarrow> reply list \<Rightarrow> 'w system" where
  "idle s rs = \<lparr>lib = s_lib s, world = s_world s, launched = [], waiting = s_goroutines s, finishing = [],
     stopping = [], mutex = None, replies = rs\<rparr>"

definition runs :: "'w os \<Rightarrow> 'w server \<Rightarrow> 'w server \<Rightarrow> bool" where
  "runs os s s' \<longleftrightarrow> (\<forall>rs. \<exists>rs'. (lib_step os)\<^sup>*\<^sup>* (idle s rs) (idle s' rs'))"

lemma runs_trans: "runs os s t \<Longrightarrow> runs os t u \<Longrightarrow> runs os s u"
  unfolding runs_def by (meson rtranclp_trans)

lemma runs_world:
  assumes "s_lib s' = s_lib s" and "s_goroutines s' = s_goroutines s"
  shows "runs os s s'"
proof -
  have "lib_step os (idle s rs) (idle s' rs)" for rs
    using lib_step.environment [of os "idle s rs" "s_world s'"] assms by (simp add: idle_def)
  then show ?thesis unfolding runs_def by (meson r_into_rtranclp)
qed

text \<open>The poll of \<open>Stop\<close>, probe by probe.\<close>

lemma polls:
  assumes "wait_gone os pid w = Some w'"
  shows "\<forall>s sc. mutex s = Some sc \<and> stop_pid (lib s) sc = pid \<longrightarrow>
    (\<exists>perr v. (lib_step os)\<^sup>*\<^sup>* (s\<lparr>world := w\<rparr>) (s\<lparr>world := v\<rparr>) \<and> run_state (sig_probe os pid) v = (Some perr, w'))"
  using assms
proof (rule wait_gone.raw_induct [where P = "\<lambda>os pid w w'. \<forall>s sc. mutex s = Some sc \<and> stop_pid (lib s) sc = pid \<longrightarrow>
    (\<exists>perr v. (lib_step os)\<^sup>*\<^sup>* (s\<lparr>world := w\<rparr>) (s\<lparr>world := v\<rparr>) \<and> run_state (sig_probe os pid) v = (Some perr, w'))",
    rotated])
  fix f and os :: "'a os" and pid w w'
  assume IH: "\<And>os pid w r. f os pid w = Some r \<Longrightarrow> \<forall>s sc. mutex s = Some sc \<and> stop_pid (lib s) sc = pid \<longrightarrow>
      (\<exists>perr v. (lib_step os)\<^sup>*\<^sup>* (s\<lparr>world := w\<rparr>) (s\<lparr>world := v\<rparr>) \<and> run_state (sig_probe os pid) v = (Some perr, r))"
    and eq: "(case run_state (sig_probe os pid) w of
        (None, w') \<Rightarrow> f os pid (snd (run_state (sleep_ms os 10) w')) | (Some perr, w') \<Rightarrow> Some w') = Some w'"
  show "\<forall>s sc. mutex s = Some sc \<and> stop_pid (lib s) sc = pid \<longrightarrow>
    (\<exists>perr v. (lib_step os)\<^sup>*\<^sup>* (s\<lparr>world := w\<rparr>) (s\<lparr>world := v\<rparr>) \<and> run_state (sig_probe os pid) v = (Some perr, w'))"
  proof (intro allI impI)
    fix s :: "'a system" and sc
    assume m: "mutex s = Some sc \<and> stop_pid (lib s) sc = pid"
    obtain e w1 where p: "run_state (sig_probe os pid) w = (e, w1)" by fastforce
    show "\<exists>perr v. (lib_step os)\<^sup>*\<^sup>* (s\<lparr>world := w\<rparr>) (s\<lparr>world := v\<rparr>) \<and> run_state (sig_probe os pid) v = (Some perr, w')"
    proof (cases e)
      case None
      let ?u = "snd (run_state (sleep_ms os 10) w1)"
      have "f os pid ?u = Some w'" using eq p None by simp
      with IH m obtain perr v where v: "(lib_step os)\<^sup>*\<^sup>* (s\<lparr>world := ?u\<rparr>) (s\<lparr>world := v\<rparr>)"
        "run_state (sig_probe os pid) v = (Some perr, w')" by blast
      have "lib_step os (s\<lparr>world := w\<rparr>) (s\<lparr>world := ?u\<rparr>)"
        using lib_step.stop_poll [of "s\<lparr>world := w\<rparr>" sc os w1] m p None by simp
      with v show ?thesis by (meson converse_rtranclp_into_rtranclp)
    next
      case (Some perr)
      with eq p have "run_state (sig_probe os pid) w = (Some perr, w')" by simp
      then show ?thesis by (meson rtranclp.rtrancl_refl)
    qed
  qed
qed

lemma runs_Start:
  assumes run: "run_state (Start os (s_lib s) ctx c cmd args) (s_world s) = ((Inr i, j', g), w')"
    and new: "jobs (s_lib s) i = None"
  shows "runs os s (s\<lparr>s_lib := j', s_world := w', s_goroutines := (case g of None \<Rightarrow> [] | Some x \<Rightarrow> [x]) @ s_goroutines s\<rparr>)"
proof -
  obtain st w1 where u: "run_state (Start_unlocked os (outputDir (s_lib s)) (ioDevMajorMinor (s_lib s)) ctx c cmd args)
      (s_world s) = (Inr st, w1)"
    and r: "i = ID (st_job st)" "j' = Start_locked (s_lib s) (st_job st)" "g = Some (length (heap (s_lib s)), st_pid st)"
    using run by (auto simp: Start_def go_run Let_def split: go_split)
  have "(lib_step os)\<^sup>*\<^sup>* (idle s rs) (idle (s\<lparr>s_lib := j', s_world := w',
      s_goroutines := (case g of None \<Rightarrow> [] | Some x \<Rightarrow> [x]) @ s_goroutines s\<rparr>) (Started i # rs))" for rs
  proof -
    let ?y = "idle s rs"
    let ?y1 = "?y\<lparr>world := w1, launched := st # launched ?y\<rparr>"
    let ?y2 = "?y1\<lparr>lib := Start_locked (lib ?y1) (st_job st), launched := remove1 st (launched ?y1),
      waiting := (length (heap (lib ?y1)), st_pid st) # waiting ?y1, replies := Started (ID (st_job st)) # replies ?y1\<rparr>"
    have "lib_step os ?y ?y1"
      by (rule lib_step.start_call [where ctx = ctx and c = c and cmd = cmd and args = args])
        (use u new r in \<open>simp_all add: idle_def\<close>)
    moreover have "lib_step os ?y1 ?y2" by (rule lib_step.start_commit) (simp_all add: idle_def)
    moreover have "lib_step os ?y2 (?y2\<lparr>world := w'\<rparr>)" by (rule lib_step.environment)
    moreover have "?y2\<lparr>world := w'\<rparr> = idle (s\<lparr>s_lib := j', s_world := w',
      s_goroutines := (case g of None \<Rightarrow> [] | Some x \<Rightarrow> [x]) @ s_goroutines s\<rparr>) (Started i # rs)"
      using r by (simp add: idle_def)
    ultimately show ?thesis by (metis (no_types, lifting) converse_rtranclp_into_rtranclp rtranclp.rtrancl_refl)
  qed
  then show ?thesis unfolding runs_def by blast
qed

lemma runs_Stop:
  assumes run: "Stop os (s_lib s) ctx c i ovr (s_world s) = Some ((r, j'), w')"
  shows "runs os s (s\<lparr>s_lib := j', s_world := w'\<rparr>)"
proof -
  obtain x w1 where u: "run_state (Stop_unlocked os (s_lib s) ctx c i ovr) (s_world s) = (x, w1)" by fastforce
  show ?thesis
  proof (cases x)
    case (Inl e)
    with run u show ?thesis by (intro runs_world) (simp_all add: Stop_def)
  next
    case (Inr p)
    obtain a retval where p: "p = (a, retval)" by fastforce
    let ?sc = "\<lparr>sc_client = c, sc_jobID = i, sc_override = ovr, sc_job = a, sc_retval = retval\<rparr>"
    let ?enter = "Stop_enter os (s_lib s) c i ovr a retval"
    obtain q w2 where q: "run_state ?enter w1 = (q, w2)" by fastforce
    have l: "Stop_locked os (s_lib s) c i ovr a retval w1 = Some ((r, j'), w')"
      using run u Inr p by (simp add: Stop_def)
    have "\<exists>rs'. (lib_step os)\<^sup>*\<^sup>* (idle s rs) (idle (s\<lparr>s_lib := j', s_world := w'\<rparr>) rs')" for rs
    proof -
      let ?y = "idle s rs"
      let ?y1 = "?y\<lparr>world := w1, stopping := ?sc # stopping ?y\<rparr>"
      have s1: "lib_step os ?y ?y1"
        by (rule lib_step.stop_call [where ctx = ctx]) (use u Inr p in \<open>simp_all add: idle_def\<close>)
      show ?thesis
      proof (cases q)
        case (Some r0)
        then have r: "r0 = r" "j' = s_lib s" "w' = w2" using l q by (simp_all add: Stop_locked_def)
        let ?y2 = "?y1\<lparr>world := w2, stopping := remove1 ?sc (stopping ?y1), replies := reply_of r0 @ replies ?y1\<rparr>"
        have "lib_step os ?y1 ?y2" by (rule lib_step.stop_return) (use q Some in \<open>simp_all add: idle_def\<close>)
        moreover have "?y2 = idle (s\<lparr>s_lib := j', s_world := w'\<rparr>) (reply_of r0 @ rs)"
          using r by (simp add: idle_def)
        ultimately show ?thesis using s1
          by (metis (no_types, lifting) converse_rtranclp_into_rtranclp rtranclp.rtrancl_refl)
      next
        case None
        then obtain w3 where g: "wait_gone os (sint (PID (heap (s_lib s) ! a))) w2 = Some w3"
          and m: "run_state (Stop_mark os (s_lib s) c i a retval) w3 = ((r, j'), w')"
          using l q by (auto simp: Stop_locked_def split: option.splits)
        let ?y2 = "?y1\<lparr>world := w2, stopping := remove1 ?sc (stopping ?y1), mutex := Some ?sc\<rparr>"
        have s2: "lib_step os ?y1 ?y2" by (rule lib_step.stop_enter) (use q None in \<open>simp_all add: idle_def\<close>)
        obtain perr v where v: "(lib_step os)\<^sup>*\<^sup>* (?y2\<lparr>world := w2\<rparr>) (?y2\<lparr>world := v\<rparr>)"
          and pr: "run_state (sig_probe os (sint (PID (heap (s_lib s) ! a)))) v = (Some perr, w3)"
          using polls [OF g, rule_format, of ?y2 ?sc] by (auto simp: idle_def)
        let ?y3 = "?y2\<lparr>world := v\<rparr>"
        let ?y4 = "?y3\<lparr>lib := j', world := w', mutex := None, replies := reply_of r @ replies ?y3\<rparr>"
        have s4: "lib_step os ?y3 ?y4"
          by (rule lib_step.stop_done [where perr = perr and sc = ?sc]) (use pr m in \<open>simp_all add: idle_def\<close>)
        have "?y4 = idle (s\<lparr>s_lib := j', s_world := w'\<rparr>) (reply_of r @ rs)" by (simp add: idle_def)
        moreover have "?y2\<lparr>world := w2\<rparr> = ?y2" by simp
        ultimately have "(lib_step os)\<^sup>*\<^sup>* ?y (idle (s\<lparr>s_lib := j', s_world := w'\<rparr>) (reply_of r @ rs))"
          using s1 s2 v s4
          by (metis (no_types, lifting) converse_rtranclp_into_rtranclp rtranclp.rtrancl_into_rtrancl)
        then show ?thesis by blast
      qed
    qed
    then show ?thesis unfolding runs_def by blast
  qed
qed

lemma runs_job_ends:
  assumes "(a, pid) \<in> set (s_goroutines s)"
    and "run_state (wait_job os (ID (heap (s_lib s) ! a)) (ClientName (heap (s_lib s) ! a)) pid) (s_world s) = (oc, w1)"
    and "run_state (finish_job os (s_lib s) a oc) w1 = (j', w2)"
  shows "runs os s (s\<lparr>s_lib := j', s_world := w2, s_goroutines := remove1 (a, pid) (s_goroutines s)\<rparr>)"
proof -
  have "(lib_step os)\<^sup>*\<^sup>* (idle s rs)
      (idle (s\<lparr>s_lib := j', s_world := w2, s_goroutines := remove1 (a, pid) (s_goroutines s)\<rparr>) rs)" for rs
  proof -
    let ?y = "idle s rs"
    let ?y1 = "?y\<lparr>world := w1, waiting := remove1 (a, pid) (waiting ?y), finishing := (a, oc) # finishing ?y\<rparr>"
    let ?y2 = "?y1\<lparr>lib := j', world := w2, finishing := remove1 (a, oc) (finishing ?y1)\<rparr>"
    have "lib_step os ?y ?y1" by (rule lib_step.wait_call) (use assms in \<open>simp_all add: idle_def\<close>)
    moreover have "lib_step os ?y1 ?y2" by (rule lib_step.finish_commit) (use assms in \<open>simp_all add: idle_def\<close>)
    moreover have "?y2 = idle (s\<lparr>s_lib := j', s_world := w2, s_goroutines := remove1 (a, pid) (s_goroutines s)\<rparr>) rs"
      by (simp add: idle_def)
    ultimately show ?thesis
      by (metis (no_types, lifting) converse_rtranclp_into_rtranclp rtranclp.rtrancl_refl)
  qed
  then show ?thesis unfolding runs_def by blast
qed

section \<open>Handlers\<close>

text \<open>A call goes through the interceptor and reaches the method, or the library is not touched.\<close>

lemma handler_cases:
  assumes "unary_handler method ctx dec (unary_of os gs) s = Some (r, s')" and q: "quiet dec"
  obtains "s_lib s' = s_lib s" and "s_goroutines s' = s_goroutines s"
  | ctx' inp s2 where "method ctx' inp s2 = Some (r, s')" and "s_lib s2 = s_lib s" and "s_goroutines s2 = s_goroutines s"
proof -
  obtain z s1 where d: "run_state dec s = (z, s1)" by fastforce
  then have l1: "s_lib s1 = s_lib s" "s_goroutines s1 = s_goroutines s" using q by (simp_all add: quiet_def)
  show ?thesis
  proof (cases z)
    case (Inl e)
    with assms d l1 that(1) show ?thesis by (simp add: unary_handler_def)
  next
    case (Inr m)
    show ?thesis
    proof (cases "gs_unary gs")
      case None
      with assms d Inr l1 that(2) show ?thesis by (simp add: unary_handler_def unary_of_def)
    next
      case (Some opt)
      obtain y s2 where y: "run_state (validateClient (server_os os) ctx) s1 = (y, s2)" by fastforce
      note l2 = validateClient_server [OF y]
      have "validateClientUnaryInterceptor (server_os os) ctx (Some m) (\<lambda>ctx req. method ctx req) s1 = Some (r, s')"
        using assms d Inr Some by (cases opt) (simp add: unary_handler_def unary_of_def)
      with y l1 l2 that show ?thesis
        by (cases y) (simp_all add: validateClientUnaryInterceptor_def)
    qed
  qed
qed

lemma with_client_cases:
  assumes "with_client (server_os os) ctx ret k s = Some (r, s')"
  obtains "s_lib s' = s_lib s" and "s_goroutines s' = s_goroutines s"
  | nm role s1 where "k nm role s1 = Some (r, s')" and "s_lib s1 = s_lib s" and "s_goroutines s1 = s_goroutines s"
proof -
  obtain e s1 where e: "run_state (ctx_err_of (server_os os) (ctx_id ctx)) s = (e, s1)" by fastforce
  note l = server_ctx_world [OF e]
  show ?thesis
    using assms e l that by (auto simp: with_client_def split: call.splits sum.splits option.splits)
qed

lemma runs_via:
  assumes "s_lib s1 = s_lib s" and "s_goroutines s1 = s_goroutines s" and "runs os s1 s'"
  shows "runs os s s'"
  using runs_trans [OF runs_world [OF assms(1,2)] assms(3)] .

lemma runs_rpc_Start:
  assumes "rpc_Start os ctx inp s = Some (r, s')"
    and "\<And>reply. r = Returned (Inr reply) \<Longrightarrow> jobs (s_lib s) (f_JobID reply) = None"
  shows "runs os s s'"
  using assms(1) unfolding rpc_Start_def
proof (cases rule: with_client_cases)
  case 1
  then show ?thesis by (intro runs_world) simp_all
next
  case (2 nm role s1)
  obtain q j g w where k: "run_state (Start os (s_lib s1) (ctx_id ctx) nm (GetCommand inp) (GetArgs inp)) (s_world s1) = ((q, j, g), w)"
    by (metis prod.exhaust)
  show ?thesis
  proof (cases q)
    case (Inl err)
    then have "j = s_lib s1" using k by (auto simp: Start_def go_run Let_def split: go_split)
    with 2 k Inl show ?thesis by (intro runs_world) auto
  next
    case (Inr i)
    with 2 k have s': "r = Returned (Inr \<lparr>f_JobID = i\<rparr>)" "s' = s1\<lparr>s_lib := j, s_world := w,
        s_goroutines := (case g of None \<Rightarrow> [] | Some x \<Rightarrow> [x]) @ s_goroutines s1\<rparr>" by simp_all
    then have "jobs (s_lib s1) i = None" using assms(2) 2 by auto
    from runs_Start [OF k [unfolded Inr] this] show ?thesis unfolding s' by (rule runs_via [OF 2(2,3)])
  qed
qed

lemma runs_rpc_Stop:
  assumes "rpc_Stop os ctx inp s = Some (r, s')"
  shows "runs os s s'"
  using assms unfolding rpc_Stop_def
proof (cases rule: with_client_cases)
  case 1
  then show ?thesis by (intro runs_world) simp_all
next
  case (2 nm role s1)
  then obtain q j w where k: "Stop os (s_lib s1) (ctx_id ctx) nm (GetJobID (GetJobIDRequest inp)) (is_admin os role) (s_world s1)
      = Some ((q, j), w)" and s': "s' = s1\<lparr>s_lib := j, s_world := w\<rparr>"
    by (auto simp: Let_def split: option.splits sum.splits prod.splits)
  show ?thesis unfolding s' by (rule runs_via [OF 2(2,3) runs_Stop [OF k]])
qed

lemma runs_rpc_Status:
  assumes "rpc_Status os ctx inp s = Some (r, s')"
  shows "runs os s s'"
  using assms unfolding rpc_Status_def
proof (cases rule: with_client_cases)
  case 1
  then show ?thesis by (intro runs_world) simp_all
next
  case (2 nm role s1)
  then show ?thesis by (intro runs_world) (auto simp: Let_def split: sum.splits prod.splits)
qed

lemma server_step_runs: "server_step os gs s s' \<Longrightarrow> runs os s s'"
proof (induction rule: server_step.induct)
  case (serve_Start dec ctx s r s')
  from serve_Start(2)[unfolded JobService_Start_Handler_def] serve_Start(1) show ?case
  proof (cases rule: handler_cases)
    case 1
    then show ?thesis by (intro runs_world) simp_all
  next
    case (2 ctx' inp s2)
    show ?thesis by (rule runs_via [OF 2(2,3) runs_rpc_Start [OF 2(1)]]) (use serve_Start(3) 2(2) in simp)
  qed
next
  case (serve_Stop dec ctx s r s')
  from serve_Stop(2)[unfolded JobService_Stop_Handler_def] serve_Stop(1) show ?case
  proof (cases rule: handler_cases)
    case 1
    then show ?thesis by (intro runs_world) simp_all
  next
    case (2 ctx' inp s2)
    show ?thesis by (rule runs_via [OF 2(2,3) runs_rpc_Stop [OF 2(1)]])
  qed
next
  case (serve_Status dec ctx s r s')
  from serve_Status(2)[unfolded JobService_Status_Handler_def] serve_Status(1) show ?case
  proof (cases rule: handler_cases)
    case 1
    then show ?thesis by (intro runs_world) simp_all
  next
    case (2 ctx' inp s2)
    show ?thesis by (rule runs_via [OF 2(2,3) runs_rpc_Status [OF 2(1)]])
  qed
next
  case job_ends
  then show ?case by (rule runs_job_ends)
qed (auto intro!: runs_world)

section \<open>A server from its creation\<close>

definition new_server :: "'c grpc_server \<Rightarrow> 'w \<Rightarrow> 'w server" where
  "new_server gs w = \<lparr>s_lib = gs_lib gs, s_world = w, s_goroutines = []\<rparr>"

lemma NewServer_lib:
  assumes "run_state (NewServer os tls ks sc) w = (Inr gs, w')"
  shows "jobs (gs_lib gs) = Map.empty" "heap (gs_lib gs) = []" "clientToJobID (gs_lib gs) = Map.empty"
  using assms by (auto simp: NewServer_def CreateJobsLib_def Let_def go_run split: go_split if_splits)

lemma lib_reachable_steps: "(lib_step os)\<^sup>*\<^sup>* s t \<Longrightarrow> lib_reachable os s \<Longrightarrow> lib_reachable os t"
  by (induction rule: rtranclp_induct) (auto intro: lib_reachable.step)

lemma new_server_init: "run_state (NewServer os tls ks sc) w = (Inr gs, w1) \<Longrightarrow> lib_init (idle (new_server gs w1) [])"
  using NewServer_lib by (fastforce simp: lib_init_def idle_def new_server_def)

lemma new_server_reachable:
  assumes "run_state (NewServer os tls ks sc) w = (Inr gs, w1)"
  shows "lib_reachable os (idle (new_server gs w1) [])"
  using NewServer_lib [OF assms] by (auto simp: idle_def new_server_def intro: lib_reachable.init)

lemma server_steps_run: "(server_step os gs)\<^sup>*\<^sup>* s t \<Longrightarrow> runs os s t"
proof (induction rule: rtranclp_induct)
  case base
  show ?case by (rule runs_world) simp_all
next
  case (step t u)
  then show ?case using server_step_runs runs_trans by blast
qed

lemma server_reachable:
  assumes "run_state (NewServer os tls ks sc) w = (Inr gs, w1)" and "(server_step os gs)\<^sup>*\<^sup>* (new_server gs w1) s"
  obtains rs where "(lib_step os)\<^sup>*\<^sup>* (idle (new_server gs w1) []) (idle s rs)" and "lib_reachable os (idle s rs)"
  using server_steps_run [OF assms(2)] new_server_reachable [OF assms(1)] lib_reachable_steps
  unfolding runs_def by blast

lemma server_registry:
  assumes "run_state (NewServer os tls ks sc) w = (Inr gs, w1)" and "(server_step os gs)\<^sup>*\<^sup>* (new_server gs w1) s"
  shows "store_inv (s_lib s)" "goroutine_inv (heap (s_lib s)) (map fst (s_goroutines s))"
    "\<forall>job \<in> set (heap (s_lib s)). well_formed job" "registry_next\<^sup>*\<^sup>* Map.empty (registry (s_lib s))"
proof -
  obtain rs where r: "(lib_step os)\<^sup>*\<^sup>* (idle (new_server gs w1) []) (idle s rs)" "lib_reachable os (idle s rs)"
    by (rule server_reachable [OF assms])
  from lib_reachable_inv [OF r(2)] show "store_inv (s_lib s)" "goroutine_inv (heap (s_lib s)) (map fst (s_goroutines s))"
    by (simp_all add: lib_inv_def sys_inv_def idle_def pending_def)
  from lib_reachable_typed [OF r(2)] show "\<forall>job \<in> set (heap (s_lib s)). well_formed job"
    by (simp add: typed_inv_def idle_def)
  from library.reachable [OF new_server_init [OF assms(1)] r(1)]
  show "registry_next\<^sup>*\<^sup>* Map.empty (registry (s_lib s))" by (simp add: idle_def)
qed

lemma server_job_evolves:
  assumes "run_state (NewServer os tls ks sc) w = (Inr gs, w1)" and "(server_step os gs)\<^sup>*\<^sup>* (new_server gs w1) s"
    and "(server_step os gs)\<^sup>*\<^sup>* s t" and "lookup_job (s_lib s) i = Some job"
  shows "\<exists>job'. lookup_job (s_lib t) i = Some job' \<and> job_evolves job job'"
proof -
  obtain rs where r: "lib_reachable os (idle s rs)" by (rule server_reachable [OF assms(1,2)])
  obtain rs' where st: "(lib_step os)\<^sup>*\<^sup>* (idle s rs) (idle t rs')"
    using server_steps_run [OF assms(3)] unfolding runs_def by blast
  obtain a where "jobs (s_lib s) i = Some a" "job = heap (s_lib s) ! a"
    using assms(4) by (auto simp: lookup_job_def)
  with lib_steps_object [OF st r, of i a] show ?thesis by (auto simp: lookup_job_def idle_def)
qed

text \<open>
  Property C3: a server is an execution of the interleaved library.  Whatever calls the server that
  \<open>NewServer\<close> made has answered, and whichever jobs have ended since, its library, world and goroutines
  are those of a reachable state of \<open>JobsLibRun\<close> in which no call is under way, and its registry is one
  that the abstract machine reaches from the empty one.
\<close>

theorem server_runs_library:
  assumes "run_state (NewServer os tls ks sc) w = (Inr gs, w1)" and "(server_step os gs)\<^sup>*\<^sup>* (new_server gs w1) s"
  shows "(\<exists>rs. lib_reachable os (idle s rs)) \<and> registry_next\<^sup>*\<^sup>* Map.empty (registry (s_lib s))"
  using server_reachable [OF assms] server_registry(4) [OF assms] by metis

text \<open>
  Property C4: the server keeps its books: at any time the identifiers, objects and lists of clients agree,
  each job is well formed, a running job has exactly one goroutine that will end it and a completed
  job has none.
\<close>

theorem server_keeps_invariants:
  assumes "run_state (NewServer os tls ks sc) w = (Inr gs, w1)" and "(server_step os gs)\<^sup>*\<^sup>* (new_server gs w1) s"
    and "jobs (s_lib s) i = Some a"
  shows "store_inv (s_lib s) \<and> ID (heap (s_lib s) ! a) = i \<and> well_formed (heap (s_lib s) ! a) \<and>
    (JState (heap (s_lib s) ! a) = Running \<longrightarrow> count_list (map fst (s_goroutines s)) a = 1) \<and>
    (JState (heap (s_lib s) ! a) = Completed \<longrightarrow> count_list (map fst (s_goroutines s)) a = 0)"
proof -
  note r = server_registry [OF assms(1,2)]
  note a = store_invD(1,2) [OF r(1) assms(3)]
  note g = goroutine_inv_D [OF r(2)]
  have "well_formed (heap (s_lib s) ! a)" using r(3) a(1) by simp
  moreover have "count_list (map fst (s_goroutines s)) a = 1" if "a \<in> set (map fst (s_goroutines s))"
    using g(1) that by (simp add: count_list_distinct)
  ultimately show ?thesis using r(1) a g(4,5) by (auto simp: count_list_0_iff)
qed

text \<open>The states of a job, as numbers of the wire, grow as the job evolves.\<close>

lemma pb_state_mono: "s \<le> t \<Longrightarrow> pb_state s \<le> pb_state t"
  by (cases s; cases t) (simp_all add: pb_state_def less_eq_JobState_def)

lemma pb_state_eq [simp]: "pb_state s = pb_state t \<longleftrightarrow> s = t"
  by (cases s; cases t) (simp_all add: pb_state_def)

lemma pb_states: "JOBSTATE_RUNNING = pb_state Running" "JOBSTATE_TERMINATED_BY_API = pb_state TerminatedByAPI"
  "JOBSTATE_COMPLETED = pb_state Completed"
  by (simp_all add: pb_state_def JOBSTATE_RUNNING_def JOBSTATE_TERMINATED_BY_API_def JOBSTATE_COMPLETED_def)

lemma served_Status_lookup:
  assumes "run_state (NewServer os tls ks sc) w0 = (Inr gs, w1)" and "unicode_ok (os_unicode os)"
    and "JobService_Status_Handler os ctx (State_Monad.return (Inr inp)) (unary_of os gs) s = Some (Returned (Inr reply), s')"
  shows "\<exists>job. lookup_job (s_lib s) (GetJobID (GetJobIDRequest (Some inp))) = Some job \<and>
    reply = job_response (GetJobIDRequest (Some inp)) job \<and> s_lib s' = s_lib s"
  using served_Status [OF NewServer_options(1) [OF assms(1)] assms(2,3)]
  by (auto simp: go_run may_access_def lookup_job_def)

text \<open>
  Property C13: what clients are told about a job only moves forward.  If the server answers a status request
  now and the same request, of the same or another client, at any later time, the second answer names
  the same owner, command, process and start, its state is not an earlier one, a job that was stopped
  stays stopped with the same end time, and the answer for a completed job does not change at all.
\<close>

theorem status_moves_forward:
  assumes "run_state (NewServer os tls ks sc) w0 = (Inr gs, w1)" and "unicode_ok (os_unicode os)"
    and "(server_step os gs)\<^sup>*\<^sup>* (new_server gs w1) s"
    and "JobService_Status_Handler os ctx (State_Monad.return (Inr inp)) (unary_of os gs) s = Some (Returned (Inr reply), s1)"
    and "(server_step os gs)\<^sup>*\<^sup>* s1 t"
    and "JobService_Status_Handler os ctx' (State_Monad.return (Inr inp)) (unary_of os gs) t = Some (Returned (Inr reply'), t1)"
  shows "GetClient (Some reply') = GetClient (Some reply) \<and> GetCmd (Some reply') = GetCmd (Some reply) \<and>
    GetPid (Some reply') = GetPid (Some reply) \<and> GetStarted (Some reply') = GetStarted (Some reply) \<and>
    GetState (Some reply) \<le> GetState (Some reply') \<and>
    (GetState (Some reply) = JOBSTATE_TERMINATED_BY_API \<longrightarrow>
       GetState (Some reply') = JOBSTATE_TERMINATED_BY_API \<and> GetEnded (Some reply') = GetEnded (Some reply)) \<and>
    (GetState (Some reply) = JOBSTATE_COMPLETED \<longrightarrow> reply' = reply)"
proof -
  obtain job where job: "lookup_job (s_lib s) (GetJobID (GetJobIDRequest (Some inp))) = Some job"
    "reply = job_response (GetJobIDRequest (Some inp)) job"
    using served_Status_lookup [OF assms(1,2,4)] by blast
  obtain job' where job': "lookup_job (s_lib t) (GetJobID (GetJobIDRequest (Some inp))) = Some job'"
    "reply' = job_response (GetJobIDRequest (Some inp)) job'"
    using served_Status_lookup [OF assms(1,2,6)] by blast
  from server_step.serve_Status [OF return_quiet assms(4)] assms(5) have "(server_step os gs)\<^sup>*\<^sup>* s t"
    by (rule converse_rtranclp_into_rtranclp)
  from server_job_evolves [OF assms(1,3) this job(1)] job'(1) have "job_evolves job job'" by auto
  then show ?thesis unfolding job(2) job'(2)
    by (auto simp: job_evolves_def same_constants_def job_response_def getter_defs pb_states pb_state_mono)
qed

section \<open>A run of the concrete server\<close>

text \<open>client1 starts a command on a new server, asks for its status, the job ends, client1 asks again.\<close>

abbreviation run_start :: "memw server" where
  "run_start \<equiv> new_server mem_gs (snd mem_new_server)"

definition run_request :: JobCreateRequest where
  "run_request = \<lparr>f_Command = ''ls'', f_Args = [''-l'']\<rparr>"

lemma run_started:
  obtains i s where "JobService_Start_Handler mem_os (sample_ctx ''client1'') (State_Monad.return (Inr run_request))
    (unary_of mem_os mem_gs) run_start = Some (Returned (Inr \<lparr>f_JobID = i\<rparr>), s)"
proof -
  let ?r = "run_state (Start mem_os (gs_lib mem_gs) 0 ''client1'' ''ls'' [''-l'']) (snd mem_new_server)"
  have "isl (fst (fst ?r)) = False" by code_simp
  then obtain i j g w where "?r = ((Inr i, j, g), w)"
    by (metis isl_def prod.collapse sum.exhaust)
  then have "\<exists>s. JobService_Start_Handler mem_os (sample_ctx ''client1'') (State_Monad.return (Inr run_request))
    (unary_of mem_os mem_gs) run_start = Some (Returned (Inr \<lparr>f_JobID = i\<rparr>), s)"
    unfolding JobService_Start_Handler_def sample_handler
    by (simp add: rpc_Start_def with_client_def sample_info server_mem_run getter_defs run_request_def new_server_def)
  then show ?thesis using that by blast
qed

lemma run_registered:
  obtains i s a pid where "JobService_Start_Handler mem_os (sample_ctx ''client1'') (State_Monad.return (Inr run_request))
      (unary_of mem_os mem_gs) run_start = Some (Returned (Inr \<lparr>f_JobID = i\<rparr>), s)"
    and "(server_step mem_os mem_gs)\<^sup>*\<^sup>* run_start s" and "i \<noteq> ''''"
    and "jobs (s_lib s) i = Some a" and "ClientName (heap (s_lib s) ! a) = ''client1''"
    and "JState (heap (s_lib s) ! a) = Running" and "s_goroutines s = [(a, pid)]" and "a < length (heap (s_lib s))"
proof -
  obtain i s where h: "JobService_Start_Handler mem_os (sample_ctx ''client1'') (State_Monad.return (Inr run_request))
    (unary_of mem_os mem_gs) run_start = Some (Returned (Inr \<lparr>f_JobID = i\<rparr>), s)"
    by (rule run_started)
  have e: "jobs (s_lib run_start) = Map.empty" "heap (s_lib run_start) = []" "s_goroutines run_start = []"
    using NewServer_lib [OF mem_gs_made] by (simp_all add: new_server_def)
  obtain nm role job pid where "authenticated (os_unicode mem_os) (sample_ctx ''client1'') nm role"
    "s_lib s = Start_locked (s_lib run_start) job" "ID job = i" "ClientName job = nm" "fresh_job job"
    "s_goroutines s = [(0, pid)]"
    using served_Start [OF NewServer_options(1) [OF mem_gs_made] mem_unicode_ok h] e by (auto simp: go_run)
  moreover from this have "nm = ''client1''" using authenticated_unique [OF sample_authenticated] by blast
  moreover have "server_step mem_os mem_gs run_start s"
    by (rule server_step.serve_Start [OF return_quiet h]) (simp add: e)
  ultimately show ?thesis using e h
    by (intro that [of i s 0 pid]) (auto simp: fresh_job_def Start_locked_def Let_def)
qed

theorem server_runs_library_witness:
  "\<exists>s i. (server_step mem_os mem_gs)\<^sup>*\<^sup>* run_start s \<and> registry (s_lib s) i = Some (''client1'', Running) \<and>
     registry_next\<^sup>*\<^sup>* Map.empty (registry (s_lib s))"
proof -
  obtain s i a where "(server_step mem_os mem_gs)\<^sup>*\<^sup>* run_start s" "jobs (s_lib s) i = Some a"
    "ClientName (heap (s_lib s) ! a) = ''client1''" "JState (heap (s_lib s) ! a) = Running"
    by (metis run_registered)
  with server_runs_library [OF mem_gs_made] show ?thesis by (fastforce simp: registry_def lookup_job_def)
qed

theorem server_keeps_invariants_witness:
  "\<exists>s a pid. (server_step mem_os mem_gs)\<^sup>*\<^sup>* run_start s \<and> s_goroutines s = [(a, pid)] \<and>
     store_inv (s_lib s) \<and> count_list (map fst (s_goroutines s)) a = 1"
proof -
  obtain s i a pid where "(server_step mem_os mem_gs)\<^sup>*\<^sup>* run_start s" "jobs (s_lib s) i = Some a"
    "JState (heap (s_lib s) ! a) = Running" "s_goroutines s = [(a, pid)]"
    by (metis run_registered)
  with server_keeps_invariants [OF mem_gs_made] show ?thesis by blast
qed

text \<open>The goroutine of a running job, on its own.\<close>

lemma run_ended:
  assumes "jobs (s_lib s) i = Some a" and "JState (heap (s_lib s) ! a) = Running" and "s_goroutines s = [(a, pid)]"
    and "a < length (heap (s_lib s))"
  obtains t where "server_step mem_os mem_gs s t" and "jobs (s_lib t) i = Some a"
    and "ClientName (heap (s_lib t) ! a) = ClientName (heap (s_lib s) ! a)" and "JState (heap (s_lib t) ! a) = Completed"
proof -
  obtain oc w1 where w: "run_state (wait_job mem_os (ID (heap (s_lib s) ! a)) (ClientName (heap (s_lib s) ! a)) pid) (s_world s) = (oc, w1)"
    by fastforce
  obtain j' w2 where f: "run_state (finish_job mem_os (s_lib s) a oc) w1 = (j', w2)" by fastforce
  let ?t = "s\<lparr>s_lib := j', s_world := w2, s_goroutines := remove1 (a, pid) (s_goroutines s)\<rparr>"
  have "server_step mem_os mem_gs s ?t" using assms(3) by (intro server_step.job_ends [OF _ w f]) simp
  moreover obtain t1 where "j' = (s_lib s)\<lparr>heap := (heap (s_lib s))[a :=
      (finish_fields oc (heap (s_lib s) ! a))\<lparr>JState := Completed, EndedUnixMilli := t1\<rparr>]\<rparr>"
    using finish_job_run [of mem_os "s_lib s" a oc w1] f assms(2) by (auto simp: Let_def)
  ultimately show ?thesis using assms by (intro that [of ?t]) (simp_all add: finish_fields_def)
qed

theorem status_moves_forward_witness:
  "\<exists>reply reply'. GetState (Some reply) = JOBSTATE_RUNNING \<and> GetState (Some reply') = JOBSTATE_COMPLETED \<and>
     GetPid (Some reply') = GetPid (Some reply)"
proof -
  obtain s i a pid where s: "(server_step mem_os mem_gs)\<^sup>*\<^sup>* run_start s" "i \<noteq> ''''" "jobs (s_lib s) i = Some a"
    "ClientName (heap (s_lib s) ! a) = ''client1''" "JState (heap (s_lib s) ! a) = Running"
    "s_goroutines s = [(a, pid)]" "a < length (heap (s_lib s))"
    by (rule run_registered)
  obtain t where t: "server_step mem_os mem_gs s t" "jobs (s_lib t) i = Some a"
    "ClientName (heap (s_lib t) ! a) = ''client1''" "JState (heap (s_lib t) ! a) = Completed"
    using run_ended [OF s(3,5,6,7)] s(4) by metis
  have st: "(server_step mem_os mem_gs)\<^sup>*\<^sup>* s t" using t(1) by simp
  note r = mem_Status_handled [OF s(3,4,2)] and r' = mem_Status_handled [OF t(2,3) s(2)]
  let ?reply = "job_response (Some \<lparr>f_JobID = i\<rparr>) (heap (s_lib s) ! a)"
  let ?reply' = "job_response (Some \<lparr>f_JobID = i\<rparr>) (heap (s_lib t) ! a)"
  have "GetPid (Some ?reply') = GetPid (Some ?reply)"
    using status_moves_forward [OF mem_gs_made mem_unicode_ok s(1) r st r'] by blast
  moreover have "GetState (Some ?reply) = JOBSTATE_RUNNING" "GetState (Some ?reply') = JOBSTATE_COMPLETED"
    using s(5) t(4) by (simp_all add: job_response_def getter_defs pb_states)
  ultimately show ?thesis by blast
qed

end
