(* ===== verification/Service.thy ===== *)
theory Service
  imports ServerRun
begin

text \<open>
  The service as a whole: the interface a service implements (\<open>JobServiceServer\<close>, with the defaults of
  \<open>UnimplementedJobServiceServer\<close>), the descriptor the generated code registers with the gRPC server
  (\<open>JobService_ServiceDesc\<close> of \<open>jobs_grpc.pb.go\<close>), the routing of a full method name to a handler, and a
  client and a server joined by a connection.
\<close>

section \<open>The service interface\<close>

text \<open>
  The Go interface \<open>JobServiceServer\<close>: the methods the generated handlers call.  The struct of the
  same name in \<open>api/server\<close> embeds \<open>UnimplementedJobServiceServer\<close>, whose methods it has unless it
  declares its own.
\<close>

record 'w service_methods =
  m_Start :: "request_ctx \<Rightarrow> JobCreateRequest option \<Rightarrow> ('w server, goerr + JobID) proc"
  m_Stop :: "request_ctx \<Rightarrow> JobIDRequest option \<Rightarrow> ('w server, goerr + JobResponse) proc"
  m_Status :: "request_ctx \<Rightarrow> JobIDRequest option \<Rightarrow> ('w server, goerr + JobResponse) proc"
  m_StreamOutput :: "JobsLib \<Rightarrow> JobIDRequest option \<Rightarrow> wrappedStream \<Rightarrow> ('w, goerr option) proc"

definition unimplemented :: "string \<Rightarrow> goerr" where
  "unimplemented name = StatusErr Unimplemented (''method '' @ name @ '' not implemented'')"

definition UnimplementedJobServiceServer :: "'w service_methods" where
  "UnimplementedJobServiceServer = \<lparr>
     m_Start = (\<lambda>ctx inp s. Some (Returned (Inl (unimplemented ''Start'')), s)),
     m_Stop = (\<lambda>ctx inp s. Some (Returned (Inl (unimplemented ''Stop'')), s)),
     m_Status = (\<lambda>ctx inp s. Some (Returned (Inl (unimplemented ''Status'')), s)),
     m_StreamOutput = (\<lambda>j inp ws w. Some (Returned (Some (unimplemented ''StreamOutput'')), w))\<rparr>"

definition JobServiceServer :: "'w os \<Rightarrow> 'w stream_ops \<Rightarrow> 'w notify \<Rightarrow> 'w service_methods" where
  "JobServiceServer os st nt = UnimplementedJobServiceServer\<lparr>
     m_Start := rpc_Start os, m_Stop := rpc_Stop os, m_Status := rpc_Status os,
     m_StreamOutput := rpc_StreamOutput os st nt\<rparr>"

text \<open>
  Fact: no method of the service is left unimplemented: what the generated handlers call is the method
  of the job server, for each of the four.
\<close>

theorem JobServiceServer_complete:
  "JobService_Start_Handler os = unary_handler (m_Start (JobServiceServer os st nt)) \<and>
   JobService_Stop_Handler os = unary_handler (m_Stop (JobServiceServer os st nt)) \<and>
   JobService_Status_Handler os = unary_handler (m_Status (JobServiceServer os st nt)) \<and>
   JobService_StreamOutput_Handler os st nt j recv ws w =
     (case run_state recv w of
        (Inl err, w) \<Rightarrow> Some (Returned (Some err), w)
      | (Inr m, w) \<Rightarrow> m_StreamOutput (JobServiceServer os st nt) j (Some m) ws w)"
  by (simp add: JobServiceServer_def JobService_Start_Handler_def JobService_Stop_Handler_def
      JobService_Status_Handler_def JobService_StreamOutput_Handler_def split: prod.split sum.split)

section \<open>The service descriptor\<close>

text \<open>
  What \<open>interface{}\<close> holds in the generated code: one of the two requests, one of the two replies.
  \<open>dec\<close> decodes the bytes of the request into the message the handler gives it, so it is one
  decoder for each type of message.
\<close>

datatype request_message = CreateMsg JobCreateRequest | IdMsg JobIDRequest
datatype reply_message = JobIDMsg JobID | JobResponseMsg JobResponse

record 's decoder =
  dec_create :: "('s, goerr + JobCreateRequest) state"
  dec_id :: "('s, goerr + JobIDRequest) state"

definition as_reply ::
  "('a \<Rightarrow> reply_message) \<Rightarrow> ((goerr + 'a) call \<times> 's) option \<Rightarrow> ((goerr + reply_message) call \<times> 's) option" where
  "as_reply msg = map_option (map_prod (map_call (map_sum id msg)) id)"

lemma as_reply_simps [simp]:
  "as_reply msg None = None"
  "as_reply msg (Some (Panicked, s)) = Some (Panicked, s)"
  "as_reply msg (Some (Returned (Inl e), s)) = Some (Returned (Inl e), s)"
  "as_reply msg (Some (Returned (Inr r), s)) = Some (Returned (Inr (msg r)), s)"
  by (simp_all add: as_reply_def)

lemma as_reply_cases:
  assumes "as_reply msg x = Some (Returned (Inr m), s)"
  obtains r where "x = Some (Returned (Inr r), s)" and "m = msg r"
proof (cases x)
  case None
  with assms show thesis by simp
next
  case (Some p)
  obtain c t where p: "p = (c, t)" by (cases p)
  show thesis
  proof (cases c)
    case (Returned y)
    with assms that Some p show thesis by (cases y) auto
  next
    case Panicked
    with assms Some p show thesis by simp
  qed
qed

lemma as_reply_inject [simp]:
  "as_reply JobIDMsg x = Some (Returned (Inr (JobIDMsg r)), s) \<longleftrightarrow> x = Some (Returned (Inr r), s)"
  "as_reply JobResponseMsg y = Some (Returned (Inr (JobResponseMsg q)), s) \<longleftrightarrow> y = Some (Returned (Inr q), s)"
  by (auto elim: as_reply_cases)

record 'w method_desc =
  MethodName :: string
  Handler :: "request_ctx \<Rightarrow> 'w server decoder \<Rightarrow> ('w server, goerr + reply_message) proc"

record 'w stream_desc =
  StreamName :: string
  StreamHandler :: "JobsLib \<Rightarrow> ('w, goerr + JobIDRequest) state \<Rightarrow> wrappedStream \<Rightarrow> ('w, goerr option) proc"
  ServerStreams :: bool

record 'w service_desc =
  ServiceName :: string
  Methods :: "'w method_desc list"
  Streams :: "'w stream_desc list"

text \<open>The server calls a handler with the unary interceptor of its options.\<close>

definition JobService_ServiceDesc ::
  "'w os \<Rightarrow> 'w stream_ops \<Rightarrow> 'w notify \<Rightarrow> 'c grpc_server \<Rightarrow> 'w service_desc" where
  "JobService_ServiceDesc os st nt gs = \<lparr>
     ServiceName = ''jobmaster.jobs.v1.JobService'',
     Methods =
       [\<lparr>MethodName = ''Start'', Handler = (\<lambda>ctx dec s.
           as_reply JobIDMsg (JobService_Start_Handler os ctx (dec_create dec) (unary_of os gs) s))\<rparr>,
        \<lparr>MethodName = ''Stop'', Handler = (\<lambda>ctx dec s.
           as_reply JobResponseMsg (JobService_Stop_Handler os ctx (dec_id dec) (unary_of os gs) s))\<rparr>,
        \<lparr>MethodName = ''Status'', Handler = (\<lambda>ctx dec s.
           as_reply JobResponseMsg (JobService_Status_Handler os ctx (dec_id dec) (unary_of os gs) s))\<rparr>],
     Streams =
       [\<lparr>StreamName = ''StreamOutput'', StreamHandler = JobService_StreamOutput_Handler os st nt,
         ServerStreams = True\<rparr>]\<rparr>"

text \<open>The full name of a method, and the method a full name stands for.\<close>

definition full_method :: "'w service_desc \<Rightarrow> string \<Rightarrow> string" where
  "full_method desc name = ''/'' @ ServiceName desc @ ''/'' @ name"

definition route :: "'w service_desc \<Rightarrow> string \<Rightarrow> 'w method_desc option" where
  "route desc m = find (\<lambda>md. m = full_method desc (MethodName md)) (Methods desc)"

lemma JobService_routes [simp]:
  "route (JobService_ServiceDesc os st nt gs) JobService_Start_FullMethodName =
     Some \<lparr>MethodName = ''Start'', Handler = (\<lambda>ctx dec s.
       as_reply JobIDMsg (JobService_Start_Handler os ctx (dec_create dec) (unary_of os gs) s))\<rparr>"
  "route (JobService_ServiceDesc os st nt gs) JobService_Stop_FullMethodName =
     Some \<lparr>MethodName = ''Stop'', Handler = (\<lambda>ctx dec s.
       as_reply JobResponseMsg (JobService_Stop_Handler os ctx (dec_id dec) (unary_of os gs) s))\<rparr>"
  "route (JobService_ServiceDesc os st nt gs) JobService_Status_FullMethodName =
     Some \<lparr>MethodName = ''Status'', Handler = (\<lambda>ctx dec s.
       as_reply JobResponseMsg (JobService_Status_Handler os ctx (dec_id dec) (unary_of os gs) s))\<rparr>"
  by (simp_all add: route_def full_method_def JobService_ServiceDesc_def JobService_Start_FullMethodName_def
      JobService_Stop_FullMethodName_def JobService_Status_FullMethodName_def)

text \<open>
  Fact: the client's stubs and the descriptor agree: each name a stub calls is the full name of one
  descriptor entry, the stream's included, and no two entries have the same full name.
\<close>

theorem stubs_match_descriptor:
  "map (full_method (JobService_ServiceDesc os st nt gs))
     (map MethodName (Methods (JobService_ServiceDesc os st nt gs)) @
      map StreamName (Streams (JobService_ServiceDesc os st nt gs)))
   = [JobService_Start_FullMethodName, JobService_Stop_FullMethodName, JobService_Status_FullMethodName,
      JobService_StreamOutput_FullMethodName] \<and>
   distinct [JobService_Start_FullMethodName, JobService_Stop_FullMethodName, JobService_Status_FullMethodName,
      JobService_StreamOutput_FullMethodName]"
  by (simp add: full_method_def JobService_ServiceDesc_def JobService_Start_FullMethodName_def
      JobService_Stop_FullMethodName_def JobService_Status_FullMethodName_def JobService_StreamOutput_FullMethodName_def)

section \<open>A client and its server\<close>

text \<open>
  The contract of a connection to a server: what a call returns to the client is what the handler the
  method name is routed to answered to the request sent, in the request's context; decoding gives
  the message that was sent; printing on the terminal appends to what is shown.
\<close>

locale deployment =
  fixes os :: "'w os" and gs :: "'c grpc_server" and desc :: "'w service_desc" and ctx :: request_ctx
    and cc :: "'k conn" and decode :: "request_message \<Rightarrow> 'w server decoder"
    and tm :: "'k terminal" and srv :: "'k \<Rightarrow> 'w server" and shown :: "'k \<Rightarrow> string"
  assumes service: "\<exists>st nt. desc = JobService_ServiceDesc os st nt gs"
    and guarded: "gs_unary gs = Some ValidateClientUnary"
    and unicode: "unicode_ok (os_unicode os)"
    and decode_id: "dec_id (decode (IdMsg req)) = State_Monad.return (Inr req)"
    and decode_create: "dec_create (decode (CreateMsg creq)) = State_Monad.return (Inr creq)"
    and id_call: "run_state (Invoke_id cc m req) k = (Inr resp, k') \<Longrightarrow>
      \<exists>md. route desc m = Some md \<and> shown k' = shown k \<and>
        Handler md ctx (decode (IdMsg req)) (srv k) = Some (Returned (Inr (JobResponseMsg resp)), srv k')"
    and create_call: "run_state (Invoke_create cc m creq) k = (Inr jid, k') \<Longrightarrow>
      \<exists>md. route desc m = Some md \<and> shown k' = shown k \<and>
        Handler md ctx (decode (CreateMsg creq)) (srv k) = Some (Returned (Inr (JobIDMsg jid)), srv k')"
    and prints: "srv (exec (Print tm s) k) = srv k \<and> shown (exec (Print tm s) k) = shown k @ s"
begin

lemma status_call:
  assumes "run_state (Invoke_id cc JobService_Status_FullMethodName req) k = (Inr resp, k')"
  shows "JobService_Status_Handler os ctx (State_Monad.return (Inr req)) (unary_of os gs) (srv k)
        = Some (Returned (Inr resp), srv k') \<and> shown k' = shown k"
  using id_call [OF assms] service by (auto simp: decode_id)

lemma stop_call:
  assumes "run_state (Invoke_id cc JobService_Stop_FullMethodName req) k = (Inr resp, k')"
  shows "JobService_Stop_Handler os ctx (State_Monad.return (Inr req)) (unary_of os gs) (srv k)
        = Some (Returned (Inr resp), srv k') \<and> shown k' = shown k"
  using id_call [OF assms] service by (auto simp: decode_id)

lemma start_call:
  assumes "run_state (Invoke_create cc JobService_Start_FullMethodName creq) k = (Inr jid, k')"
  shows "JobService_Start_Handler os ctx (State_Monad.return (Inr creq)) (unary_of os gs) (srv k)
        = Some (Returned (Inr jid), srv k') \<and> shown k' = shown k"
  using create_call [OF assms] service by (auto simp: decode_create)

lemma stop_shows:
  assumes "run_state (client_Stop tm cc jobID) k = (None, k')" and "store_inv (s_lib (srv k))"
  shows "\<exists>nm role owner st job. authenticated (os_unicode os) ctx nm role \<and> (role = Admin \<or> owner = nm) \<and>
    registry (s_lib (srv k)) jobID = Some (owner, st) \<and>
    registry (s_lib (srv k')) = (registry (s_lib (srv k)))(jobID \<mapsto> (owner, stopped_state st)) \<and>
    JState job = stopped_state st \<and> ClientName job = owner \<and>
    shown k' = shown k @ response_line tm (Some (job_response (Some \<lparr>f_JobID = jobID\<rparr>) job))"
proof -
  obtain resp k1 where c: "run_state (Invoke_id cc JobService_Stop_FullMethodName (id_request jobID)) k = (Inr resp, k1)"
    and k': "k' = exec (Print tm (response_line tm (Some resp))) k1"
    using assms by (auto simp: client_Stop_def stub_Stop_def exec_def go_run split: go_split)
  have p: "srv k' = srv k1" "shown k' = shown k @ response_line tm (Some resp)"
    using prints stop_call [OF c] by (simp_all add: k')
  have "\<forall>inp s1. run_state (State_Monad.return (Inr (id_request jobID)) :: ('w server, goerr + JobIDRequest) state)
      (srv k) = (Inr inp, s1) \<longrightarrow> store_inv (s_lib s1)"
    using assms(2) by (simp add: go_run)
  from served_Stop_ok [OF guarded unicode conjunct1 [OF stop_call [OF c]] this]
  obtain nm role owner st job where "authenticated (os_unicode os) ctx nm role" "role = Admin \<or> owner = nm"
    "registry (s_lib (srv k)) jobID = Some (owner, st)" "JState job = stopped_state st" "ClientName job = owner"
    "resp = job_response (Some \<lparr>f_JobID = jobID\<rparr>) job"
    "registry (s_lib (srv k1)) = (registry (s_lib (srv k)))(jobID \<mapsto> (owner, stopped_state st))"
    by (simp add: go_run id_request_def getter_defs) blast
  with p show ?thesis by metis
qed

lemma status_shows:
  assumes "run_state (client_Status tm cc jobID) k = (None, k')"
  shows "\<exists>nm role job. authenticated (os_unicode os) ctx nm role \<and>
    may_access (s_lib (srv k)) nm jobID (role = Admin) job \<and> s_lib (srv k') = s_lib (srv k) \<and>
    shown k' = shown k @ response_line tm (Some (job_response (Some \<lparr>f_JobID = jobID\<rparr>) job))"
proof -
  obtain resp k1 where c: "run_state (Invoke_id cc JobService_Status_FullMethodName (id_request jobID)) k = (Inr resp, k1)"
    and k': "k' = exec (Print tm (response_line tm (Some resp))) k1"
    using assms by (auto simp: client_Status_def stub_Status_def exec_def go_run split: go_split)
  have p: "srv k' = srv k1" "shown k' = shown k @ response_line tm (Some resp)"
    using prints status_call [OF c] by (simp_all add: k')
  obtain nm role job where "authenticated (os_unicode os) ctx nm role"
    "may_access (s_lib (srv k)) nm jobID (role = Admin) job"
    "resp = job_response (Some \<lparr>f_JobID = jobID\<rparr>) job" "s_lib (srv k1) = s_lib (srv k)"
    using served_Status [OF guarded unicode conjunct1 [OF status_call [OF c]]]
    by (auto simp: go_run id_request_def getter_defs)
  with p show ?thesis by auto
qed

lemma start_shows:
  assumes "run_state (client_Start tm cc command args) k = (None, k')"
  shows "\<exists>nm role job. authenticated (os_unicode os) ctx nm role \<and>
    s_lib (srv k') = Start_locked (s_lib (srv k)) job \<and> ClientName job = nm \<and> fresh_job job \<and>
    Command job = command \<and> CmdArgs job = args \<and> shown k' = shown k @ ID job @ newline"
proof -
  obtain jid k1 where c: "run_state (Invoke_create cc JobService_Start_FullMethodName \<lparr>f_Command = command, f_Args = args\<rparr>) k
      = (Inr jid, k1)"
    and k': "k' = exec (Print tm (f_JobID jid @ newline)) k1"
    using assms
    by (auto simp: client_Start_def stub_Start_def Println_def exec_def getter_defs go_run split: go_split)
  have p: "srv k' = srv k1" "shown k' = shown k @ f_JobID jid @ newline"
    using prints start_call [OF c] by (simp_all add: k')
  obtain role job where "authenticated (os_unicode os) ctx (ClientName job) role"
    "s_lib (srv k1) = Start_locked (s_lib (srv k)) job" "ID job = f_JobID jid" "fresh_job job"
    "Command job = command" "CmdArgs job = args"
    using served_Start [OF guarded unicode conjunct1 [OF start_call [OF c]]]
    by (auto simp: go_run getter_defs)
  with p show ?thesis by (intro exI [of _ "ClientName job"] exI [of _ role] exI [of _ job]) simp
qed

lemma start_steps:
  assumes "run_state (client_Start tm cc command args) k = (None, k')"
    and "shown k' = shown k @ i @ newline" and "jobs (s_lib (srv k)) i = None"
  shows "server_step os gs (srv k) (srv k')"
proof -
  obtain jid k1 where c: "run_state (Invoke_create cc JobService_Start_FullMethodName \<lparr>f_Command = command, f_Args = args\<rparr>) k
      = (Inr jid, k1)"
    and k': "k' = exec (Print tm (f_JobID jid @ newline)) k1"
    using assms(1)
    by (auto simp: client_Start_def stub_Start_def Println_def exec_def getter_defs go_run split: go_split)
  have "srv k' = srv k1" and "f_JobID jid = i"
    using prints start_call [OF c] assms(2) by (simp_all add: k')
  with server_step.serve_Start [OF return_quiet conjunct1 [OF start_call [OF c]]] assms(3) show ?thesis by simp
qed

end

text \<open>A connection that calls the handlers directly, and a terminal that keeps what is printed.\<close>

definition direct_decode :: "request_message \<Rightarrow> 's decoder" where
  "direct_decode m = (case m of
     CreateMsg r \<Rightarrow> \<lparr>dec_create = State_Monad.return (Inr r), dec_id = State_Monad.return (Inl (New ''wrong message''))\<rparr>
   | IdMsg r \<Rightarrow> \<lparr>dec_create = State_Monad.return (Inl (New ''wrong message'')), dec_id = State_Monad.return (Inr r)\<rparr>)"

definition direct_call ::
  "'w service_desc \<Rightarrow> request_ctx \<Rightarrow> string \<Rightarrow> request_message \<Rightarrow> 'w server \<Rightarrow> (goerr + reply_message) \<times> 'w server" where
  "direct_call desc ctx m msg s = (case route desc m of
     None \<Rightarrow> (Inl (StatusErr Unimplemented m), s)
   | Some md \<Rightarrow> (case Handler md ctx (direct_decode msg) s of
        Some (Returned x, s') \<Rightarrow> (x, s')
      | _ \<Rightarrow> (Inl (StatusErr Internal ''connection lost''), s)))"

definition direct_conn :: "'w service_desc \<Rightarrow> request_ctx \<Rightarrow> ('w server \<times> string) conn" where
  "direct_conn desc ctx = \<lparr>
     Invoke_create = (\<lambda>m r. State (\<lambda>(s, out). (case direct_call desc ctx m (CreateMsg r) s of
        (Inr (JobIDMsg j), s') \<Rightarrow> (Inr j, s', out)
      | (Inl e, s') \<Rightarrow> (Inl e, s', out)
      | (_, s') \<Rightarrow> (Inl (StatusErr Internal ''wrong message''), s', out)))),
     Invoke_id = (\<lambda>m r. State (\<lambda>(s, out). (case direct_call desc ctx m (IdMsg r) s of
        (Inr (JobResponseMsg j), s') \<Rightarrow> (Inr j, s', out)
      | (Inl e, s') \<Rightarrow> (Inl e, s', out)
      | (_, s') \<Rightarrow> (Inl (StatusErr Internal ''wrong message''), s', out)))),
     NewStream = (\<lambda>m. State_Monad.return (Inl (StatusErr Unimplemented m))),
     SendMsg = (\<lambda>s m. State_Monad.return None),
     CloseSend = (\<lambda>s. State_Monad.return None),
     RecvMsg = (\<lambda>s k. Some (Inl EOF, k)),
     conn_Close = State_Monad.return ()\<rparr>"

definition direct_terminal :: "(memw server \<times> string) terminal" where
  "direct_terminal = \<lparr>Print = (\<lambda>t. State (\<lambda>(s, out). ((), s, out @ t))),
     show_cmd = GetCommand, show_time = (\<lambda>t. '''')\<rparr>"

lemma direct_call_routed:
  "direct_call desc ctx m msg s = (Inr r, s') \<Longrightarrow>
     \<exists>md. route desc m = Some md \<and> Handler md ctx (direct_decode msg) s = Some (Returned (Inr r), s')"
  by (auto simp: direct_call_def split: option.splits call.splits prod.splits)

interpretation direct: deployment mem_os mem_gs "JobService_ServiceDesc mem_os st nt mem_gs" ctx
  "direct_conn (JobService_ServiceDesc mem_os st nt mem_gs) ctx" direct_decode direct_terminal fst snd
  for st nt ctx
  by unfold_locales
    (auto simp: NewServer_options(1) [OF mem_gs_made] direct_conn_def direct_terminal_def direct_decode_def
      exec_def dest!: direct_call_routed split: sum.splits prod.splits reply_message.splits)

text \<open>A connection of client1 to the concrete server; no file can be opened there.\<close>

definition no_files :: "'w stream_ops" where
  "no_files = \<lparr>
     OpenFile = (\<lambda>p. State_Monad.return (Inl (PathError ''open'' p ENOENT))),
     ReadAt = (\<lambda>fd n pos. State_Monad.return ('''', Some EOF)),
     Send = (\<lambda>h m. State_Monad.return None)\<rparr>"

definition no_events :: "'w notify" where
  "no_events = \<lparr>
     InotifyInit = State_Monad.return (Inl (New ''no inotify'')),
     InotifyAddWatch = (\<lambda>fd f m. State_Monad.return (Inr 1)),
     InotifyRmWatch = (\<lambda>fd wd. State_Monad.return ()),
     inotify_Read = (\<lambda>fd n w. None),
     WatcherLock_Lock = Some,
     WatcherLock_Unlock = State_Monad.return (),
     WatcherLock_TryLock = State_Monad.return True,
     Cv_Lock = Some,
     Cv_Unlock = State_Monad.return (),
     Cv_Wait = (\<lambda>w. None),
     Cv_Broadcast = State_Monad.return ()\<rparr>"

definition sample_conn :: "(memw server \<times> string) conn" where
  "sample_conn = direct_conn (JobService_ServiceDesc mem_os no_files no_events mem_gs) (sample_ctx ''client1'')"

lemma direct_print: "Print direct_terminal t = State (\<lambda>(s, out). ((), s, out @ t))"
  by (simp add: direct_terminal_def)

lemmas sample_call_defs = sample_conn_def direct_conn_def direct_call_def direct_decode_def direct_print Println_def

lemma direct_Start:
  assumes "JobService_Start_Handler mem_os (sample_ctx ''client1'') (State_Monad.return (Inr \<lparr>f_Command = cmd, f_Args = args\<rparr>))
     (unary_of mem_os mem_gs) s = Some (Returned (Inr \<lparr>f_JobID = i\<rparr>), s')" and "cmd \<noteq> ''''"
  shows "run_state (client_Start direct_terminal sample_conn cmd args) (s, out) = (None, (s', out @ i @ newline))"
  using assms by (simp add: client_Start_def stub_Start_def sample_call_defs go_run getter_defs)

lemma direct_Status:
  assumes "jobs (s_lib s) i = Some a" "ClientName (heap (s_lib s) ! a) = ''client1''" "i \<noteq> ''''"
  shows "run_state (client_Status direct_terminal sample_conn i) (s, out)
     = (None, (s, out @ response_line direct_terminal (Some (job_response (Some \<lparr>f_JobID = i\<rparr>) (heap (s_lib s) ! a)))))"
  using mem_Status_handled [OF assms] assms(3)
  by (simp add: client_Status_def stub_Status_def sample_call_defs go_run)

lemma direct_Stop:
  obtains k' where "run_state (client_Stop direct_terminal sample_conn ''j1'') (stop_state, '''') = (None, k')"
proof -
  obtain r s' where "JobService_Stop_Handler mem_os (sample_ctx ''client1'') (State_Monad.return (Inr (id_request ''j1'')))
     (unary_of mem_os mem_gs) stop_state = Some (Returned (Inr r), s')"
    by (rule mem_Stop_handled)
  then have "run_state (client_Stop direct_terminal sample_conn ''j1'') (stop_state, '''')
      = (None, s', response_line direct_terminal (Some r))"
    by (simp add: client_Stop_def stub_Stop_def sample_call_defs go_run)
  with that show ?thesis by blast
qed

lemma sample_deployment:
  "deployment mem_os mem_gs (JobService_ServiceDesc mem_os no_files no_events mem_gs) (sample_ctx ''client1'')
     sample_conn direct_decode direct_terminal fst snd"
  unfolding sample_conn_def by (rule direct.deployment_axioms)

end
