(* ===== verification/Command.thy ===== *)
theory Command
  imports Service
begin

text \<open>
  The client program as a whole: from its command line, over the connection it builds, to the library
  of the server.
\<close>

section \<open>The client program against a server\<close>

text \<open>
  The contract of what the client program finds: reading keys and dialling neither reach the job server
  nor print, a connection that could be made is a \<open>deployment\<close>, and closing it changes neither the
  server nor what is shown.
\<close>

locale client_program =
  fixes os :: "'w os" and gs :: "'c grpc_server" and desc :: "'w service_desc" and ctx :: request_ctx
    and decode :: "request_message \<Rightarrow> 'w server decoder" and tm :: "'k terminal" and srv :: "'k \<Rightarrow> 'w server"
    and shown :: "'k \<Rightarrow> string" and tls :: "('k, 'd) tls_ops"
    and dial :: "string \<Rightarrow> 'd tls_config \<Rightarrow> ('k, goerr + 'k conn) state"
  assumes load_key: "run_state (LoadX509KeyPair tls c f) k = (r, k') \<Longrightarrow> srv k' = srv k \<and> shown k' = shown k"
    and load_file: "run_state (ReadFile tls f) k = (q, k') \<Longrightarrow> srv k' = srv k \<and> shown k' = shown k"
    and dialled: "run_state (dial addr cfg) k = (z, k') \<Longrightarrow> srv k' = srv k \<and> shown k' = shown k"
    and connected: "run_state (dial addr cfg) k = (Inr cc, k') \<Longrightarrow> deployment os gs desc ctx cc decode tm srv shown"
    and closed: "run_state (dial addr cfg) k = (Inr cc, k') \<Longrightarrow>
      srv (exec (conn_Close cc) v) = srv v \<and> shown (exec (conn_Close cc) v) = shown v"
begin

lemma tls_quiet:
  "run_state (loadTLSConfigForClient tls cfg) k = (r, k') \<Longrightarrow> srv k' = srv k \<and> shown k' = shown k"
  using load_key load_file
  by (fastforce simp: loadTLSConfigForClient_def Let_def go_run split: go_split)

lemma NewClient_connected:
  assumes "run_state (NewClient tls dial cfg) k = (Inr cc, k')"
  shows "deployment os gs desc ctx cc decode tm srv shown" "srv k' = srv k" "shown k' = shown k"
    "srv (exec (conn_Close cc) v) = srv v" "shown (exec (conn_Close cc) v) = shown v"
proof -
  obtain c k1 where t: "run_state (loadTLSConfigForClient tls cfg) k = (Inr c, k1)"
    and d: "run_state (dial (c_ServerName cfg @ '':'' @ c_ServerPort cfg) c) k1 = (Inr cc, k')"
    using assms by (auto simp: NewClient_def Let_def go_run split: go_split if_splits)
  show "deployment os gs desc ctx cc decode tm srv shown" by (rule connected [OF d])
  show "srv k' = srv k" "shown k' = shown k" using dialled [OF d] tls_quiet [OF t] by simp_all
  show "srv (exec (conn_Close cc) v) = srv v" "shown (exec (conn_Close cc) v) = shown v" using closed [OF d] by simp_all
qed

text \<open>A run of the program that ends with a call made: the call, on a connection to the server.\<close>

lemma main_call:
  assumes "client_main u tm tls dial exe ab cargs k = Some (CallDone e, k')"
  obtains a cc k1 k2 myName where "parseCommandLineArgs u cargs = Inr a"
    and "deployment os gs desc ctx cc decode tm srv shown" and "srv k1 = srv k" and "shown k1 = shown k"
    and "run_operation tm myName cc a k1 = Some (CallDone e, k2)" and "srv k' = srv k2" and "shown k' = shown k2"
proof -
  obtain d a cc k1 k2 where ab: "ab certPathPrefixRel = Inr d" and p: "parseCommandLineArgs u cargs = Inr a"
    and n: "run_state (NewClient tls dial \<lparr>c_ClientName = clientName a, c_ClientCertPathPrefix = d,
        c_ServerName = serverName, c_ServerPort = serverPort,
        c_ServerCACertFile = filepath_Join [d, serverCACertFile]\<rparr>) k = (Inr cc, k1)"
    and o: "run_operation tm (filepath_Base (case exe of Inl err \<Rightarrow> ''client'' | Inr n \<Rightarrow> n)) cc a k1 = Some (CallDone e, k2)"
    and k': "k' = exec (conn_Close cc) k2"
    using assms by (auto simp: client_main_def Let_def split: sum.splits prod.splits option.splits)
  note c = NewClient_connected [OF n]
  show ?thesis by (rule that [OF p c(1,2,3) o]) (simp_all add: k' c(4,5))
qed

lemma main_starts:
  assumes run: "client_main u tm tls dial exe ab cargs k = Some (CallDone None, k')"
    and args: "cargs = flag # name # oper # command # args" and op: "ToLower u oper = ''start''"
  shows "\<exists>nm role job. authenticated (os_unicode os) ctx nm role \<and>
    s_lib (srv k') = Start_locked (s_lib (srv k)) job \<and> ClientName job = nm \<and> fresh_job job \<and>
    Command job = command \<and> CmdArgs job = args \<and> shown k' = shown k @ ID job @ newline"
proof -
  obtain a cc k1 k2 myName where p: "parseCommandLineArgs u cargs = Inr a"
    and d: "deployment os gs desc ctx cc decode tm srv shown" and k1: "srv k1 = srv k" "shown k1 = shown k"
    and o: "run_operation tm myName cc a k1 = Some (CallDone None, k2)" and k': "srv k' = srv k2" "shown k' = shown k2"
    by (rule main_call [OF run])
  have a: "operation a = ''start''" "opArg a = command" "additionalArgs a = args"
    using p op by (cases args; auto simp: args parseCommandLineArgs_def Let_def split: if_splits)+
  then have "run_state (client_Start tm cc command args) k1 = (None, k2)"
    using o by (auto simp: run_operation_def split: prod.splits)
  from deployment.start_shows [OF d this] show ?thesis using k1 k' by simp
qed

lemma main_stops:
  assumes run: "client_main u tm tls dial exe ab cargs k = Some (CallDone None, k')"
    and args: "cargs = flag # name # oper # i # rest" and op: "ToLower u oper = ''stop''"
    and inv: "store_inv (s_lib (srv k))"
  shows "\<exists>nm role owner st. authenticated (os_unicode os) ctx nm role \<and> (role = Admin \<or> owner = nm) \<and>
    registry (s_lib (srv k)) i = Some (owner, st) \<and>
    registry (s_lib (srv k')) = (registry (s_lib (srv k)))(i \<mapsto> (owner, stopped_state st))"
proof -
  obtain a cc k1 k2 myName where p: "parseCommandLineArgs u cargs = Inr a"
    and d: "deployment os gs desc ctx cc decode tm srv shown" and k1: "srv k1 = srv k" "shown k1 = shown k"
    and o: "run_operation tm myName cc a k1 = Some (CallDone None, k2)" and k': "srv k' = srv k2" "shown k' = shown k2"
    by (rule main_call [OF run])
  have a: "operation a = ''stop''" "opArg a = i"
    using p op by (cases rest; auto simp: args parseCommandLineArgs_def Let_def split: if_splits)+
  then have "run_state (client_Stop tm cc i) k1 = (None, k2)"
    using o by (auto simp: run_operation_def split: prod.splits)
  from deployment.stop_shows [OF d this] show ?thesis using k1 k' inv by (simp, blast)
qed

end

section \<open>A concrete run\<close>

definition quiet_tls :: "('k, nat) tls_ops" where
  "quiet_tls = \<lparr>LoadX509KeyPair = (\<lambda>c f. State_Monad.return (Inr 0)), ReadFile = (\<lambda>f. State_Monad.return (Inr ''pem'')),
     AppendCertsFromPEM = (\<lambda>d. True)\<rparr>"

definition sample_dial :: "string \<Rightarrow> nat tls_config \<Rightarrow> (memw server \<times> string, goerr + (memw server \<times> string) conn) state" where
  "sample_dial addr cfg = State_Monad.return (Inr sample_conn)"

lemma sample_dial_run: "run_state (sample_dial addr cfg) k = (Inr cc, k') \<Longrightarrow> cc = sample_conn \<and> k' = k"
  by (simp add: sample_dial_def go_run)

interpretation sample_program: client_program mem_os mem_gs "JobService_ServiceDesc mem_os no_files no_events mem_gs"
  "sample_ctx ''client1''" direct_decode direct_terminal fst snd quiet_tls sample_dial
proof (rule client_program.intro)
  fix addr cfg and k k' v :: "memw server \<times> string" and cc
  assume "run_state (sample_dial addr cfg) k = (Inr cc, k')"
  then have cc: "cc = sample_conn" using sample_dial_run by blast
  show "deployment mem_os mem_gs (JobService_ServiceDesc mem_os no_files no_events mem_gs) (sample_ctx ''client1'')
      cc direct_decode direct_terminal fst snd"
    unfolding cc by (rule sample_deployment)
  show "fst (exec (conn_Close cc) v) = fst v \<and> snd (exec (conn_Close cc) v) = snd v"
    by (simp add: cc sample_conn_def direct_conn_def exec_def go_run)
qed (auto simp: quiet_tls_def sample_dial_def go_run)

text \<open>\<open>client -n client1 Start ls -l\<close>, typed by client1.\<close>

definition sample_command :: "(client_end \<times> memw server \<times> string) option" where
  "sample_command = client_main mem_unicode direct_terminal quiet_tls sample_dial (Inr ''/usr/bin/client'')
     (\<lambda>p. Inr ''/opt/certs'') [''-n'', ''client1'', ''Start'', ''ls'', ''-l''] (start_state, '''')"

lemma sample_command_done: "sample_command = Some (CallDone None, started_state, ''job100'' @ newline)"
proof -
  have p: "parseCommandLineArgs mem_unicode [''-n'', ''client1'', ''Start'', ''ls'', ''-l'']
      = Inr \<lparr>clientName = ''client1'', operation = ''start'', opArg = ''ls'', additionalArgs = [''-l'']\<rparr>"
    by code_simp
  have n: "run_state (NewClient quiet_tls sample_dial \<lparr>c_ClientName = ''client1'', c_ClientCertPathPrefix = ''/opt/certs'',
      c_ServerName = serverName, c_ServerPort = serverPort, c_ServerCACertFile = filepath_Join [''/opt/certs'', serverCACertFile]\<rparr>) k
      = (Inr sample_conn, k)" for k
  proof -
    have "filepath_Join [''/opt/certs'', serverCACertFile] \<noteq> ''''" by code_simp
    then show ?thesis
      by (simp add: NewClient_def loadTLSConfigForClient_def quiet_tls_def sample_dial_def go_run serverName_def serverPort_def Let_def)
  qed
  have c: "exec (conn_Close sample_conn) v = v" for v
    by (simp add: sample_conn_def direct_conn_def exec_def go_run)
  show ?thesis
    using direct_Start [OF mem_Start_handled, of "''''"]
    by (simp add: sample_command_def client_main_def p n c run_operation_def Let_def)
qed

end
