(* ===== verification/StreamService.thy ===== *)
theory StreamService
  imports Service
begin

text \<open>
  The streaming call from end to end: a client that receives a stream, and the server whose handler
  sends it.
\<close>

section \<open>A streaming client and its server\<close>

text \<open>
  The contract of a stream between the two, on top of \<open>receiving\<close>: opening it sends the request to
  the server, whose stream interceptor and handler run on it; what then arrives at the client is what
  the handler sent before it ended without an error.  The library \<open>j\<close> and the files are the server's.
\<close>

locale stream_deployment = receiving tm cc stream pend shown
  for tm :: "'k terminal" and cc :: "'k conn" and stream :: int and pend :: "'k \<Rightarrow> string list"
    and shown :: "'k \<Rightarrow> string" +
  fixes os :: "'w os" and st :: "'w stream_ops" and nt :: "'w notify" and gs :: "'c grpc_server" and j :: JobsLib
    and ss :: server_stream and decode :: "JobIDRequest \<Rightarrow> ('w, goerr + JobIDRequest) state" and srv :: "'k \<Rightarrow> 'w"
    and fd :: "string \<Rightarrow> int" and content :: "string \<Rightarrow> 'w \<Rightarrow> string" and sent :: "'w \<Rightarrow> string"
  assumes guarded: "gs_stream gs = Some ValidateClientStream"
    and unicode: "unicode_ok (os_unicode os)"
    and grows: "growing_file os st nt path (fd path) (ss_handle ss) (content path) sent"
    and decode: "run_state (decode req) w = (r, v) \<Longrightarrow> sent v = sent w \<and> (\<forall>inp. r = Inr inp \<longrightarrow> inp = req)"
    and opens: "run_state (stub_StreamOutput cc req) k = (Inr stream, k1) \<Longrightarrow> shown k1 = shown k \<and>
      serve_stream os st nt gs j (decode req) ss (srv k) = Some (Returned None, srv k1) \<and>
      concat (pend k1) = sent (srv k1)"
begin

lemma stream_shows:
  assumes "run_state (stub_StreamOutput cc (id_request i)) k = (Inr stream, k1)" and "i \<noteq> ''''"
    and "sent (srv k) = ''''"
  shows "\<exists>chunks k'. client_StreamOutput tm cc i k = Some (None, k') \<and>
    shown k' = shown k @ concat (map (\<lambda>c. c @ newline) chunks) \<and>
    (concat chunks = '''' \<or> (\<exists>nm role job. authenticated (os_unicode os) (ss_ctx ss) nm role \<and>
       may_access j nm i (role = Admin) job \<and> prefix (concat chunks) (content (OutputFilePath job) (srv k1))))"
proof -
  obtain k' where "forever (recv_round tm cc stream) k1 = Some (None, k')"
    "shown k' = shown k1 @ concat (map (\<lambda>c. c @ newline) (pend k1))"
    using recv_loop [of k1] by blast
  moreover have o: "shown k1 = shown k" "concat (pend k1) = sent (srv k1)"
    and run: "serve_stream os st nt gs j (decode (id_request i)) ss (srv k) = Some (Returned None, srv k1)"
    using opens [OF assms(1)] by simp_all
  moreover have "sent (srv k1) = '''' \<or> (\<exists>nm role inp job. authenticated (os_unicode os) (ss_ctx ss) nm role \<and>
    (\<exists>u v. run_state (decode (id_request i)) u = (Inr inp, v)) \<and>
    may_access j nm (GetJobID (GetJobIDRequest (Some inp))) (role = Admin) job \<and>
    prefix (sent (srv k1)) (content (OutputFilePath job) (srv k1)))"
    by (rule served_stream [OF guarded unicode grows _ assms(3) run]) (use decode in blast)
  then have "sent (srv k1) = '''' \<or> (\<exists>nm role job. authenticated (os_unicode os) (ss_ctx ss) nm role \<and>
    may_access j nm i (role = Admin) job \<and> prefix (sent (srv k1)) (content (OutputFilePath job) (srv k1)))"
    using decode by (fastforce simp: id_request_def getter_defs)
  ultimately show ?thesis using assms(1,2)
    by (intro exI [of _ "pend k1"] exI [of _ k']) (simp add: client_StreamOutput_def)
qed

end

section \<open>A concrete stream\<close>

text \<open>A completed job of client1, streamed to client1.\<close>

definition ended_sample :: JobsLib where
  "ended_sample = sample_lib\<lparr>heap := [sample_job\<lparr>JState := Completed\<rparr>]\<rparr>"

lemma mem_serve_stream:
  "serve_stream stream_os mem_stream mem_locks mem_gs ended_sample (State_Monad.return (Inr (id_request ''j1'')))
     \<lparr>ss_handle = 0, ss_ctx = sample_ctx ''client1''\<rparr> (mem_streamw ''abc'')
   = Some (Returned None, mem_streamw ''abc''\<lparr>sw_sent := [''abc'']\<rparr>)"
proof -
  have u [simp]: "os_unicode stream_os = os_unicode mem_os" by (simp add: stream_os_def lift_os_def)
  have "ValidateClientFromTLSInfo (os_unicode mem_os) [sample_cert ''client1''] = Inr (''client1'', User)"
    by code_simp
  then have "run_state (validateClient stream_os (sample_ctx ''client1'')) w = (Inr (sample_admitted ''client1'' User), w)" for w
    by (simp add: validateClient_def go_run stream_run sample_ctx_def sample_admitted_def)
  moreover have "run_state (StreamOutputSetup stream_os ended_sample 0 ''client1'' ''j1'' ovr) w
      = (Inr (sample_job\<lparr>JState := Completed\<rparr>), w)" for w ovr
    by (simp add: StreamOutputSetup_def query_defs copy_Job_def go_run stream_run ended_sample_def sample_lib_def sample_job_def)
  moreover have "ClientInfoFromContext (os_unicode stream_os) (sample_admitted ''client1'' User) = Returned (Inr (''client1'', User))"
    using sample_info u by simp
  ultimately show ?thesis
    using mem_stream_job
    by (simp del: u add: serve_stream_def NewServer_options(2) [OF mem_gs_made] validateClientStreamInterceptor_def
        JobService_StreamOutput_Handler_def go_run rpc_StreamOutput_def with_client_def newWrappedStream_def
        stream_run getter_defs id_request_def Let_def)
qed

text \<open>The client's side: the server, the chunks that have arrived, and what is shown.\<close>

record stream_client =
  k_server :: streamw
  k_pending :: "string list"
  k_shown :: string

definition new_client :: "string \<Rightarrow> stream_client" where
  "new_client data = \<lparr>k_server = mem_streamw data, k_pending = [], k_shown = ''''\<rparr>"

definition stream_terminal :: "stream_client terminal" where
  "stream_terminal = \<lparr>Print = (\<lambda>s. State (\<lambda>k. ((), k\<lparr>k_shown := k_shown k @ s\<rparr>))),
     show_cmd = GetCommand, show_time = (\<lambda>t. '''')\<rparr>"

definition sample_stream_conn :: "stream_client conn" where
  "sample_stream_conn = \<lparr>
     Invoke_create = (\<lambda>m r. State_Monad.return (Inl (StatusErr Unimplemented m))),
     Invoke_id = (\<lambda>m r. State_Monad.return (Inl (StatusErr Unimplemented m))),
     NewStream = (\<lambda>m. State_Monad.return (Inr 1)),
     SendMsg = (\<lambda>s req. State (\<lambda>k.
       case serve_stream stream_os mem_stream mem_locks mem_gs ended_sample (State_Monad.return (Inr req))
           \<lparr>ss_handle = 0, ss_ctx = sample_ctx ''client1''\<rparr> (k_server k) of
         Some (Returned None, w) \<Rightarrow> (None, k\<lparr>k_server := w, k_pending := sw_sent w\<rparr>)
       | _ \<Rightarrow> (Some (StatusErr Internal ''stream broken''), k))),
     CloseSend = (\<lambda>s. State_Monad.return None),
     RecvMsg = (\<lambda>s k. case k_pending k of [] \<Rightarrow> Some (Inl EOF, k)
        | c # cs \<Rightarrow> Some (Inr \<lparr>f_Output = c\<rparr>, k\<lparr>k_pending := cs\<rparr>)),
     conn_Close = State_Monad.return ()\<rparr>"

interpretation sample_stream: stream_deployment stream_terminal sample_stream_conn 1 k_pending k_shown
  stream_os mem_stream mem_locks mem_gs ended_sample "\<lparr>ss_handle = 0, ss_ctx = sample_ctx ''client1''\<rparr>"
  "\<lambda>req. State_Monad.return (Inr req)" k_server "\<lambda>p. 7" "\<lambda>p. sw_file" "\<lambda>w. concat (sw_sent w)"
proof (rule stream_deployment.intro [OF _ stream_deployment_axioms.intro])
  show "receiving stream_terminal sample_stream_conn 1 k_pending k_shown"
    by unfold_locales (simp_all add: sample_stream_conn_def stream_terminal_def exec_def)
  show "gs_stream mem_gs = Some ValidateClientStream" by (rule NewServer_options(2) [OF mem_gs_made])
  show "unicode_ok (os_unicode stream_os)" by (simp add: stream_os_def lift_os_def)
  fix req k k1
  assume "run_state (stub_StreamOutput sample_stream_conn req) k = (Inr 1, k1)"
  then show "k_shown k1 = k_shown k \<and>
      serve_stream stream_os mem_stream mem_locks mem_gs ended_sample (State_Monad.return (Inr req))
        \<lparr>ss_handle = 0, ss_ctx = sample_ctx ''client1''\<rparr> (k_server k) = Some (Returned None, k_server k1) \<and>
      concat (k_pending k1) = concat (sw_sent (k_server k1))"
    by (auto simp: stub_StreamOutput_def sample_stream_conn_def go_run split: go_split option.splits call.splits)
next
  fix path
  show "growing_file stream_os mem_stream mem_locks path 7 (ss_handle \<lparr>ss_handle = 0, ss_ctx = sample_ctx ''client1''\<rparr>)
      sw_file (\<lambda>w. concat (sw_sent w))"
    by (rule mem_file.growing_file_axioms)
qed (auto simp: go_run)

lemma sample_opened:
  obtains k1 where "run_state (stub_StreamOutput sample_stream_conn (id_request ''j1'')) (new_client ''abc'') = (Inr 1, k1)"
    and "k_pending k1 = [''abc'']" and "k_shown k1 = ''''"
proof -
  have "run_state (stub_StreamOutput sample_stream_conn (id_request ''j1'')) (new_client ''abc'')
      = (Inr 1, (new_client ''abc'')\<lparr>k_server := mem_streamw ''abc''\<lparr>sw_sent := [''abc'']\<rparr>, k_pending := [''abc'']\<rparr>)"
    using mem_serve_stream by (simp add: stub_StreamOutput_def sample_stream_conn_def go_run new_client_def)
  then show ?thesis by (rule that) (simp_all add: new_client_def)
qed

end
