(* ===== verification/StreamSync.thy ===== *)
theory StreamSync
  imports Main
begin

text \<open>
  The locks between \<open>Watcher\<close> (\<open>jobslib/watcher.go\<close>) and the readers of running jobs
  (\<open>StreamOutput\<close> in \<open>api/server/server_impl.go\<close>).  There is one \<open>WatcherLock\<close> and one \<open>CvEvent\<close> for the
  whole library, shared by the watchers of all jobs and by all readers.

  Each watcher and each reader is a program counter; a step is one operation on a lock, the condition
  variable or the inotify queue.  The kernel puts an event into the queue of a watcher that has
  added its watch; a file is closed once, by the end of its job, and has no events afterwards.
  A read of the queue gives at most 100 events and blocks while there are none; that it fails is not
  modelled.  The data read and sent is the subject of theory \<open>ServerImpl\<close>; here a read just gives data or not.
\<close>

datatype thread = WatcherOf nat | Reader nat

datatype watcher_pc =
    W_Add            \<comment> \<open>before \<open>InotifyAddWatch\<close>\<close>
  | W_Lock           \<comment> \<open>before \<open>WatcherLock.Lock()\<close>\<close>
  | W_Top            \<comment> \<open>at the context check of the loop\<close>
  | W_CvLock         \<comment> \<open>before \<open>CvEvent.L.Lock()\<close>\<close>
  | W_Read           \<comment> \<open>in \<open>syscall.Read\<close>, under the lock\<close>
  | W_Scan bool      \<comment> \<open>processing the events; was the file closed?\<close>
  | W_Exit           \<comment> \<open>before the deferred \<open>WatcherLock.Unlock()\<close>\<close>
  | W_Final          \<comment> \<open>before the final broadcast\<close>
  | W_Done

datatype reader_pc =
    R_Top            \<comment> \<open>before \<open>CvEvent.L.Lock()\<close>\<close>
  | R_Try            \<comment> \<open>before \<open>WatcherLock.TryLock()\<close> of the inner loop\<close>
  | R_TryUnlock      \<comment> \<open>it succeeded\<close>
  | R_Waiting        \<comment> \<open>in \<open>CvEvent.Wait()\<close>\<close>
  | R_Woken          \<comment> \<open>woken, before the lock is taken again\<close>
  | R_ReadAt
  | R_CvUnlock
  | R_Eof            \<comment> \<open>before the \<open>TryLock\<close> after an EOF\<close>
  | R_EofUnlock
  | R_Done

record sync =
  wlock :: "thread option"
  cvlock :: "thread option"
  wpc :: "nat \<Rightarrow> watcher_pc"
  rpc :: "nat \<Rightarrow> reader_pc"
  events :: "nat \<Rightarrow> bool list"     \<comment> \<open>queue of a watch; is it the close?\<close>
  closed :: "nat \<Rightarrow> bool"          \<comment> \<open>the job has closed its output file\<close>
  canceled :: "nat \<Rightarrow> bool"        \<comment> \<open>the goroutine of the job has called \<open>wcancel\<close>\<close>

definition wake :: "(nat \<Rightarrow> reader_pc) \<Rightarrow> nat \<Rightarrow> reader_pc" where
  "wake f r = (if f r = R_Waiting then R_Woken else f r)"

inductive sync_step :: "sync \<Rightarrow> sync \<Rightarrow> bool" where
  w_add: "wpc s i = W_Add \<Longrightarrow> sync_step s (s\<lparr>wpc := (wpc s)(i := W_Lock), events := (events s)(i := [])\<rparr>)"
| w_fail: "wpc s i = W_Add \<Longrightarrow> sync_step s (s\<lparr>wpc := (wpc s)(i := W_Done)\<rparr>)"
| w_lock: "wpc s i = W_Lock \<Longrightarrow> wlock s = None \<Longrightarrow>
    sync_step s (s\<lparr>wpc := (wpc s)(i := W_Top), wlock := Some (WatcherOf i)\<rparr>)"
| w_canceled: "wpc s i = W_Top \<Longrightarrow> canceled s i \<Longrightarrow> sync_step s (s\<lparr>wpc := (wpc s)(i := W_Exit)\<rparr>)"
| w_live: "wpc s i = W_Top \<Longrightarrow> \<not> canceled s i \<Longrightarrow> sync_step s (s\<lparr>wpc := (wpc s)(i := W_CvLock)\<rparr>)"
| w_cvlock: "wpc s i = W_CvLock \<Longrightarrow> cvlock s = None \<Longrightarrow>
    sync_step s (s\<lparr>wpc := (wpc s)(i := W_Read), cvlock := Some (WatcherOf i)\<rparr>)"
| w_read: "wpc s i = W_Read \<Longrightarrow> events s i \<noteq> [] \<Longrightarrow>
    sync_step s (s\<lparr>wpc := (wpc s)(i := W_Scan (True \<in> set (take 100 (events s i)))), cvlock := None,
                   events := (events s)(i := drop 100 (events s i))\<rparr>)"
| w_broadcast: "wpc s i = W_Scan b \<Longrightarrow> sync_step s (s\<lparr>rpc := wake (rpc s)\<rparr>)"
| w_scan: "wpc s i = W_Scan b \<Longrightarrow>
    sync_step s (s\<lparr>wpc := (wpc s)(i := (if b then W_Exit else W_Top)), rpc := wake (rpc s)\<rparr>)"
| w_unlock: "wpc s i = W_Exit \<Longrightarrow> sync_step s (s\<lparr>wpc := (wpc s)(i := W_Final), wlock := None\<rparr>)"
| w_final: "wpc s i = W_Final \<Longrightarrow> sync_step s (s\<lparr>wpc := (wpc s)(i := W_Done), rpc := wake (rpc s)\<rparr>)"
| r_lock: "rpc s r = R_Top \<Longrightarrow> cvlock s = None \<Longrightarrow>
    sync_step s (s\<lparr>rpc := (rpc s)(r := R_Try), cvlock := Some (Reader r)\<rparr>)"
| r_leave: "rpc s r = R_Top \<Longrightarrow> sync_step s (s\<lparr>rpc := (rpc s)(r := R_Done)\<rparr>)"
| r_try: "rpc s r = R_Try \<Longrightarrow> wlock s = None \<Longrightarrow>
    sync_step s (s\<lparr>rpc := (rpc s)(r := R_TryUnlock), wlock := Some (Reader r)\<rparr>)"
| r_unlock: "rpc s r = R_TryUnlock \<Longrightarrow> sync_step s (s\<lparr>rpc := (rpc s)(r := R_CvUnlock), wlock := None\<rparr>)"
| r_wait: "rpc s r = R_Try \<Longrightarrow> wlock s \<noteq> None \<Longrightarrow>
    sync_step s (s\<lparr>rpc := (rpc s)(r := R_Waiting), cvlock := None\<rparr>)"
| r_woken: "rpc s r = R_Woken \<Longrightarrow> cvlock s = None \<Longrightarrow>
    sync_step s (s\<lparr>rpc := (rpc s)(r := R_ReadAt), cvlock := Some (Reader r)\<rparr>)"
| r_nodata: "rpc s r = R_ReadAt \<Longrightarrow> sync_step s (s\<lparr>rpc := (rpc s)(r := R_Try)\<rparr>)"
| r_data: "rpc s r = R_ReadAt \<Longrightarrow> sync_step s (s\<lparr>rpc := (rpc s)(r := R_CvUnlock)\<rparr>)"
| r_cvunlock: "rpc s r = R_CvUnlock \<Longrightarrow> pc \<in> {R_Top, R_Eof, R_Done} \<Longrightarrow>
    sync_step s (s\<lparr>rpc := (rpc s)(r := pc), cvlock := None\<rparr>)"
| r_eof: "rpc s r = R_Eof \<Longrightarrow> wlock s = None \<Longrightarrow>
    sync_step s (s\<lparr>rpc := (rpc s)(r := R_EofUnlock), wlock := Some (Reader r)\<rparr>)"
| r_eof_busy: "rpc s r = R_Eof \<Longrightarrow> wlock s \<noteq> None \<Longrightarrow> pc \<in> {R_Top, R_Done} \<Longrightarrow>
    sync_step s (s\<lparr>rpc := (rpc s)(r := pc)\<rparr>)"
| r_eof_unlock: "rpc s r = R_EofUnlock \<Longrightarrow> sync_step s (s\<lparr>rpc := (rpc s)(r := R_Done), wlock := None\<rparr>)"
| job_writes: "\<not> closed s i \<Longrightarrow>
    sync_step s (s\<lparr>events := (events s)(i := events s i @ (if wpc s i = W_Add then [] else [False]))\<rparr>)"
| job_closes: "\<not> closed s i \<Longrightarrow>
    sync_step s (s\<lparr>closed := (closed s)(i := True),
                   events := (events s)(i := events s i @ (if wpc s i = W_Add then [] else [True]))\<rparr>)"
| job_done: "sync_step s (s\<lparr>canceled := (canceled s)(i := True)\<rparr>)"

definition sync_init :: sync where
  "sync_init = \<lparr>wlock = None, cvlock = None, wpc = (\<lambda>i. W_Add), rpc = (\<lambda>r. R_Top),
     events = (\<lambda>i. []), closed = (\<lambda>i. False), canceled = (\<lambda>i. False)\<rparr>"

section \<open>The locks are consistent\<close>

text \<open>The program counters at which a thread is between the calls that take and release a lock.\<close>

fun watcher_w :: "watcher_pc \<Rightarrow> bool" where
  "watcher_w W_Top = True" | "watcher_w W_CvLock = True" | "watcher_w W_Read = True"
| "watcher_w (W_Scan b) = True" | "watcher_w W_Exit = True" | "watcher_w _ = False"

fun reader_w :: "reader_pc \<Rightarrow> bool" where
  "reader_w R_TryUnlock = True" | "reader_w R_EofUnlock = True" | "reader_w _ = False"

fun watcher_cv :: "watcher_pc \<Rightarrow> bool" where
  "watcher_cv W_Read = True" | "watcher_cv _ = False"

fun reader_cv :: "reader_pc \<Rightarrow> bool" where
  "reader_cv R_Try = True" | "reader_cv R_TryUnlock = True" | "reader_cv R_ReadAt = True"
| "reader_cv R_CvUnlock = True" | "reader_cv _ = False"

definition locks_ok :: "sync \<Rightarrow> bool" where
  "locks_ok s \<longleftrightarrow>
     (\<forall>i. watcher_w (wpc s i) \<longleftrightarrow> wlock s = Some (WatcherOf i)) \<and>
     (\<forall>r. reader_w (rpc s r) \<longleftrightarrow> wlock s = Some (Reader r)) \<and>
     (\<forall>i. watcher_cv (wpc s i) \<longleftrightarrow> cvlock s = Some (WatcherOf i)) \<and>
     (\<forall>r. reader_cv (rpc s r) \<longleftrightarrow> cvlock s = Some (Reader r))"

lemma wake_pcs [simp]:
  "reader_w (wake f r) = reader_w (f r)" "reader_cv (wake f r) = reader_cv (f r)"
  by (auto simp: wake_def)

lemma wpc_locks:
  "wpc s i = p \<Longrightarrow> locks_ok s \<Longrightarrow>
     (watcher_w p \<longleftrightarrow> wlock s = Some (WatcherOf i)) \<and> (watcher_cv p \<longleftrightarrow> cvlock s = Some (WatcherOf i))"
  by (auto simp: locks_ok_def)

lemma rpc_locks:
  "rpc s r = p \<Longrightarrow> locks_ok s \<Longrightarrow>
     (reader_w p \<longleftrightarrow> wlock s = Some (Reader r)) \<and> (reader_cv p \<longleftrightarrow> cvlock s = Some (Reader r))"
  by (auto simp: locks_ok_def)

lemma sync_step_locks: "sync_step s t \<Longrightarrow> locks_ok s \<Longrightarrow> locks_ok t"
  by (induction rule: sync_step.induct; (frule (1) wpc_locks | frule (1) rpc_locks)?;
      auto simp: locks_ok_def)

lemma sync_init_locks: "locks_ok sync_init"
  by (simp add: locks_ok_def sync_init_def)

lemma reachable_locks: "sync_step\<^sup>*\<^sup>* sync_init s \<Longrightarrow> locks_ok s"
  by (induction rule: rtranclp_induct) (auto intro: sync_step_locks sync_init_locks)

text \<open>
  Fact: at most one thread is between taking and releasing \<open>WatcherLock\<close>, and
  at most one between taking and releasing \<open>CvEvent.L\<close>, in every reachable state.
\<close>
theorem locks_exclusive:
  assumes "sync_step\<^sup>*\<^sup>* sync_init s"
  shows "(watcher_w (wpc s i) \<and> watcher_w (wpc s j) \<longrightarrow> i = j) \<and>
    (reader_w (rpc s r) \<and> reader_w (rpc s q) \<longrightarrow> r = q) \<and>
    \<not> (reader_w (rpc s r) \<and> watcher_w (wpc s i)) \<and>
    (watcher_cv (wpc s i) \<and> watcher_cv (wpc s j) \<longrightarrow> i = j) \<and>
    (reader_cv (rpc s r) \<and> reader_cv (rpc s q) \<longrightarrow> r = q) \<and>
    \<not> (reader_cv (rpc s r) \<and> watcher_cv (wpc s i))"
  using reachable_locks [OF assms] by (auto simp: locks_ok_def)

section \<open>Executions\<close>

lemma exec_to:
  "sync_step s t \<Longrightarrow> t = t' \<Longrightarrow> \<exists>u. sync_step\<^sup>*\<^sup>* t' u \<and> Q u \<Longrightarrow> \<exists>u. sync_step\<^sup>*\<^sup>* s u \<and> Q u"
  by (meson converse_rtranclp_into_rtranclp)

lemma exec_stop: "Q s \<Longrightarrow> \<exists>u. sync_step\<^sup>*\<^sup>* s u \<and> Q u"
  by blast

lemma wake_upd [simp]:
  "wake (f(r := p)) = (wake f)(r := (if p = R_Waiting then R_Woken else p))"
  by (auto simp: wake_def)

lemma wake_top [simp]: "wake (\<lambda>r. R_Top) = (\<lambda>r. R_Top)"
  by (auto simp: wake_def)

lemma locks_exclusive_witness:
  "\<exists>s. sync_step\<^sup>*\<^sup>* sync_init s \<and> watcher_w (wpc s 0) \<and> \<not> watcher_w (wpc s (Suc 0)) \<and> \<not> reader_w (rpc s 0)"
proof -
  have "\<exists>s. sync_step\<^sup>*\<^sup>* sync_init s \<and> watcher_w (wpc s 0)"
    unfolding sync_init_def
    by (rule exec_to [OF w_add [of _ 0]], simp, simp,
        rule exec_to [OF w_lock [of _ 0]], simp, simp, simp, rule exec_stop, simp)
  then obtain s where s: "sync_step\<^sup>*\<^sup>* sync_init s" "watcher_w (wpc s 0)" by blast
  with locks_exclusive [OF s(1), of 0 "Suc 0" 0 0] show ?thesis by auto
qed

section \<open>A watcher that waits for an event\<close>

text \<open>
  A watcher blocked in its read holds both locks.  Nothing but an event of its own file releases them.
\<close>

definition reads_nothing :: "nat \<Rightarrow> sync \<Rightarrow> bool" where
  "reads_nothing i s \<longleftrightarrow> locks_ok s \<and> wpc s i = W_Read \<and> events s i = [] \<and> closed s i"

lemma reads_nothing_locks:
  "reads_nothing i s \<Longrightarrow> wlock s = Some (WatcherOf i) \<and> cvlock s = Some (WatcherOf i)"
  using wpc_locks [of s i W_Read] by (auto simp: reads_nothing_def)

lemma quiet_step:
  "sync_step s t \<Longrightarrow> wpc s i = W_Read \<and> events s i = [] \<and> closed s i \<Longrightarrow>
     wpc t i = W_Read \<and> events t i = [] \<and> closed t i"
  by (induction rule: sync_step.induct) auto

lemma reads_nothing_step: "sync_step s t \<Longrightarrow> reads_nothing i s \<Longrightarrow> reads_nothing i t"
  using sync_step_locks [of s t] quiet_step [of s t i] by (auto simp: reads_nothing_def)

lemma reads_nothing_steps: "sync_step\<^sup>*\<^sup>* s t \<Longrightarrow> reads_nothing i s \<Longrightarrow> reads_nothing i t"
  by (induction rule: rtranclp_induct) (auto intro: reads_nothing_step)

text \<open>
  Property C21: once a watcher waits for events of a file that has been closed without one left in
  its queue, it waits forever with both locks: from then on no reader, of any job, is ever inside the
  part of its loop that reads the output, and no other watcher gets past \<open>WatcherLock.Lock\<close>.
\<close>
theorem closed_file_blocks_all_streams:
  assumes "sync_step\<^sup>*\<^sup>* sync_init s" "wpc s i = W_Read" "events s i = []" "closed s i"
    and "sync_step\<^sup>*\<^sup>* s t"
  shows "wpc t i = W_Read \<and> rpc t r \<in> {R_Top, R_Waiting, R_Woken, R_Eof, R_Done} \<and>
    (j \<noteq> i \<longrightarrow> wpc t j \<in> {W_Add, W_Lock, W_Final, W_Done})"
proof -
  have "reads_nothing i s" using assms reachable_locks by (auto simp: reads_nothing_def)
  then have t: "reads_nothing i t" using reads_nothing_steps assms(5) by blast
  then have l: "wlock t = Some (WatcherOf i)" "cvlock t = Some (WatcherOf i)" "locks_ok t"
    using reads_nothing_locks by (auto simp: reads_nothing_def)
  have "rpc t r \<in> {R_Top, R_Waiting, R_Woken, R_Eof, R_Done}"
    using l rpc_locks [of t r "rpc t r"] by (cases "rpc t r") auto
  moreover have "wpc t j \<in> {W_Add, W_Lock, W_Final, W_Done}" if "j \<noteq> i"
    using l that wpc_locks [of t j "wpc t j"] by (cases "wpc t j") auto
  ultimately show ?thesis using t by (simp add: reads_nothing_def)
qed

lemma job_closes_before_watch:
  "\<exists>s. sync_step\<^sup>*\<^sup>* sync_init s \<and> wpc s 0 = W_Read \<and> events s 0 = [] \<and> closed s 0"
  unfolding sync_init_def
  by (rule exec_to [OF job_closes [of _ 0]], simp, simp,
      rule exec_to [OF w_add [of _ 0]], simp, simp,
      rule exec_to [OF w_lock [of _ 0]], simp, simp, simp,
      rule exec_to [OF w_live [of _ 0]], simp, simp, simp,
      rule exec_to [OF w_cvlock [of _ 0]], simp, simp, simp,
      rule exec_stop, simp)

lemma closed_file_blocks_all_streams_witness:
  "\<exists>s. sync_step\<^sup>*\<^sup>* sync_init s \<and> closed s 0 \<and>
     (\<forall>t. sync_step\<^sup>*\<^sup>* s t \<longrightarrow> wpc t 0 = W_Read \<and> rpc t 1 \<noteq> R_ReadAt \<and> wpc t 2 \<noteq> W_Read)"
proof -
  obtain s where s: "sync_step\<^sup>*\<^sup>* sync_init s" "wpc s 0 = W_Read" "events s 0 = []" "closed s 0"
    using job_closes_before_watch by blast
  have "wpc t 0 = W_Read \<and> rpc t 1 \<noteq> R_ReadAt \<and> wpc t 2 \<noteq> W_Read" if "sync_step\<^sup>*\<^sup>* s t" for t
    using closed_file_blocks_all_streams [OF s that, of 1 2] by auto
  with s show ?thesis by blast
qed

section \<open>Wake-ups\<close>

text \<open>
  A reader waits only while somebody holds \<open>WatcherLock\<close>.  A watcher broadcasts before it
  is done; a reader that checks for the end of the output with \<open>TryLock\<close> does not.
\<close>

definition will_broadcast :: "watcher_pc \<Rightarrow> bool" where
  "will_broadcast p \<longleftrightarrow> watcher_w p \<or> p = W_Final"

definition eof_checked :: "reader_pc \<Rightarrow> bool" where
  "eof_checked p \<longleftrightarrow> p = R_EofUnlock \<or> p = R_Done"

definition wakers_ok :: "sync \<Rightarrow> bool" where
  "wakers_ok s \<longleftrightarrow> (\<forall>r. rpc s r = R_Waiting \<longrightarrow>
     (\<exists>i. will_broadcast (wpc s i)) \<or> (\<exists>q. eof_checked (rpc s q)))"

lemma will_broadcast_step:
  "sync_step s t \<Longrightarrow> will_broadcast (wpc s i) \<Longrightarrow> will_broadcast (wpc t i) \<or> (\<forall>r. rpc t r \<noteq> R_Waiting)"
  by (induction rule: sync_step.induct) (auto simp: will_broadcast_def wake_def)

lemma eof_checked_step: "sync_step s t \<Longrightarrow> eof_checked (rpc s q) \<Longrightarrow> eof_checked (rpc t q)"
  by (induction rule: sync_step.induct) (auto simp: eof_checked_def wake_def)

lemma waiting_step:
  "sync_step s t \<Longrightarrow> rpc t r = R_Waiting \<Longrightarrow> rpc s r = R_Waiting \<or> rpc s r = R_Try \<and> wlock s \<noteq> None"
  by (induction rule: sync_step.induct) (auto simp: wake_def split: if_splits)

lemma reader_w_cases: "reader_w p \<Longrightarrow> p = R_TryUnlock \<or> p = R_EofUnlock"
  by (cases p) auto

lemma waiting_needs_holder:
  assumes "locks_ok s" "wlock s \<noteq> None" "rpc s r = R_Try"
  shows "(\<exists>i. will_broadcast (wpc s i)) \<or> (\<exists>q. eof_checked (rpc s q))"
proof -
  obtain h where h: "wlock s = Some h" using assms by auto
  have cv: "cvlock s = Some (Reader r)" using rpc_locks [OF assms(3,1)] by simp
  show ?thesis
  proof (cases h)
    case (WatcherOf i)
    then show ?thesis using h wpc_locks [of s i "wpc s i"] assms(1) by (auto simp: will_broadcast_def)
  next
    case (Reader q)
    then have "reader_w (rpc s q)" using h rpc_locks [of s q "rpc s q"] assms(1) by auto
    moreover have "rpc s q \<noteq> R_TryUnlock"
      using cv assms(3) rpc_locks [of s q "R_TryUnlock"] assms(1) by auto
    ultimately show ?thesis using reader_w_cases by (auto simp: eof_checked_def)
  qed
qed

lemma wakers_ok_step:
  assumes "sync_step s t" "locks_ok s" "wakers_ok s" shows "wakers_ok t"
  unfolding wakers_ok_def
proof (intro allI impI)
  fix r assume r: "rpc t r = R_Waiting"
  have "(\<exists>i. will_broadcast (wpc s i)) \<or> (\<exists>q. eof_checked (rpc s q))"
    using waiting_step [OF assms(1) r] assms(2,3) waiting_needs_holder [of s r]
    by (auto simp: wakers_ok_def)
  then show "(\<exists>i. will_broadcast (wpc t i)) \<or> (\<exists>q. eof_checked (rpc t q))"
    using will_broadcast_step [OF assms(1)] eof_checked_step [OF assms(1)] r by blast
qed

lemma reachable_wakers: "sync_step\<^sup>*\<^sup>* sync_init s \<Longrightarrow> wakers_ok s"
proof (induction rule: rtranclp_induct)
  case base
  show ?case by (simp add: wakers_ok_def sync_init_def)
next
  case (step s t)
  then show ?case using wakers_ok_step reachable_locks by blast
qed


lemma reader_waits:
  "\<exists>s. sync_step\<^sup>*\<^sup>* sync_init s \<and> rpc s 0 = R_Waiting \<and> (\<forall>q. rpc s q \<notin> {R_EofUnlock, R_Done})"
  unfolding sync_init_def
  by (rule exec_to [OF w_add [of _ 0]], simp, simp,
      rule exec_to [OF w_lock [of _ 0]], simp, simp, simp,
      rule exec_to [OF r_lock [of _ 0]], simp, simp, simp,
      rule exec_to [OF r_wait [of _ 0]], simp, simp, simp,
      rule exec_stop, simp)


text \<open>
  Fact: a wake-up can be lost.  A reader that finds \<open>WatcherLock\<close> taken by another reader's
  check for the end of the output goes to wait, and that reader does not broadcast: there is an
  execution that leaves it waiting, with both locks free and no watcher that has still to broadcast.
\<close>
theorem wake_up_can_be_lost:
  "\<exists>s. sync_step\<^sup>*\<^sup>* sync_init s \<and> rpc s 1 = R_Waiting \<and> wlock s = None \<and> cvlock s = None \<and>
     (\<forall>i. wpc s i \<in> {W_Add, W_Done})"
  unfolding sync_init_def
  by (rule exec_to [OF w_add [of _ 0]], simp, simp,
      rule exec_to [OF w_lock [of _ 0]], simp, simp, simp,
      rule exec_to [OF r_lock [of _ 0]], simp, simp, simp,
      rule exec_to [OF r_wait [of _ 0]], simp, simp, simp,
      rule exec_to [OF job_done [of _ 0]], simp,
      rule exec_to [OF w_canceled [of _ 0]], simp, simp, simp,
      rule exec_to [OF w_unlock [of _ 0]], simp, simp,
      rule exec_to [OF w_final [of _ 0]], simp, simp,
      rule exec_to [OF r_woken [of _ 0]], simp, simp, simp,
      rule exec_to [OF r_data [of _ 0]], simp, simp,
      rule exec_to [OF r_cvunlock [of _ 0 R_Eof]], simp, simp, simp,
      rule exec_to [OF r_eof [of _ 0]], simp, simp, simp,
      rule exec_to [OF r_lock [of _ 1]], simp, simp, simp,
      rule exec_to [OF r_wait [of _ 1]], simp, simp, simp,
      rule exec_to [OF r_eof_unlock [of _ 0]], simp, simp,
      rule exec_stop, simp)

end
