(* ===== verification/Spec2Isabelle.thy ===== *)
theory Spec2Isabelle
  imports Command StreamService StreamSync
begin

text \<open>
  Jobmaster runs Linux commands for remote clients.  A server process (\<open>cmd/server\<close>, \<open>api/server\<close>)
  accepts gRPC calls over mutual TLS, finds out from the certificates who calls (\<open>api/authn\<close>,
  \<open>api/authz\<close>), and hands the call to a job library (\<open>jobslib\<close>) that starts each command in a cgroup
  of its own, keeps a record of it, and can stop it, report on it and stream its output.  A client
  process (\<open>cmd/client\<close>, \<open>api/client\<close>) makes the calls and prints the answers.

  \<^bold>\<open>The theories and what they model\<close>

  \<^item> \<open>GoBase\<close>, \<open>GoPath\<close>: what the sources use of Go (errors, \<open>strings\<close>, \<open>strconv\<close>, \<open>filepath\<close>); the
    state monad shapes of \<open>if err != nil\<close>; \<open>forever\<close>, the loop that may not end.
  \<^item> \<open>Kernel\<close>: the operating system as a parameter, one operation per call the library makes;
    \<open>MemKernel\<close>: a concrete one, at which witnesses are evaluated.
  \<^item> \<open>Job\<close> (\<open>jobslib/job.go\<close>), \<open>Cgroups\<close> (\<open>jobslib/cgroups.go\<close>).
  \<^item> \<open>JobsLib\<close> (\<open>jobslib/jobslib.go\<close>): the two maps and the job objects; every method, split where it
    takes the mutex.  \<open>JobsLibRun\<close>: the interleavings of calls and goroutines (\<open>lib_step\<close>), the mutex
    while \<open>Stop\<close> polls, and the replies given so far.
    \<open>Registry\<close>: the abstract registry that the interleaved library refines.
  \<^item> \<open>Watcher\<close> (\<open>jobslib/watcher.go\<close>): waiting for a file and scanning inotify events.  \<open>StreamSync\<close>:
    the watchers of all jobs and the readers of \<open>StreamOutput\<close> over the two locks they share.
  \<^item> \<open>Authn\<close> (\<open>api/authn\<close>), \<open>Authz\<close> (\<open>api/authz\<close>), \<open>ValidateClient\<close>
    (\<open>api/server/validate_client.go\<close>): certificates, roles, the interceptors and the request context.
  \<^item> \<open>Messages\<close> (\<open>jobs.pb.go\<close>): message fields, accessors, enumeration and timestamps.
  \<^item> \<open>ServerImpl\<close> (\<open>api/server/server_impl.go\<close>): the four handlers.  \<open>Server\<close> (\<open>api/server/server.go\<close>,
    \<open>cmd/server/main.go\<close>, the server half of \<open>jobs_grpc.pb.go\<close>): set-up, running and teardown.
  \<^item> \<open>Client\<close> (\<open>api/client\<close>, \<open>cmd/client/main.go\<close>, the client half of \<open>jobs_grpc.pb.go\<close>).
  \<^item> \<open>Requests\<close>: a request from the certificate through interceptor and handler to the library.
    \<open>ServerRun\<close>: a server at work, any sequence of calls and ending jobs (\<open>server_step\<close>).
    \<open>Service\<close>: the service interface and descriptor of \<open>jobs_grpc.pb.go\<close>, the routing of method names,
    and a client against its server; \<open>StreamService\<close>: the same for the streaming call.
    \<open>Command\<close>: the client program from its command line to the library of the server.
  \<^item> This theory: the properties that span components, and their witnesses.

  \<^bold>\<open>How state and operations correspond\<close>

  The struct \<open>JobsLib\<close> is the record of that name; job pointers are indices of its list \<open>heap\<close>.  A
  world \<open>'w\<close> stands for everything outside the process, and every call of the operating system is a
  state transformer on it about which nothing is assumed, so all error branches are reachable.
  Properties that need more name it: \<open>file_kernel\<close> and its extensions for directories and files,
  \<open>growing_file\<close> for an output file, \<open>unicode_ok\<close> for lower-casing, \<open>deployment\<close> and
  \<open>stream_deployment\<close> for the connection, \<open>client_program\<close> for what the client program finds.
  Each of these is a locale (or predicate) with an interpretation at a concrete system.  The handlers
  work on the record \<open>server\<close>: library, world and goroutines.  Results are sums of an error
  (\<open>goerr\<close>, one constructor per way the code makes errors) and a value; a call that panics is the
  value \<open>Panicked\<close>, and one that never returns is \<open>None\<close>.

  \<^bold>\<open>What the lemmas show\<close>

  \<^item> Jobs: the life of a job along every interleaving, the exactness of the index of each client's
    jobs, one goroutine for each running job, the refinement of the registry, the typing of jobs
    (\<open>well_formed\<close>), and that what was reported once stays true.
  \<^item> A server at work: each handler is a sequence of steps of the interleaved library, so that every run
    of a server is one of its executions, keeps its invariants and refines the registry; the status of
    a job only moves forward.
  \<^item> Requests: only certified, authorized clients reach a handler; a status is shown only to the owner
    or the superuser; a start registers a job of the certified client; a stop ends just the job named,
    for somebody who may; a stream is the output of a job the client may see; handlers do not panic
    on admitted contexts; what a client started it can look at, what others started it cannot, and what it is shown later is
    where the job has got to.  A \<open>start\<close> on the command line starts exactly the job written there.
  \<^item> Cgroups: set-up, limits, removal and teardown do what they should to the directory tree, and to
    nothing else; a run of the server that ends without an error leaves none of them behind.
  \<^item> Streaming: what is sent is a prefix of the file.  Five situations in which streaming goes wrong
    are proved as such: ended jobs with at least 1024 bytes of output, the handler that spins when no
    watcher runs, the lost last chunk, and, between threads, the watcher that blocks all streams and
    the lost wake-up.
  \<^item> Stop: it returns for the owner, hangs for the superuser stopping another's job, holds up all other
    calls while it polls, and may report a stale copy.
  \<^item> Data: parsers and encodings (device numbers, entity names, command lines, inotify events,
    timestamps, messages) are characterised exactly.

  \<^bold>\<open>Loops and bounds\<close>

  Loops over lists and directory entries are structural recursions.  \<open>WaitForFile\<close> terminates by its
  counter, at most 199 rounds.  The poll of \<open>Stop\<close> (\<open>wait_gone\<close>), the loops of \<open>StreamOutput\<close>, of
  \<open>Watcher\<close> and of the receiving client have no bound in the code; they are \<open>partial_function\<close>s with
  result \<open>None\<close> for a loop that does not end, and that they return, or that they do not, is proved as
  such.  No fuel is used.  Process identifiers, enumeration and exit codes are 32-bit words; timestamps
  use the truncating 64-bit divisions of Go; the offset of the inotify scan is a 32-bit word.

  \<^bold>\<open>Interleaving\<close>

  \<open>lib_step\<close> has one step per critical section and per stretch of code between them, except that the
  critical section of \<open>Stop\<close> is an entering step, any number of probes, and a leaving step, with the
  mutex held by the call in between (\<open>mutex\<close>); an environment step changes the world at will.  What
  other processes do between two calls inside one stretch is part of the operations.  A reader takes
  the mutex for reading in its one step.  The only assumption is that KSUIDs do not repeat.  Calls
  that end in an error before a critical section leave the library as it is; what they did to the world
  is an environment step.
  \<open>sync_step\<close> has one step per operation on a lock, the condition
  variable or an inotify queue; it abstracts from the data.

  \<^bold>\<open>Not modelled\<close>

  Log output; wire encoding, descriptors and reflection of the
  generated protobuf code; TLS and gRPC themselves (they are parameters: \<open>tls_ops\<close>, \<open>net_ops\<close>,
  \<open>stream_ops\<close>, \<open>conn\<close>); the validity dates of certificates, which the code only logs; signals that
  end the processes, apart from their effect on contexts; the tests.
\<close>

section \<open>Requests\<close>

text \<open>
  Property C7: a job shown is shown to somebody who may see it.  When the Status method of a server that
  \<open>NewServer\<close> made answers with a job, the peer has shown certificates, the last of which identifies a
  client; that client owns the job, or it is the superuser.
\<close>

theorem served_status_authorized:
  assumes "run_state (NewServer os tls ks sc) w0 = (Inr gs, w1)" and "unicode_ok (os_unicode os)"
    and "JobService_Status_Handler os ctx dec (unary_of os gs) s = Some (Returned (Inr reply), s')"
  shows "\<exists>nm role inp s1 job. authenticated (os_unicode os) ctx nm role \<and> run_state dec s = (Inr inp, s1) \<and>
    may_access (s_lib s1) nm (GetJobID (GetJobIDRequest (Some inp))) (role = Admin) job \<and>
    reply = job_response (GetJobIDRequest (Some inp)) job \<and> s_lib s' = s_lib s1"
  by (rule served_Status [OF NewServer_options(1) [OF assms(1)] assms(2,3)])

text \<open>
  Property C8: a job started belongs to the client whose certificate was shown.  When the Start method of a
  server that \<open>NewServer\<close> made answers with an identifier, the registry has gained exactly that job,
  running, owned by the client the last certificate identifies, with the command and arguments asked
  for, and one goroutine waits for it; provided the identifier is new.
\<close>

theorem served_start_registers:
  assumes "run_state (NewServer os tls ks sc) w0 = (Inr gs, w1)" and "unicode_ok (os_unicode os)"
    and "JobService_Start_Handler os ctx dec (unary_of os gs) s = Some (Returned (Inr reply), s')"
    and "\<forall>inp s1. run_state dec s = (Inr inp, s1) \<longrightarrow> store_inv (s_lib s1) \<and> jobs (s_lib s1) (f_JobID reply) = None"
  shows "\<exists>nm role inp s1 job pid. authenticated (os_unicode os) ctx nm role \<and> run_state dec s = (Inr inp, s1) \<and>
    registry (s_lib s') = (registry (s_lib s1))(f_JobID reply \<mapsto> (nm, Running)) \<and>
    lookup_job (s_lib s') (f_JobID reply) = Some job \<and> fresh_job job \<and>
    Command job = GetCommand (Some inp) \<and> CmdArgs job = GetArgs (Some inp) \<and>
    s_goroutines s' = (length (heap (s_lib s1)), pid) # s_goroutines s1 \<and> store_inv (s_lib s')"
proof -
  obtain nm role inp s1 job pid where *: "authenticated (os_unicode os) ctx nm role" "run_state dec s = (Inr inp, s1)"
    "s_lib s' = Start_locked (s_lib s1) job" "ID job = f_JobID reply" "ClientName job = nm" "fresh_job job"
    "Command job = GetCommand (Some inp)" "CmdArgs job = GetArgs (Some inp)"
    "s_goroutines s' = (length (heap (s_lib s1)), pid) # s_goroutines s1"
    using served_Start [OF NewServer_options(1) [OF assms(1)] assms(2,3)] by metis
  have inv: "store_inv (s_lib s1)" "jobs (s_lib s1) (ID job) = None" using assms(4) *(2,4) by auto
  have "registry (s_lib s') = (registry (s_lib s1))(f_JobID reply \<mapsto> (nm, Running))"
    using registry_add [OF inv] * by (simp add: fresh_job_def)
  moreover have "lookup_job (s_lib s') (f_JobID reply) = Some job"
    using store.lookup_add [OF inv(1), of job] inv(2) * by (simp add: lookup_job_def)
  moreover have "store_inv (s_lib s')" using store_inv_add [OF inv] * by simp
  ultimately show ?thesis using *
    by (intro exI [of _ nm] exI [of _ role] exI [of _ inp] exI [of _ s1] exI [of _ job] exI [of _ pid]) simp
qed

text \<open>
  Property C9: a job is stopped only for somebody who may stop it.  Whatever the Stop method of a server that
  \<open>NewServer\<close> made answers, an error included, the library is as before, or exactly the job asked for,
  which had not ended, is marked as stopped, and the certificates shown identify its owner or the
  superuser.
\<close>

theorem served_stop_authorized:
  assumes "run_state (NewServer os tls ks sc) w0 = (Inr gs, w1)" and "unicode_ok (os_unicode os)"
    and "store_inv (s_lib s)" and "\<forall>r v. run_state dec s = (r, v) \<longrightarrow> s_lib v = s_lib s"
    and "JobService_Stop_Handler os ctx dec (unary_of os gs) s = Some (r, s')"
  shows "s_lib s' = s_lib s \<or> (\<exists>nm role inp v owner st. authenticated (os_unicode os) ctx nm role \<and>
    run_state dec s = (Inr inp, v) \<and> (role = Admin \<or> owner = nm) \<and>
    registry (s_lib s) (GetJobID (GetJobIDRequest (Some inp))) = Some (owner, st) \<and>
    st \<notin> {TerminatedByAPI, Completed} \<and> store_inv (s_lib s') \<and>
    registry (s_lib s') = (registry (s_lib s))(GetJobID (GetJobIDRequest (Some inp)) \<mapsto> (owner, TerminatedByAPI)))"
proof -
  let ?id = "\<lambda>inp. GetJobID (GetJobIDRequest (Some inp))"
  consider "s_lib s' = s_lib s" | nm role inp v a t where "authenticated (os_unicode os) ctx nm role"
      "run_state dec s = (Inr inp, v)" "jobs (s_lib s) (?id inp) = Some a"
      "role = Admin \<or> ClientName (heap (s_lib s) ! a) = nm" "\<not> job_ended (heap (s_lib s) ! a)"
      "s_lib s' = (s_lib s)\<lparr>heap := (heap (s_lib s))[a := stop_fields t (heap (s_lib s) ! a)]\<rparr>"
    using served_Stop [OF NewServer_options(1) [OF assms(1)] assms(2,4,5)] by blast
  then show ?thesis
  proof cases
    case (2 nm role inp v a t)
    note a = store_invD(1,2) [OF assms(3) 2(3)]
    have "registry (s_lib s) (?id inp) = Some (ClientName (heap (s_lib s) ! a), JState (heap (s_lib s) ! a))"
      using registry_at [OF assms(3) a(1)] a(2) by simp
    moreover have "registry (s_lib s') = (registry (s_lib s))(?id inp \<mapsto> (ClientName (heap (s_lib s) ! a), TerminatedByAPI))"
      using registry_heap_update [OF assms(3) a(1), of "stop_fields t (heap (s_lib s) ! a)"] a(2) 2(6) by simp
    moreover have "store_inv (s_lib s')"
      unfolding 2(6) using store_inv_heap_update [OF assms(3) a(1)] by simp
    moreover have "JState (heap (s_lib s) ! a) \<notin> {TerminatedByAPI, Completed}"
      using 2(5) by (simp add: job_ended_def)
    ultimately show ?thesis using 2(1,2,4) by blast
  qed simp
qed

text \<open>
  Property C10: nothing is streamed but the output of a job the client may see.  Whatever the kernel,
  the watcher and the other end do, when the StreamOutput method of a server that \<open>NewServer\<close> made
  ends, it has sent nothing, or the certificates shown identify a client that owns the job asked for
  or is the superuser, and the bytes sent are a prefix of that job's output file.
\<close>

theorem served_stream_authorized:
  assumes "run_state (NewServer os0 tls ks sc) w0 = (Inr gs, w1)" and "unicode_ok (os_unicode os)"
    and "\<And>path. growing_file os st nt path (fd path) (ss_handle ss) (content path) sent"
    and "\<And>u r v. run_state recv_req u = (r, v) \<Longrightarrow> sent v = sent u" and "sent w = ''''"
    and "serve_stream os st nt gs j recv_req ss w = Some (r, w')"
  shows "sent w' = '''' \<or> (\<exists>nm role inp job. authenticated (os_unicode os) (ss_ctx ss) nm role \<and>
    (\<exists>u v. run_state recv_req u = (Inr inp, v)) \<and>
    may_access j nm (GetJobID (GetJobIDRequest (Some inp))) (role = Admin) job \<and>
    prefix (sent w') (content (OutputFilePath job) w'))"
  by (rule served_stream [OF NewServer_options(2) [OF assms(1)] assms(2-6)])

text \<open>
  Fact: what a client starts it can look at.  A client that starts a command is shown an
  identifier; asking for its status over the same connection shows the response made from a running
  job with that identifier, the command and arguments it gave and the client its certificate
  identifies as the owner.
\<close>

theorem client_start_then_status:
  assumes "deployment os gs desc ctx cc dec tm srv shown" and "store_inv (s_lib (srv k))"
    and "run_state (client_Start tm cc command args) k = (None, k1)"
    and "shown k1 = shown k @ i @ newline" and "jobs (s_lib (srv k)) i = None"
    and "run_state (client_Status tm cc i) k1 = (None, k2)"
  shows "\<exists>nm role job. authenticated (os_unicode os) ctx nm role \<and> ID job = i \<and> ClientName job = nm \<and>
    JState job = Running \<and> Command job = command \<and> CmdArgs job = args \<and>
    shown k2 = shown k1 @ response_line tm (Some (job_response (Some \<lparr>f_JobID = i\<rparr>) job))"
proof -
  obtain role job where a: "authenticated (os_unicode os) ctx (ClientName job) role"
    and l: "s_lib (srv k1) = Start_locked (s_lib (srv k)) job" and f: "fresh_job job"
    and c: "Command job = command" "CmdArgs job = args" and "shown k1 = shown k @ ID job @ newline"
    using deployment.start_shows [OF assms(1,3)] by blast
  then have i: "ID job = i" using assms(4) by simp
  have "lookup_job (s_lib (srv k1)) i = Some job"
    using store.lookup_add [OF assms(2), of job] assms(5) i by (simp add: l lookup_job_def)
  then have "job' = job" if "may_access (s_lib (srv k1)) nm i ovr job'" for nm ovr job'
    using that by (auto simp: may_access_def lookup_job_def)
  then have "shown k2 = shown k1 @ response_line tm (Some (job_response (Some \<lparr>f_JobID = i\<rparr>) job))"
    using deployment.status_shows [OF assms(1,6)] by metis
  with a c f i show ?thesis by (intro exI [of _ "ClientName job"] exI [of _ role] exI [of _ job]) (simp add: fresh_job_def)
qed

text \<open>
  Property C12: a client can follow what it starts.  A client starts a command on a server that has been running
  since \<open>NewServer\<close> made it, and is shown a new identifier.  However long the server goes on serving
  others and however many jobs end, asking for that identifier shows the response made from a well
  formed job with that identifier, the command and arguments given and the client that the
  certificate of the connection identifies as its owner.
\<close>

theorem client_follows_job:
  assumes "deployment os gs desc ctx cc dec tm srv shown"
    and "run_state (NewServer os tls ks sc) w0 = (Inr gs, w1)" and "(server_step os gs)\<^sup>*\<^sup>* (new_server gs w1) (srv k)"
    and "run_state (client_Start tm cc command args) k = (None, k1)"
    and "shown k1 = shown k @ i @ newline" and "jobs (s_lib (srv k)) i = None"
    and "(server_step os gs)\<^sup>*\<^sup>* (srv k1) (srv k2)"
    and "run_state (client_Status tm cc i) k2 = (None, k3)"
  shows "\<exists>nm role job. authenticated (os_unicode os) ctx nm role \<and> well_formed job \<and> ID job = i \<and>
    ClientName job = nm \<and> Command job = command \<and> CmdArgs job = args \<and>
    shown k3 = shown k2 @ response_line tm (Some (job_response (Some \<lparr>f_JobID = i\<rparr>) job))"
proof -
  obtain role job where a: "authenticated (os_unicode os) ctx (ClientName job) role"
    and l: "s_lib (srv k1) = Start_locked (s_lib (srv k)) job" and c: "Command job = command" "CmdArgs job = args"
    and "shown k1 = shown k @ ID job @ newline"
    using deployment.start_shows [OF assms(1,4)] by blast
  then have i: "ID job = i" using assms(5) by simp
  have k1: "(server_step os gs)\<^sup>*\<^sup>* (new_server gs w1) (srv k1)"
    using deployment.start_steps [OF assms(1,4)] assms(3,5,6) by (metis rtranclp.rtrancl_into_rtrancl)
  have "lookup_job (s_lib (srv k1)) i = Some job"
    using store.lookup_add [OF server_registry(1) [OF assms(2,3)], of job] assms(6) i by (simp add: l lookup_job_def)
  from server_job_evolves [OF assms(2) k1 assms(7) this] obtain job' where
    j': "lookup_job (s_lib (srv k2)) i = Some job'" and e: "job_evolves job job'" by blast
  have "(server_step os gs)\<^sup>*\<^sup>* (new_server gs w1) (srv k2)" using k1 assms(7) by (rule rtranclp_trans)
  from server_registry(1,3) [OF assms(2) this] j' have "well_formed job'"
    by (auto simp: lookup_job_def dest: store_invD(1))
  moreover have "shown k3 = shown k2 @ response_line tm (Some (job_response (Some \<lparr>f_JobID = i\<rparr>) job'))"
    using deployment.status_shows [OF assms(1,8)] j' by (auto simp: may_access_def lookup_job_def)
  moreover have "ID job' = i" "ClientName job' = ClientName job" "Command job' = command" "CmdArgs job' = args"
    using e i c by (simp_all add: job_evolves_def same_constants_def)
  ultimately show ?thesis using a
    by (intro exI [of _ "ClientName job"] exI [of _ role] exI [of _ job']) simp
qed


text \<open>
  Property C11: what is typed is what runs.  When the client program is called with the operation start, in any
  case, and its call succeeds, the library of the server has gained exactly one job, running, with
  the command and the arguments of the command line, nothing added or lost, owned by the client the
  certificate of the connection identifies; and its identifier is what the program has printed.
\<close>

theorem command_line_starts_job:
  assumes "client_program os gs desc ctx dec tm srv shown tls dial"
    and "client_main u tm tls dial exe ab (flag # name # oper # command # args) k = Some (CallDone None, k')"
    and "ToLower u oper = ''start''"
  shows "\<exists>nm role job. authenticated (os_unicode os) ctx nm role \<and>
    s_lib (srv k') = Start_locked (s_lib (srv k)) job \<and> ClientName job = nm \<and> fresh_job job \<and>
    Command job = command \<and> CmdArgs job = args \<and> shown k' = shown k @ ID job @ newline"
  by (rule client_program.main_starts [OF assms(1,2) refl assms(3)])

text \<open>
  Property C16: a client is not shown the job of another.  When the certificate of the connection identifies
  a client without the role Admin, asking for the status of a job that somebody else owns ends in an
  error.
\<close>

theorem client_status_of_other_denied:
  assumes "deployment os gs desc ctx cc dec tm srv shown"
    and "authenticated (os_unicode os) ctx nm role" and "role \<noteq> Admin"
    and "lookup_job (s_lib (srv k)) i = Some job" and "ClientName job \<noteq> nm"
  shows "\<exists>err. fst (run_state (client_Status tm cc i) k) = Some err"
proof (rule ccontr)
  assume "\<not> ?thesis"
  then have "fst (run_state (client_Status tm cc i) k) = None" by auto
  then obtain k' where "run_state (client_Status tm cc i) k = (None, k')" by (metis prod.collapse)
  from deployment.status_shows [OF assms(1) this] obtain n r job' where
    n: "authenticated (os_unicode os) ctx n r" and m: "may_access (s_lib (srv k)) n i (r = Admin) job'" by blast
  have "n = nm \<and> r = role"
    using authenticated_unique [OF assms(2) n] .
  with m assms(3-5) show False by (auto simp: may_access_def lookup_job_def)
qed


section \<open>Witnesses\<close>

theorem served_status_authorized_witness:
  "\<exists>job. may_access (s_lib started_state) ''client1'' ''job100'' False job \<and> ClientName job = ''client1''"
proof -
  from served_status_authorized [OF mem_gs_made mem_unicode_ok mem_Status_handled [OF started_lookup]]
  obtain nm role job where "authenticated (os_unicode mem_os) (sample_ctx ''client1'') nm role"
    "may_access (s_lib started_state) nm ''job100'' (role = Admin) job"
    by (auto simp: go_run id_request_def getter_defs)
  then show ?thesis using authenticated_unique [OF sample_authenticated] started_lookup
    by (auto simp: may_access_def)
qed

theorem served_start_registers_witness:
  "registry (s_lib started_state) ''job100'' = Some (''client1'', Running) \<and> store_inv (s_lib started_state)"
proof -
  have "jobs (s_lib start_state) ''job100'' = None" by (simp add: start_state_def sample_lib_def)
  then have new: "\<forall>inp s1. run_state (State_Monad.return (Inr \<lparr>f_Command = ''ls'', f_Args = [''-l'']\<rparr>) :: (memw server, goerr + JobCreateRequest) state)
      start_state = (Inr inp, s1) \<longrightarrow> store_inv (s_lib s1) \<and> jobs (s_lib s1) (f_JobID \<lparr>f_JobID = ''job100''\<rparr>) = None"
    using sample_store_inv by (auto simp: go_run start_state_def)
  from served_start_registers [OF mem_gs_made mem_unicode_ok mem_Start_handled new]
  obtain nm role where "authenticated (os_unicode mem_os) (sample_ctx ''client1'') nm role"
    "registry (s_lib started_state) ''job100'' = Some (nm, Running)" "store_inv (s_lib started_state)"
    by auto
  then show ?thesis using authenticated_unique [OF sample_authenticated] by auto
qed

theorem served_stop_authorized_witness:
  "\<exists>r s'. JobService_Stop_Handler mem_os (sample_ctx ''client1'') (State_Monad.return (Inr (id_request ''j1'')))
     (unary_of mem_os mem_gs) stop_state = Some (Returned (Inr r), s') \<and>
   registry (s_lib s') ''j1'' = Some (''client1'', TerminatedByAPI)"
proof -
  obtain r s' where h: "JobService_Stop_Handler mem_os (sample_ctx ''client1'') (State_Monad.return (Inr (id_request ''j1'')))
     (unary_of mem_os mem_gs) stop_state = Some (Returned (Inr r), s')"
    and st: "JState (heap (s_lib s') ! 0) = TerminatedByAPI"
    by (rule mem_Stop_handled)
  have d: "\<forall>r v. run_state (State_Monad.return (Inr (id_request ''j1'')) :: (memw server, goerr + JobIDRequest) state)
      stop_state = (r, v) \<longrightarrow> s_lib v = s_lib stop_state"
    by (simp add: go_run)
  have "s_lib s' \<noteq> s_lib stop_state" using st by (auto simp: stop_state_def sample_lib_def sample_job_def)
  with served_stop_authorized [OF mem_gs_made mem_unicode_ok stop_state_inv d h] stop_state_registry
  show ?thesis using h by (auto simp: go_run id_request_def getter_defs)
qed

theorem client_follows_job_witness:
  "\<exists>i job k3. well_formed job \<and> ID job = i \<and> ClientName job = ''client1'' \<and> CmdArgs job = [''-l''] \<and>
     snd k3 = i @ newline @ response_line direct_terminal (Some (job_response (Some \<lparr>f_JobID = i\<rparr>) job))"
proof -
  obtain i s a pid where h: "JobService_Start_Handler mem_os (sample_ctx ''client1'') (State_Monad.return (Inr run_request))
      (unary_of mem_os mem_gs) run_start = Some (Returned (Inr \<lparr>f_JobID = i\<rparr>), s)"
    and s: "i \<noteq> ''''" "jobs (s_lib s) i = Some a" "ClientName (heap (s_lib s) ! a) = ''client1''"
    "JState (heap (s_lib s) ! a) = Running" "s_goroutines s = [(a, pid)]" "a < length (heap (s_lib s))"
    by (rule run_registered)
  obtain t where t: "server_step mem_os mem_gs s t" "jobs (s_lib t) i = Some a" "ClientName (heap (s_lib t) ! a) = ''client1''"
    using run_ended [OF s(2,4,5,6)] s(3) by metis
  have start: "run_state (client_Start direct_terminal sample_conn ''ls'' [''-l'']) (run_start, '''') = (None, (s, i @ newline))"
    using direct_Start [OF h [unfolded run_request_def], of "''''"] by simp
  note status = direct_Status [OF t(2,3) s(1), of "i @ newline"]
  have pre: "(server_step mem_os mem_gs)\<^sup>*\<^sup>* run_start (fst (run_start, '''' :: string))"
    "snd (s, i @ newline) = snd (run_start, '''' :: string) @ i @ newline"
    "jobs (s_lib (fst (run_start, '''' :: string))) i = None"
    "(server_step mem_os mem_gs)\<^sup>*\<^sup>* (fst (s, i @ newline)) (fst (t, i @ newline))"
    using NewServer_lib(1) [OF mem_gs_made] t(1) by (simp_all add: new_server_def)
  from client_follows_job [OF sample_deployment mem_gs_made pre(1) start pre(2,3,4) status]
  obtain nm role job where "authenticated (os_unicode mem_os) (sample_ctx ''client1'') nm role" "well_formed job"
    "ID job = i" "ClientName job = nm" "CmdArgs job = [''-l'']"
    "response_line direct_terminal (Some (job_response (Some \<lparr>f_JobID = i\<rparr>) (heap (s_lib t) ! a)))
     = response_line direct_terminal (Some (job_response (Some \<lparr>f_JobID = i\<rparr>) job))"
    by auto
  with authenticated_unique [OF sample_authenticated] show ?thesis
    by (intro exI [of _ i] exI [of _ job] exI [of _ "(t, i @ newline @
      response_line direct_terminal (Some (job_response (Some \<lparr>f_JobID = i\<rparr>) job)))"]) auto
qed

theorem command_line_starts_job_witness:
  "\<exists>job. s_lib started_state = Start_locked sample_lib job \<and> ID job = ''job100'' \<and> ClientName job = ''client1'' \<and>
     Command job = ''ls'' \<and> CmdArgs job = [''-l'']"
proof -
  have l: "ToLower mem_unicode ''Start'' = ''start''" by code_simp
  from command_line_starts_job [OF sample_program.client_program_axioms
      sample_command_done [unfolded sample_command_def] l]
  obtain nm role job where "authenticated (os_unicode mem_os) (sample_ctx ''client1'') nm role"
    "s_lib started_state = Start_locked sample_lib job" "ClientName job = nm" "Command job = ''ls''" "CmdArgs job = [''-l'']"
    "ID job = ''job100''"
    by (auto simp: start_state_def)
  with authenticated_unique [OF sample_authenticated] show ?thesis by auto
qed


theorem client_start_then_status_witness:
  "\<exists>job. ID job = ''job100'' \<and> ClientName job = ''client1'' \<and> JState job = Running \<and> CmdArgs job = [''-l''] \<and>
     snd (snd (run_state (client_Status direct_terminal sample_conn ''job100'')
       (started_state, ''job100'' @ newline)))
     = ''job100'' @ newline @ response_line direct_terminal (Some (job_response (Some \<lparr>f_JobID = ''job100''\<rparr>) job))"
proof -
  have "store_inv (s_lib (fst (start_state, ''''::string)))" "jobs (s_lib (fst (start_state, ''''::string))) ''job100'' = None"
    using sample_store_inv by (simp_all add: start_state_def sample_lib_def)
  note st = direct_Status [OF started_lookup, of "''job100'' @ newline"]
  have line: "snd (started_state, ''job100'' @ newline) = snd (start_state, '''') @ ''job100'' @ newline" by simp
  have start: "run_state (client_Start direct_terminal sample_conn ''ls'' [''-l'']) (start_state, '''')
      = (None, (started_state, ''job100'' @ newline))"
    using direct_Start [OF mem_Start_handled, of "''''"] by simp
  from client_start_then_status [OF sample_deployment \<open>store_inv _\<close> start line \<open>jobs _ _ = None\<close> st]
  obtain nm role job where "authenticated (os_unicode mem_os) (sample_ctx ''client1'') nm role"
    "ID job = ''job100''" "ClientName job = nm" "JState job = Running" "CmdArgs job = [''-l'']"
    "response_line direct_terminal (Some (job_response (Some \<lparr>f_JobID = ''job100''\<rparr>) (heap (s_lib started_state) ! 1)))
     = response_line direct_terminal (Some (job_response (Some \<lparr>f_JobID = ''job100''\<rparr>) job))"
    by auto
  then show ?thesis using authenticated_unique [OF sample_authenticated] st by auto
qed

text \<open>The superuser's job is not shown to client1.\<close>

definition super_state :: "memw server" where
  "super_state = \<lparr>s_lib = sample_lib\<lparr>heap := [sample_job\<lparr>ClientName := ''superuser''\<rparr>]\<rparr>, s_world = mem_boot,
     s_goroutines = []\<rparr>"

theorem client_status_of_other_denied_witness:
  "\<exists>err. fst (run_state (client_Status direct_terminal sample_conn ''j1'')
     (super_state, '''')) = Some err"
proof (rule client_status_of_other_denied [OF sample_deployment sample_authenticated])
  show "lookup_job (s_lib (fst (super_state, '''' :: string))) ''j1'' = Some (sample_job\<lparr>ClientName := ''superuser''\<rparr>)"
    by (simp add: lookup_job_def super_state_def sample_lib_def)
qed (simp_all add: role_defs)

theorem served_stream_authorized_witness:
  "\<exists>nm role job. authenticated (os_unicode mem_os) (sample_ctx ''client1'') nm role \<and>
     may_access ended_sample nm ''j1'' (role = Admin) job \<and> prefix ''abc'' ''abc''"
proof -
  have "os_unicode stream_os = os_unicode mem_os" by (simp add: stream_os_def lift_os_def)
  moreover from this have "unicode_ok (os_unicode stream_os)" by simp
  moreover have "concat (sw_sent v) = concat (sw_sent u)"
    if "run_state (State_Monad.return (Inr (id_request ''j1''))) u = (r :: goerr + JobIDRequest, v)" for u r and v :: streamw
    using that by (auto simp: go_run)
  ultimately show ?thesis
    using served_stream_authorized [where content = "\<lambda>p. sw_file" and fd = "\<lambda>p. 7", OF mem_gs_made _
        mem_file.growing_file_axioms _ _ mem_serve_stream]
    by (auto simp: mem_streamw_def go_run id_request_def getter_defs)
qed


end
